(* ===== verification/Syncer_Prelude.thy ===== *)
theory Syncer_Prelude
  imports Main "HOL-Library.Word" "HOL-Library.Multiset"
begin

text \<open>
  Shared vocabulary of the development: Rust's \<open>Result\<close> as a sum type with the \<open>?\<close>
  operator, stateful fallible operations as state transformers whose effects survive an
  error, the saturating and checked operations on \<open>u64\<close>, and tables of rows with a
  primary key as lists of records, with the statements the SQL of the program uses on them.
\<close>

named_theorems result_simps \<open>unfolding rules of the result combinators\<close>
named_theorems u64_simps \<open>readings of u64 operations as natural numbers\<close>
named_theorems table_simps \<open>rules about statements on tables of rows\<close>

section \<open>Results\<close>

text \<open>The \<open>?\<close> operator: an error returns early, a value goes on.\<close>

definition and_then :: "'e + 'a \<Rightarrow> ('a \<Rightarrow> 'e + 'b) \<Rightarrow> 'e + 'b" where
  "and_then r f = (case r of Inl e \<Rightarrow> Inl e | Inr a \<Rightarrow> f a)"

definition map_err :: "('e \<Rightarrow> 'f) \<Rightarrow> 'e + 'a \<Rightarrow> 'f + 'a" where
  "map_err g r = (case r of Inl e \<Rightarrow> Inl (g e) | Inr a \<Rightarrow> Inr a)"

definition ok_or :: "'e \<Rightarrow> 'a option \<Rightarrow> 'e + 'a" where
  "ok_or e r = (case r of None \<Rightarrow> Inl e | Some a \<Rightarrow> Inr a)"

definition is_ok :: "'e + 'a \<Rightarrow> bool" where
  "is_ok r = (case r of Inl _ \<Rightarrow> False | Inr _ \<Rightarrow> True)"

text \<open>\<open>iter().map(f).collect::<Result<Vec<_>, _>>()\<close>: the first error wins.\<close>

fun collect_results :: "('a \<Rightarrow> 'e + 'b) \<Rightarrow> 'a list \<Rightarrow> 'e + 'b list" where
  "collect_results f [] = Inr []"
| "collect_results f (x # xs) =
     and_then (f x) (\<lambda>y. and_then (collect_results f xs) (\<lambda>ys. Inr (y # ys)))"

lemma and_then_simps [simp, result_simps]:
  "and_then (Inl e) f = Inl e"
  "and_then (Inr a) f = f a"
  by (simp_all add: and_then_def)

lemma map_err_simps [simp, result_simps]:
  "map_err g (Inl e) = Inl (g e)"
  "map_err g (Inr a) = Inr a"
  by (simp_all add: map_err_def)

lemma ok_or_simps [simp, result_simps]:
  "ok_or e None = Inl e"
  "ok_or e (Some a) = Inr a"
  by (simp_all add: ok_or_def)

lemma is_ok_simps [simp, result_simps]:
  "is_ok (Inl e) = False"
  "is_ok (Inr a) = True"
  by (simp_all add: is_ok_def)

lemma and_then_Inr_iff:
  "and_then r f = Inr b \<longleftrightarrow> (\<exists>a. r = Inr a \<and> f a = Inr b)"
  by (cases r) auto

lemma and_then_Inl_iff:
  "and_then r f = Inl e \<longleftrightarrow> r = Inl e \<or> (\<exists>a. r = Inr a \<and> f a = Inl e)"
  by (cases r) auto

lemma map_err_Inr_iff [simp]: "map_err g r = Inr a \<longleftrightarrow> r = Inr a"
  by (cases r) auto

lemma ok_or_Inr_iff [simp]: "ok_or e r = Inr a \<longleftrightarrow> r = Some a"
  by (cases r) auto

lemma map_err_Inl_iff: "map_err g r = Inl e \<longleftrightarrow> (\<exists>e'. r = Inl e' \<and> e = g e')"
  by (cases r) auto

lemma ok_or_Inl_iff: "ok_or e r = Inl e' \<longleftrightarrow> r = None \<and> e' = e"
  by (cases r) auto

lemma is_ok_iff: "is_ok r \<longleftrightarrow> (\<exists>a. r = Inr a)"
  by (cases r) auto

lemmas result_iffs = and_then_Inr_iff and_then_Inl_iff

lemma collect_results_Inr_iff:
  "collect_results f xs = Inr ys \<longleftrightarrow> list_all2 (\<lambda>x y. f x = Inr y) xs ys"
proof (induction xs arbitrary: ys)
  case Nil
  then show ?case by auto
next
  case (Cons x xs)
  then show ?case
    by (cases ys) (auto simp: and_then_Inr_iff)
qed

lemma collect_results_ok:
  assumes "\<And>x. x \<in> set xs \<Longrightarrow> f x = Inr (g x)"
  shows "collect_results f xs = Inr (map g xs)"
  using assms by (induction xs) auto

lemma collect_results_ex:
  "\<forall>x \<in> set xs. \<exists>y. f x = Inr y \<Longrightarrow> \<exists>ys. collect_results f xs = Inr ys"
  by (induction xs) auto

lemma collect_results_length:
  "collect_results f xs = Inr ys \<Longrightarrow> length ys = length xs"
  by (auto simp: collect_results_Inr_iff dest: list_all2_lengthD)

lemma collect_results_error:
  assumes "x \<in> set xs" and "f x = Inl e"
  shows "\<exists>e'. collect_results f xs = Inl e'"
  using assms
proof (induction xs)
  case Nil
  then show ?case by simp
next
  case (Cons y ys)
  then show ?case
    by (cases "f y"; cases "collect_results f ys") auto
qed

lemma list_all2_mem1:
  "list_all2 P xs ys \<Longrightarrow> x \<in> set xs \<Longrightarrow> \<exists>y \<in> set ys. P x y"
  by (induction rule: list_all2_induct) auto

lemma list_all2_mem2:
  "list_all2 P xs ys \<Longrightarrow> y \<in> set ys \<Longrightarrow> \<exists>x \<in> set xs. P x y"
  by (induction rule: list_all2_induct) auto

text \<open>Sorting keeps counts, and commutes with changes that keep the key.\<close>

lemma length_filter_sort_key [simp]: "length (filter p (sort_key f xs)) = length (filter p xs)"
proof -
  have "mset (filter p (sort_key f xs)) = mset (filter p xs)" by simp
  then show ?thesis by (metis size_mset)
qed

lemma sort_key_map_same:
  assumes "\<And>r. k (f r) = k r"
  shows "sort_key k (map f rs) = map f (sort_key k rs)"
proof -
  have ins: "insort_key k (f r) (map f rs) = map f (insort_key k r rs)" for r rs
    by (induction rs) (simp_all add: assms)
  show ?thesis by (induction rs) (simp_all add: ins)
qed

section \<open>Stateful fallible operations\<close>

text \<open>
  An operation on a mutable state that may fail. The state after an error is the state at
  the error: nothing is rolled back unless the source says so.
\<close>

type_synonym ('s, 'e, 'a) stateful = "'s \<Rightarrow> ('e + 'a) \<times> 's"

definition bind_op ::
  "('s, 'e, 'a) stateful \<Rightarrow> ('a \<Rightarrow> ('s, 'e, 'b) stateful) \<Rightarrow> ('s, 'e, 'b) stateful" where
  "bind_op m f = (\<lambda>s. case m s of (Inl e, s') \<Rightarrow> (Inl e, s') | (Inr a, s') \<Rightarrow> f a s')"

definition lift_result :: "'e + 'a \<Rightarrow> ('s, 'e, 'a) stateful" where
  "lift_result r = (\<lambda>s. (r, s))"

definition read_op :: "('s \<Rightarrow> 'e + 'a) \<Rightarrow> ('s, 'e, 'a) stateful" where
  "read_op q = (\<lambda>s. (q s, s))"

definition write_op :: "('s \<Rightarrow> 's) \<Rightarrow> ('s, 'e, unit) stateful" where
  "write_op f = (\<lambda>s. (Inr (), f s))"

lemma lift_result_apply [simp, result_simps]: "lift_result r s = (r, s)"
  by (simp add: lift_result_def)

lemma read_op_apply [simp, result_simps]: "read_op q s = (q s, s)"
  by (simp add: read_op_def)

lemma write_op_apply [simp, result_simps]: "write_op f s = (Inr (), f s)"
  by (simp add: write_op_def)

lemma bind_op_apply [result_simps]:
  "bind_op m f s = (case fst (m s) of Inl e \<Rightarrow> (Inl e, snd (m s)) | Inr a \<Rightarrow> f a (snd (m s)))"
  by (simp add: bind_op_def split: prod.splits sum.splits)

lemma bind_op_lift [simp]:
  "bind_op (lift_result (Inr a)) f s = f a s"
  "bind_op (lift_result (Inl e)) f s = (Inl e, s)"
  by (simp_all add: bind_op_def)

lemma bind_op_Inr:
  "bind_op m f w = (Inr b, w') \<longleftrightarrow> (\<exists>a t. m w = (Inr a, t) \<and> f a t = (Inr b, w'))"
  by (auto simp: bind_op_def split: prod.splits sum.splits)

lemma bind_op_cases:
  assumes "bind_op m f w = (r, w')"
  obtains (failed) e where "m w = (Inl e, w')" "r = Inl e"
    | (continued) a t where "m w = (Inr a, t)" "f a t = (r, w')"
  using assms by (auto simp: bind_op_def split: prod.splits sum.splits)

lemma lift_result_Inr: "lift_result r w = (Inr a, w') \<longleftrightarrow> r = Inr a \<and> w' = w"
  by auto

lemma read_op_Inr: "read_op q w = (Inr a, w') \<longleftrightarrow> q w = Inr a \<and> w' = w"
  by auto

subsection \<open>What an operation may change\<close>

text \<open>
  A frame condition is a preorder on states that an operation stays within, whether it
  succeeds or not. Sequencing keeps it, so a handler has it as soon as its steps do.
\<close>

definition within :: "('s \<Rightarrow> 's \<Rightarrow> bool) \<Rightarrow> ('s, 'e, 'a) stateful \<Rightarrow> bool" where
  "within le m \<longleftrightarrow> (\<forall>s. le s (snd (m s)))"

lemma withinD: "within le m \<Longrightarrow> le s (snd (m s))"
  by (simp add: within_def)

lemma within_step: "within le m \<Longrightarrow> m w = (r, w') \<Longrightarrow> le w w'"
  by (drule withinD [of le m w]) simp

lemma within_mono: "within le m \<Longrightarrow> (\<And>s t. le s t \<Longrightarrow> le' s t) \<Longrightarrow> within le' m"
  by (simp add: within_def)

locale frame_condition =
  fixes le :: "'s \<Rightarrow> 's \<Rightarrow> bool"
  assumes le_refl: "le s s"
    and le_trans: "le s t \<Longrightarrow> le t u \<Longrightarrow> le s u"
begin

lemma within_lift: "within le (lift_result r)"
  by (simp add: within_def le_refl)

lemma within_read: "within le (read_op q)"
  by (simp add: within_def le_refl)

lemma bind_op_le:
  assumes "le s (snd (m s))" and "\<And>a t. m s = (Inr a, t) \<Longrightarrow> le t (snd (f a t))"
  shows "le s (snd (bind_op m f s))"
proof -
  obtain r t where m: "m s = (r, t)" by fastforce
  with assms(1) have st: "le s t" by simp
  show ?thesis
  proof (cases r)
    case (Inl e)
    with m st show ?thesis by (simp add: bind_op_def)
  next
    case (Inr a)
    with m assms(2) have "le t (snd (f a t))" by simp
    with m st Inr show ?thesis by (auto simp: bind_op_def intro: le_trans)
  qed
qed

lemma within_bind: "within le m \<Longrightarrow> (\<And>a. within le (f a)) \<Longrightarrow> within le (bind_op m f)"
  by (auto simp: within_def intro: bind_op_le)

lemma within_if: "within le m \<Longrightarrow> within le n \<Longrightarrow> within le (if c then m else n)"
  by simp

lemmas within_intros = within_lift within_read within_bind within_if

end

section \<open>Unsigned 64-bit arithmetic\<close>

type_synonym u64 = "64 word"
type_synonym u16 = "16 word"
type_synonym u8 = "8 word"

definition saturating_add :: "u64 \<Rightarrow> u64 \<Rightarrow> u64" where
  "saturating_add a b = (if uint a + uint b < 2 ^ 64 then a + b else - 1)"

definition saturating_sub :: "u64 \<Rightarrow> u64 \<Rightarrow> u64" where
  "saturating_sub a b = (if b \<le> a then a - b else 0)"

definition saturating_mul :: "u64 \<Rightarrow> u64 \<Rightarrow> u64" where
  "saturating_mul a b = (if uint a * uint b < 2 ^ 64 then a * b else - 1)"

text \<open>\<open>x as u64\<close> for a length, and \<open>u64::try_from(len)\<close> on the way to it.\<close>

definition len_u64 :: "'a list \<Rightarrow> u64" where
  "len_u64 xs = of_nat (length xs)"

lemma unat_max_u64 [u64_simps]: "unat (- 1 :: u64) = 2 ^ 64 - 1"
  by (simp add: unsigned_minus_1_eq_mask mask_eq_exp_minus_1)

lemma unat_u64_lt: "unat (a :: u64) < 2 ^ 64"
  using unsigned_less [of a] by simp

lemma uint_sum_fits: "uint (a :: u64) + uint b < 2 ^ 64 \<longleftrightarrow> unat a + unat b < 2 ^ 64"
  unfolding uint_nat of_nat_add [symmetric] by (metis of_nat_less_iff of_nat_numeral of_nat_power)

lemma uint_product_fits: "uint (a :: u64) * uint b < 2 ^ 64 \<longleftrightarrow> unat a * unat b < 2 ^ 64"
  unfolding uint_nat of_nat_mult [symmetric] by (metis of_nat_less_iff of_nat_numeral of_nat_power)

lemma unat_saturating_add [u64_simps]:
  "unat (saturating_add a b) = min (unat a + unat b) (2 ^ 64 - 1)"
proof (cases "unat a + unat b < 2 ^ 64")
  case True
  then have "unat (a + b) = unat a + unat b"
    by (simp add: unat_word_ariths)
  with True uint_sum_fits [of a b] show ?thesis by (simp add: saturating_add_def)
next
  case False
  with uint_sum_fits [of a b] show ?thesis by (simp add: saturating_add_def unat_max_u64)
qed

lemma unat_saturating_sub [u64_simps]:
  "unat (saturating_sub a b) = unat a - unat b"
  by (simp add: saturating_sub_def unat_sub word_le_nat_alt)

lemma unat_saturating_mul [u64_simps]:
  "unat (saturating_mul a b) = min (unat a * unat b) (2 ^ 64 - 1)"
proof (cases "unat a * unat b < 2 ^ 64")
  case True
  then have "unat (a * b) = unat a * unat b"
    by (simp add: unat_word_ariths)
  with True uint_product_fits [of a b] show ?thesis by (simp add: saturating_mul_def)
next
  case False
  with uint_product_fits [of a b] show ?thesis by (simp add: saturating_mul_def unat_max_u64)
qed

lemma unat_len_u64 [u64_simps]:
  "length xs < 2 ^ 64 \<Longrightarrow> unat (len_u64 xs) = length xs"
  by (simp add: len_u64_def unat_of_nat)

subsection \<open>Counting loops\<close>

text \<open>
  The program's summaries are loops that bump one saturating counter of a record per item.
  Whatever the other counters do, a counter that is bumped exactly by the items it stands
  for ends up as their number, capped at the largest \<open>u64\<close>.
\<close>

locale saturating_counter =
  fixes step :: "'s \<Rightarrow> 'a \<Rightarrow> 's"
    and counter :: "'s \<Rightarrow> u64"
    and counted :: "'a \<Rightarrow> bool"
  assumes counter_step:
    "counter (step s a) = (if counted a then saturating_add (counter s) 1 else counter s)"
begin

lemma counter_foldl:
  "unat (counter (foldl step s xs))
     = min (unat (counter s) + length (filter counted xs)) (2 ^ 64 - 1)"
proof (induction xs arbitrary: s)
  case Nil
  then show ?case using unat_u64_lt [of "counter s"] by simp
next
  case (Cons a xs)
  then show ?case by (auto simp: counter_step u64_simps)
qed

lemma counter_from_zero:
  assumes "counter s = 0" and "length xs < 2 ^ 64"
  shows "unat (counter (foldl step s xs)) = length (filter counted xs)"
proof -
  have "length (filter counted xs) \<le> length xs" by (rule length_filter_le)
  with assms(2) have "length (filter counted xs) \<le> 2 ^ 64 - 1" by linarith
  with assms(1) show ?thesis by (simp add: counter_foldl min_absorb1)
qed

end

text \<open>
  Signed 64-bit values (SQLite's \<open>INTEGER\<close>, Rust's \<open>i64\<close>) are kept as \<open>int\<close> inside
  their range; the two conversions are the code's \<open>try_from\<close>s.
\<close>

definition i64_range :: "int \<Rightarrow> bool" where
  "i64_range n \<longleftrightarrow> - (2 ^ 63) \<le> n \<and> n < 2 ^ 63"

definition i64_of_u64 :: "u64 \<Rightarrow> int option" where
  "i64_of_u64 w = (if uint w < 2 ^ 63 then Some (uint w) else None)"

definition u64_of_i64 :: "int \<Rightarrow> u64 option" where
  "u64_of_i64 n = (if 0 \<le> n then Some (of_int n) else None)"

lemma i64_of_u64_Some_iff:
  "i64_of_u64 w = Some n \<longleftrightarrow> n = uint w \<and> uint w < 2 ^ 63"
  by (auto simp: i64_of_u64_def)

lemma i64_of_u64_range:
  assumes "i64_of_u64 w = Some n"
  shows "0 \<le> n" and "i64_range n"
  using assms uint_ge_0 [of w]
  by (auto simp: i64_of_u64_Some_iff i64_range_def intro: order_trans [of _ 0])

lemma u64_i64_roundtrip:
  "i64_of_u64 w = Some n \<Longrightarrow> u64_of_i64 n = Some w"
  by (auto simp: i64_of_u64_Some_iff u64_of_i64_def)

lemma u64_of_i64_None_iff: "u64_of_i64 n = None \<longleftrightarrow> n < 0"
  by (simp add: u64_of_i64_def)

section \<open>Tables of rows\<close>

text \<open>
  A table is the list of its rows in insertion order. \<open>UPDATE .. WHERE\<close>,
  \<open>DELETE .. WHERE\<close> and \<open>INSERT .. ON CONFLICT(key) DO UPDATE\<close> are the three
  statements the program runs; \<open>find_row\<close> is the lookup by primary key.
\<close>

definition update_where :: "('r \<Rightarrow> bool) \<Rightarrow> ('r \<Rightarrow> 'r) \<Rightarrow> 'r list \<Rightarrow> 'r list" where
  "update_where p f rows = map (\<lambda>r. if p r then f r else r) rows"

definition delete_where :: "('r \<Rightarrow> bool) \<Rightarrow> 'r list \<Rightarrow> 'r list" where
  "delete_where p rows = filter (\<lambda>r. \<not> p r) rows"

definition rows_affected :: "('r \<Rightarrow> bool) \<Rightarrow> 'r list \<Rightarrow> nat" where
  "rows_affected p rows = length (filter p rows)"

definition upsert_row ::
  "('r \<Rightarrow> 'k) \<Rightarrow> ('r \<Rightarrow> 'r \<Rightarrow> 'r) \<Rightarrow> 'r \<Rightarrow> 'r list \<Rightarrow> 'r list" where
  "upsert_row key merge new rows =
     (if \<exists>r \<in> set rows. key r = key new
      then map (\<lambda>r. if key r = key new then merge r new else r) rows
      else rows @ [new])"

definition find_row :: "('r \<Rightarrow> 'k) \<Rightarrow> 'k \<Rightarrow> 'r list \<Rightarrow> 'r option" where
  "find_row key k rows = find (\<lambda>r. key r = k) rows"

definition distinct_keys :: "('r \<Rightarrow> 'k) \<Rightarrow> 'r list \<Rightarrow> bool" where
  "distinct_keys key rows \<longleftrightarrow> distinct (map key rows)"

lemma set_update_where [table_simps]:
  "set (update_where p f rows) = (\<lambda>r. if p r then f r else r) ` set rows"
  by (simp add: update_where_def)

lemma set_delete_where [table_simps]:
  "set (delete_where p rows) = {r \<in> set rows. \<not> p r}"
  by (simp add: delete_where_def)

lemma length_update_where [simp, table_simps]:
  "length (update_where p f rows) = length rows"
  by (simp add: update_where_def)

lemma find_row_key: "find_row key k rows = Some r \<Longrightarrow> key r = k"
  by (auto simp: find_row_def find_Some_iff)

lemma find_row_in: "find_row key k rows = Some r \<Longrightarrow> r \<in> set rows"
  by (auto simp: find_row_def find_Some_iff)

lemma find_row_None_iff: "find_row key k rows = None \<longleftrightarrow> k \<notin> key ` set rows"
  by (auto simp: find_row_def find_None_iff image_iff)

lemma find_row_Nil [simp, table_simps]: "find_row key k [] = None"
  by (simp add: find_row_def)

lemma find_row_Cons [table_simps]:
  "find_row key k (r # rows) = (if key r = k then Some r else find_row key k rows)"
  by (simp add: find_row_def)

lemma find_row_append [table_simps]:
  "find_row key k (xs @ ys) =
     (case find_row key k xs of None \<Rightarrow> find_row key k ys | Some r \<Rightarrow> Some r)"
  by (induction xs) (auto simp: table_simps)

lemma find_row_Some_iff:
  assumes "distinct_keys key rows"
  shows "find_row key k rows = Some r \<longleftrightarrow> r \<in> set rows \<and> key r = k"
  using assms
proof (induction rows)
  case Nil
  then show ?case by simp
next
  case (Cons x xs)
  then show ?case
    by (auto simp: find_row_Cons distinct_keys_def)
qed

lemma find_row_update_where:
  assumes "\<And>r. key (f r) = key r"
  shows "find_row key k (update_where p f rows)
           = map_option (\<lambda>r. if p r then f r else r) (find_row key k rows)"
  using assms by (induction rows) (auto simp: update_where_def find_row_Cons)

lemma find_row_delete_key [table_simps]:
  "find_row key k (delete_where (\<lambda>r. key r = k') rows) =
     (if k = k' then None else find_row key k rows)"
  by (induction rows) (auto simp: delete_where_def find_row_Cons)

lemma distinct_keys_update_where:
  assumes "\<And>r. key (f r) = key r"
  shows "distinct_keys key (update_where p f rows) = distinct_keys key rows"
proof -
  have "map key (update_where p f rows) = map key rows"
    using assms by (simp add: update_where_def comp_def)
  then show ?thesis by (simp add: distinct_keys_def)
qed

lemma distinct_keys_delete_where:
  "distinct_keys key rows \<Longrightarrow> distinct_keys key (delete_where p rows)"
  by (simp add: distinct_keys_def delete_where_def distinct_map_filter)

lemma keys_update_where:
  assumes "\<And>r. key (f r) = key r"
  shows "map key (update_where p f rows) = map key rows"
  using assms by (simp add: update_where_def comp_def)

subsection \<open>The contract of a table with a primary key\<close>

text \<open>
  Any table whose conflict clause keeps the key satisfies the laws of a map: after an
  upsert the key holds the new row (merged into the old one if there was one), every other
  key is untouched, and the primary key stays unique.
\<close>

locale keyed_table =
  fixes key :: "'r \<Rightarrow> 'k"
    and merge :: "'r \<Rightarrow> 'r \<Rightarrow> 'r"
  assumes key_merge: "key old = key new \<Longrightarrow> key (merge old new) = key new"
begin

lemma map_key_upsert:
  "map key (upsert_row key merge new rows) =
     (if key new \<in> key ` set rows then map key rows else map key rows @ [key new])"
  by (auto simp: upsert_row_def key_merge image_iff comp_def intro!: map_cong dest: sym)

lemma keys_upsert: "key ` set (upsert_row key merge new rows) = insert (key new) (key ` set rows)"
proof -
  have "set (map key (upsert_row key merge new rows)) = insert (key new) (key ` set rows)"
    by (simp add: map_key_upsert insert_absorb)
  then show ?thesis by simp
qed

lemma distinct_upsert:
  "distinct_keys key rows \<Longrightarrow> distinct_keys key (upsert_row key merge new rows)"
  by (simp add: distinct_keys_def map_key_upsert)

lemma find_upsert_map:
  "find_row key k (map (\<lambda>r. if key r = key new then merge r new else r) rows) =
     map_option (\<lambda>r. if key r = key new then merge r new else r) (find_row key k rows)"
  by (induction rows) (auto simp: find_row_Cons key_merge)

lemma find_upsert_same:
  "find_row key (key new) (upsert_row key merge new rows) =
     Some (case find_row key (key new) rows of None \<Rightarrow> new | Some old \<Rightarrow> merge old new)"
proof (cases "find_row key (key new) rows")
  case None
  then have "\<not> (\<exists>r \<in> set rows. key r = key new)"
    by (metis find_row_None_iff imageI)
  with None show ?thesis
    by (simp add: upsert_row_def find_row_append find_row_Cons)
next
  case (Some old)
  then have "\<exists>r \<in> set rows. key r = key new"
    by (auto dest: find_row_key find_row_in)
  moreover from Some have "key old = key new" by (rule find_row_key)
  ultimately show ?thesis using Some
    by (simp add: upsert_row_def find_upsert_map)
qed

lemma find_upsert_other:
  assumes "k \<noteq> key new"
  shows "find_row key k (upsert_row key merge new rows) = find_row key k rows"
proof (cases "\<exists>r \<in> set rows. key r = key new")
  case True
  have "(if key r = key new then merge r new else r) = r"
    if "find_row key k rows = Some r" for r
    using that assms by (auto dest: find_row_key)
  with True show ?thesis
    by (cases "find_row key k rows") (simp_all add: upsert_row_def find_upsert_map)
next
  case False
  with assms show ?thesis
    by (auto simp: upsert_row_def find_row_append find_row_Cons split: option.splits)
qed

lemma upsert_mem:
  assumes "r \<in> set (upsert_row key merge new rows)"
  shows "r = new \<or> (\<exists>old \<in> set rows. key old = key new \<and> r = merge old new)
         \<or> (r \<in> set rows \<and> key r \<noteq> key new)"
  using assms by (auto simp: upsert_row_def split: if_splits)

lemma upsert_list_all:
  assumes "list_all P rows" and "P new" and "\<And>old. P old \<Longrightarrow> key old = key new \<Longrightarrow> P (merge old new)"
  shows "list_all P (upsert_row key merge new rows)"
  using assms by (auto simp: list_all_iff dest!: upsert_mem)

end

end
