(* ===== verification/Rust_Strings.thy ===== *)
theory Rust_Strings
  imports Syncer_Prelude "HOL-Library.Char_ord" "HOL-Library.List_Lexorder"
begin

text \<open>
  What the program uses of Rust's standard library on text. A \<open>String\<close> is its UTF-8 byte
  sequence, a list of 8-bit \<open>char\<close>s, so that \<open>bytes()\<close> is the list itself, ordering is
  bytewise as in \<open>BTreeMap<String, _>\<close> and SQLite's \<open>BINARY\<close> collation, and \<open>chars()\<close>
  is the split into encoded scalar values. Paths follow \<open>std::path\<close> on Unix (camino's
  \<open>Utf8Path\<close> is a view of it): components, \<open>push\<close>, \<open>join\<close> and equality by
  components.
\<close>

section \<open>UTF-8 text\<close>

definition byte_of :: "char \<Rightarrow> nat" where
  "byte_of c = of_char c"

definition is_continuation :: "char \<Rightarrow> bool" where
  "is_continuation c \<longleftrightarrow> 128 \<le> byte_of c \<and> byte_of c < 192"

definition to_ascii_lowercase :: "string \<Rightarrow> string" where
  "to_ascii_lowercase s =
     map (\<lambda>c. if 65 \<le> byte_of c \<and> byte_of c \<le> 90 then char_of (byte_of c + 32) else c) s"

text \<open>\<open>str::chars\<close>, each scalar value kept as its encoding.\<close>

function utf8_chars :: "string \<Rightarrow> string list" where
  "utf8_chars [] = []"
| "utf8_chars (c # cs) =
     (c # takeWhile is_continuation cs) # utf8_chars (dropWhile is_continuation cs)"
  by pat_completeness auto
termination
  by (relation "measure length") (auto simp: less_Suc_eq_le length_dropWhile_le)

text \<open>\<open>char::is_whitespace\<close>: the Unicode \<open>White_Space\<close> scalar values, encoded.\<close>

definition is_whitespace :: "string \<Rightarrow> bool" where
  "is_whitespace ch \<longleftrightarrow>
     map byte_of ch \<in> set ([[9], [10], [11], [12], [13], [32], [194, 133], [194, 160],
       [225, 154, 128], [226, 128, 168], [226, 128, 169], [226, 128, 175],
       [226, 129, 159], [227, 128, 128]] @ map (\<lambda>b. [226, 128, b]) [128..<139])"

text \<open>\<open>char::is_control\<close>: the general category \<open>Cc\<close>.\<close>

definition is_control :: "string \<Rightarrow> bool" where
  "is_control ch \<longleftrightarrow>
     (case map byte_of ch of
        [b] \<Rightarrow> b < 32 \<or> b = 127
      | [b, d] \<Rightarrow> b = 194 \<and> 128 \<le> d \<and> d < 160
      | _ \<Rightarrow> False)"

definition trim_start :: "string \<Rightarrow> string" where
  "trim_start s = concat (dropWhile is_whitespace (utf8_chars s))"

definition trim_end :: "string \<Rightarrow> string" where
  "trim_end s = concat (rev (dropWhile is_whitespace (rev (utf8_chars s))))"

definition trim :: "string \<Rightarrow> string" where
  "trim s = trim_end (trim_start s)"

text \<open>\<open>String::from_utf8\<close> accepts exactly the well-formed byte sequences.\<close>

fun utf8_wf :: "nat list \<Rightarrow> bool" where
  "utf8_wf [] = True"
| "utf8_wf (b # bs) =
    (if b < 128 then utf8_wf bs
     else (case bs of
        [] \<Rightarrow> False
      | c # cs \<Rightarrow>
        if 194 \<le> b \<and> b < 224 then 128 \<le> c \<and> c < 192 \<and> utf8_wf cs
        else (case cs of
          [] \<Rightarrow> False
        | d # ds \<Rightarrow>
          if 224 \<le> b \<and> b < 240
          then (if b = 224 then 160 else 128) \<le> c \<and> c < (if b = 237 then 160 else 192)
               \<and> 128 \<le> d \<and> d < 192 \<and> utf8_wf ds
          else (case ds of
            [] \<Rightarrow> False
          | e # es \<Rightarrow>
            240 \<le> b \<and> b < 245
            \<and> (if b = 240 then 144 else 128) \<le> c \<and> c < (if b = 244 then 144 else 192)
            \<and> 128 \<le> d \<and> d < 192 \<and> 128 \<le> e \<and> e < 192 \<and> utf8_wf es))))"

definition from_utf8 :: "string \<Rightarrow> string option" where
  "from_utf8 bytes = (if utf8_wf (map byte_of bytes) then Some bytes else None)"

lemma concat_utf8_chars [simp]: "concat (utf8_chars s) = s"
  by (induction s rule: utf8_chars.induct) simp_all

lemma utf8_chars_nonempty: "ch \<in> set (utf8_chars s) \<Longrightarrow> ch \<noteq> []"
  by (induction s rule: utf8_chars.induct) auto

lemma utf8_chars_ascii:
  "list_all (\<lambda>c. \<not> is_continuation c) s \<Longrightarrow> utf8_chars s = map (\<lambda>c. [c]) s"
proof (induction s)
  case Nil
  then show ?case by simp
next
  case (Cons c s)
  then show ?case by (cases s) auto
qed

lemma trim_eq_self:
  assumes "s \<noteq> []" and "\<not> is_whitespace (hd (utf8_chars s))"
    and "\<not> is_whitespace (last (utf8_chars s))"
  shows "trim s = s"
proof -
  from assms(1) have ne: "utf8_chars s \<noteq> []" by (cases s) auto
  with assms(2) have "dropWhile is_whitespace (utf8_chars s) = utf8_chars s"
    by (cases "utf8_chars s") auto
  then have 1: "trim_start s = s" by (simp add: trim_start_def)
  from ne assms(3) have "dropWhile is_whitespace (rev (utf8_chars s)) = rev (utf8_chars s)"
    by (cases "rev (utf8_chars s)") (auto simp: last_rev hd_rev [symmetric])
  then have "trim_end s = s" by (simp add: trim_end_def)
  with 1 show ?thesis by (simp add: trim_def)
qed

section \<open>Splitting and joining\<close>

text \<open>\<open>str::split(c)\<close>: always at least one piece.\<close>

fun split_on :: "'a \<Rightarrow> 'a list \<Rightarrow> 'a list list" where
  "split_on c [] = [[]]"
| "split_on c (x # xs) =
     (if x = c then [] # split_on c xs
      else (case split_on c xs of [] \<Rightarrow> [[x]] | p # ps \<Rightarrow> (x # p) # ps))"

text \<open>\<open>str::split_once(c)\<close>.\<close>

fun split_once :: "'a \<Rightarrow> 'a list \<Rightarrow> ('a list \<times> 'a list) option" where
  "split_once c [] = None"
| "split_once c (x # xs) =
     (if x = c then Some ([], xs) else map_option (\<lambda>(a, b). (x # a, b)) (split_once c xs))"

fun join_with :: "'a \<Rightarrow> 'a list list \<Rightarrow> 'a list" where
  "join_with c [] = []"
| "join_with c [p] = p"
| "join_with c (p # q # ps) = p @ c # join_with c (q # ps)"

definition starts_with :: "'a list \<Rightarrow> 'a list \<Rightarrow> bool" where
  "starts_with p s \<longleftrightarrow> take (length p) s = p"

definition strip_prefix :: "'a list \<Rightarrow> 'a list \<Rightarrow> 'a list option" where
  "strip_prefix p s = (if starts_with p s then Some (drop (length p) s) else None)"

lemma split_on_nonempty [simp]: "split_on c s \<noteq> []"
  by (induction s) (auto split: list.splits)

lemma join_split [simp]: "join_with c (split_on c s) = s"
proof (induction s)
  case Nil
  then show ?case by simp
next
  case (Cons x xs)
  then show ?case
    by (cases "split_on c xs" rule: list.exhaust; cases "tl (split_on c xs)") auto
qed

lemma split_on_no_sep: "p \<in> set (split_on c s) \<Longrightarrow> c \<notin> set p"
proof (induction s arbitrary: p)
  case Nil
  then show ?case by simp
next
  case (Cons x xs)
  then show ?case by (cases "split_on c xs") (auto split: if_splits)
qed

lemma split_on_single: "c \<notin> set p \<Longrightarrow> split_on c p = [p]"
  by (induction p) auto

lemma split_on_append_sep:
  "c \<notin> set p \<Longrightarrow> split_on c (p @ c # s) = p # split_on c s"
  by (induction p) auto

lemma split_join:
  "ps \<noteq> [] \<Longrightarrow> \<forall>p \<in> set ps. c \<notin> set p \<Longrightarrow> split_on c (join_with c ps) = ps"
  by (induction c ps rule: join_with.induct) (auto simp: split_on_single split_on_append_sep)

lemma join_with_Nil_iff: "join_with c ps = [] \<longleftrightarrow> ps = [] \<or> ps = [[]]"
  by (induction c ps rule: join_with.induct) auto

lemma join_with_snoc:
  "ps \<noteq> [] \<Longrightarrow> join_with c (ps @ [p]) = join_with c ps @ c # p"
  by (induction c ps rule: join_with.induct) auto

lemma join_with_Cons:
  "ps \<noteq> [] \<Longrightarrow> join_with c (p # ps) = p @ c # join_with c ps"
  by (cases ps) auto

lemma starts_with_append [simp]: "starts_with p (p @ s)"
  by (simp add: starts_with_def)

lemma strip_prefix_append [simp]: "strip_prefix p (p @ s) = Some s"
  by (simp add: strip_prefix_def)

lemma strip_prefix_Some_iff: "strip_prefix p s = Some t \<longleftrightarrow> s = p @ t"
proof
  assume "strip_prefix p s = Some t"
  then have "take (length p) s = p" and "t = drop (length p) s"
    by (auto simp: strip_prefix_def starts_with_def split: if_splits)
  then show "s = p @ t" by (metis append_take_drop_id)
qed simp

section \<open>Numbers as text\<close>

text \<open>The \<open>Display\<close> of unsigned and signed integers.\<close>

fun show_nat :: "nat \<Rightarrow> string" where
  "show_nat n = (if n < 10 then [char_of (48 + n)] else show_nat (n div 10) @ [char_of (48 + n mod 10)])"

declare show_nat.simps [simp del]

definition show_int :: "int \<Rightarrow> string" where
  "show_int n = (if n < 0 then CHR ''-'' # show_nat (nat (- n)) else show_nat (nat n))"

definition is_digit :: "char \<Rightarrow> bool" where
  "is_digit c \<longleftrightarrow> 48 \<le> byte_of c \<and> byte_of c \<le> 57"

definition digits_value :: "string \<Rightarrow> nat" where
  "digits_value s = foldl (\<lambda>n c. 10 * n + (byte_of c - 48)) 0 s"

lemma digits_value_show: "digits_value (show_nat n) = n"
proof (induction n rule: show_nat.induct)
  case (1 n)
  show ?case
  proof (cases "n < 10")
    case True
    then show ?thesis by (subst show_nat.simps) (simp add: digits_value_def byte_of_def)
  next
    case False
    have "byte_of (char_of (48 + n mod 10)) = 48 + n mod 10" by (simp add: byte_of_def)
    with False 1 show ?thesis
      by (subst show_nat.simps) (simp add: digits_value_def)
  qed
qed

lemma is_digit_char_of: "n < 10 \<Longrightarrow> is_digit (char_of (48 + n :: nat))"
  by (simp add: is_digit_def byte_of_def)

lemma show_nat_digits: "list_all is_digit (show_nat n)"
proof (induction n rule: show_nat.induct)
  case (1 n)
  then show ?case
    by (subst show_nat.simps) (auto intro: is_digit_char_of)
qed

lemma show_nat_nonempty: "show_nat n \<noteq> []"
  by (subst show_nat.simps) simp

lemma show_nat_inj: "show_nat m = show_nat n \<longleftrightarrow> m = n"
  by (metis digits_value_show)

lemma show_int_inj: "show_int m = show_int n \<longleftrightarrow> m = n"
proof -
  have minus: "CHR ''-'' \<notin> set (show_nat k)" for k
    using show_nat_digits [of k] by (auto simp: list_all_iff is_digit_def byte_of_def)
  have "hd (show_nat k) \<in> set (show_nat k)" for k by (simp add: show_nat_nonempty)
  with minus have "show_nat k \<noteq> CHR ''-'' # s" for k s by (metis list.set_intros(1))
  then show ?thesis by (auto simp: show_int_def show_nat_inj) (metis \<open>\<And>s k. show_nat k \<noteq> CHR ''-'' # s\<close>)+
qed

section \<open>Paths\<close>

datatype path_component = RootDir | CurDir | ParentDir | NormalPart string

definition is_absolute :: "string \<Rightarrow> bool" where
  "is_absolute p = (case p of [] \<Rightarrow> False | c # _ \<Rightarrow> c = CHR ''/'')"

definition classify_part :: "string \<Rightarrow> path_component" where
  "classify_part q = (if q = ''..'' then ParentDir else NormalPart q)"

definition normal_pieces :: "string \<Rightarrow> string list" where
  "normal_pieces p = filter (\<lambda>q. q \<noteq> [] \<and> q \<noteq> ''.'') (split_on CHR ''/'' p)"

text \<open>\<open>Path::components\<close>: a dot counts only as the first piece of a relative path.\<close>

definition path_components :: "string \<Rightarrow> path_component list" where
  "path_components p =
     (if is_absolute p then [RootDir]
      else if hd (split_on CHR ''/'' p) = ''.'' then [CurDir] else [])
     @ map classify_part (normal_pieces p)"

fun component_str :: "path_component \<Rightarrow> string" where
  "component_str RootDir = ''/''"
| "component_str CurDir = ''.''"
| "component_str ParentDir = ''..''"
| "component_str (NormalPart q) = q"

text \<open>\<open>PathBuf::push\<close> and \<open>Path::join\<close>.\<close>

definition path_push :: "string \<Rightarrow> string \<Rightarrow> string" where
  "path_push buf part =
     (if is_absolute part then part
      else if buf = [] \<or> last buf = CHR ''/'' then buf @ part
      else buf @ CHR ''/'' # part)"

text \<open>\<open>PartialEq\<close> on paths compares components.\<close>

definition path_eq :: "string \<Rightarrow> string \<Rightarrow> bool" where
  "path_eq p q \<longleftrightarrow> path_components p = path_components q"

text \<open>
  \<open>Path::strip_prefix\<close> compares components; what is left of a path without repeated
  separators is its remaining components joined again.
\<close>

definition path_strip_prefix :: "string \<Rightarrow> string \<Rightarrow> string option" where
  "path_strip_prefix root p =
     map_option (\<lambda>cs. join_with CHR ''/'' (map component_str cs))
       (strip_prefix (path_components root) (path_components p))"

text \<open>
  A list of names a normalised relative path is made of: none is empty, a dot or a double
  dot, none contains a separator.
\<close>

definition plain_name :: "string \<Rightarrow> bool" where
  "plain_name q \<longleftrightarrow> q \<noteq> [] \<and> q \<noteq> ''.'' \<and> q \<noteq> ''..'' \<and> CHR ''/'' \<notin> set q"

definition plain_names :: "string list \<Rightarrow> bool" where
  "plain_names ps \<longleftrightarrow> ps \<noteq> [] \<and> list_all plain_name ps"

lemma plain_names_Cons:
  "plain_names (p # ps) \<longleftrightarrow> plain_name p \<and> (ps = [] \<or> plain_names ps)"
  by (auto simp: plain_names_def)

lemma normal_pieces_join:
  assumes "plain_names ps"
  shows "normal_pieces (join_with CHR ''/'' ps) = ps"
proof -
  from assms have "split_on CHR ''/'' (join_with CHR ''/'' ps) = ps"
    by (intro split_join) (auto simp: plain_names_def plain_name_def list_all_iff)
  with assms show ?thesis
    by (simp add: normal_pieces_def plain_names_def plain_name_def list_all_iff)
qed

lemma plain_names_join_hd:
  assumes "plain_names ps"
  shows "\<exists>c cs. join_with CHR ''/'' ps = c # cs \<and> c \<noteq> CHR ''/''"
proof -
  from assms obtain p ps' where ps: "ps = p # ps'" by (cases ps) (auto simp: plain_names_def)
  with assms obtain c cs where "p = c # cs" "c \<noteq> CHR ''/''"
    by (cases p) (auto simp: plain_names_def plain_name_def)
  with ps show ?thesis by (cases ps') auto
qed

lemma path_components_join:
  assumes "plain_names ps"
  shows "path_components (join_with CHR ''/'' ps) = map NormalPart ps"
proof -
  from plain_names_join_hd [OF assms]
  have na: "\<not> is_absolute (join_with CHR ''/'' ps)" by (auto simp: is_absolute_def)
  from assms have sp: "split_on CHR ''/'' (join_with CHR ''/'' ps) = ps"
    by (intro split_join) (auto simp: plain_names_def plain_name_def list_all_iff)
  from assms have "hd ps \<noteq> ''.''" by (cases ps) (auto simp: plain_names_def plain_name_def)
  moreover from assms have "map classify_part ps = map NormalPart ps"
    by (auto simp: plain_names_def plain_name_def list_all_iff classify_part_def)
  ultimately show ?thesis
    using na sp normal_pieces_join [OF assms] by (simp add: path_components_def)
qed

lemma path_push_join:
  assumes "plain_names ps" and "plain_name q"
  shows "path_push (join_with CHR ''/'' ps) q = join_with CHR ''/'' (ps @ [q])"
proof -
  from assms(2) have nq: "\<not> is_absolute q"
    by (cases q) (auto simp: plain_name_def is_absolute_def)
  from assms(1) have ne: "ps \<noteq> []" by (simp add: plain_names_def)
  have jne: "join_with CHR ''/'' ps \<noteq> []"
    using plain_names_join_hd [OF assms(1)] by auto
  have "last (join_with CHR ''/'' ps) \<noteq> CHR ''/''"
  proof -
    from ne obtain rs r where rs: "ps = rs @ [r]" by (cases ps rule: rev_cases) auto
    with assms(1) have "r \<noteq> []" "CHR ''/'' \<notin> set r"
      by (auto simp: plain_names_def plain_name_def)
    then have "last r \<noteq> CHR ''/''" by (metis last_in_set)
    with rs \<open>r \<noteq> []\<close> show ?thesis
      by (cases "rs = []") (auto simp: join_with_snoc)
  qed
  with nq jne ne show ?thesis by (simp add: path_push_def join_with_snoc)
qed

lemma path_push_Nil: "plain_name q \<Longrightarrow> path_push [] q = q"
  by (cases q) (auto simp: path_push_def is_absolute_def plain_name_def)

lemma normal_pieces_plain:
  "q \<in> set (normal_pieces p) \<Longrightarrow> q \<noteq> ''..'' \<Longrightarrow> plain_name q"
  by (auto simp: normal_pieces_def plain_name_def dest: split_on_no_sep)

lemma path_eq_refl [simp]: "path_eq p p"
  by (simp add: path_eq_def)

lemma path_eq_sym: "path_eq p q \<longleftrightarrow> path_eq q p"
  by (auto simp: path_eq_def)

lemma path_eq_plain:
  assumes "plain_names ps" and "plain_names qs"
  shows "path_eq (join_with CHR ''/'' ps) (join_with CHR ''/'' qs) \<longleftrightarrow> ps = qs"
proof -
  have "inj NormalPart" by (simp add: inj_def)
  then show ?thesis
    using assms by (auto simp: path_eq_def path_components_join inj_map_eq_map)
qed

end
