(* ===== verification/Core_Types.thy ===== *)
theory Core_Types
  imports Rust_Strings
begin

text \<open>
  The vocabulary of \<open>syncer-core\<close>: \<open>error.rs\<close>, \<open>ids.rs\<close>, the device name and the
  plain enums of \<open>model.rs\<close>, and \<open>security.rs\<close>. Identifiers are their canonical text
  (a UUID is equal to another exactly if its hyphenated text is), instants are points on
  the integers, and the third-party functions the code calls are the fields of a record
  that every definition that needs one takes as an argument.
\<close>

section \<open>Errors\<close>

datatype core_error =
    InvalidDeviceName
  | EmptyRelativePath
  | AbsoluteRelativePath
  | TraversalRelativePath
  | SyncerMetadataPath
  | InvalidFolderLimit
  | InvalidWarningThreshold
  | InvalidPublicKeyLength
  | ExpiredPairingTicket
  | UnsupportedFolderSchema u16
  | NativeStorageRootRequired
  | Filesystem string string
  | Json string
  | StateDatabaseError string
  | FileSizeOverflow

type_synonym 'a core_result = "core_error + 'a"

section \<open>Third-party functions\<close>

type_synonym datetime = int

text \<open>
  The functions of the crates \<open>time\<close>, \<open>blake3\<close> and \<open>serde_json\<close> that the core calls:
  \<open>OffsetDateTime::unix_timestamp\<close>, \<open>OffsetDateTime::from_unix_timestamp\<close> (with the
  text of its error), \<open>blake3::hash(..).to_hex()\<close>, and \<open>serde_json::to_string\<close> on a
  list of block hashes.
\<close>

record externals =
  unix_timestamp :: "datetime \<Rightarrow> int"
  from_unix_timestamp :: "int \<Rightarrow> string + datetime"
  blake3_hex :: "string \<Rightarrow> string"
  block_hashes_json :: "string list \<Rightarrow> string + string"

text \<open>
  What \<open>time\<close> documents: every instant has a timestamp in the range of \<open>i64\<close>, and the
  timestamp of an instant is accepted back.
\<close>

definition time_laws :: "('a) externals_scheme \<Rightarrow> bool" where
  "time_laws x \<longleftrightarrow>
     (\<forall>d. i64_range (unix_timestamp x d)
        \<and> (\<exists>d'. from_unix_timestamp x (unix_timestamp x d) = Inr d'
              \<and> unix_timestamp x d' = unix_timestamp x d))"

section \<open>Identifiers\<close>

datatype device_id = DeviceId (device_id_text: string)
datatype folder_id = FolderId (folder_id_text: string)
datatype operation_id = OperationId (operation_id_text: string)

section \<open>Names, modes and policies\<close>

datatype device_name = DeviceName (device_name_str: string)

definition device_name_parse :: "string \<Rightarrow> device_name core_result" where
  "device_name_parse value0 =
     (let value = trim value0;
          valid = (value \<noteq> [] \<and> length (utf8_chars value) \<le> 64
                   \<and> list_all (\<lambda>ch. \<not> is_control ch) (utf8_chars value))
      in if valid then Inr (DeviceName value) else Inl InvalidDeviceName)"

datatype folder_mode = Bidirectional | UploadOnly | DownloadOnly

definition default_folder_mode :: folder_mode where
  "default_folder_mode = Bidirectional"

datatype delete_scope = LocalOnly | PropagateToPeers

record retention_policy =
  max_versions_per_file :: u16
  max_age_days :: u16

definition default_retention :: retention_policy where
  "default_retention = \<lparr>max_versions_per_file = 5, max_age_days = 30\<rparr>"

record peer_endpoint =
  pe_host :: string
  pe_port :: u16

section \<open>Keys and pairing tickets\<close>

datatype public_key = PublicKeyBytes (key_bytes: "u8 list")

definition public_key_from_slice :: "u8 list \<Rightarrow> public_key core_result" where
  "public_key_from_slice bytes =
     (if length bytes = 32 then Inr (PublicKeyBytes bytes) else Inl InvalidPublicKeyLength)"

record pairing_ticket =
  tk_device_id :: device_id
  tk_device_name :: device_name
  tk_temporary_public_key :: public_key
  tk_endpoint :: string
  tk_expires_at :: datetime

definition pairing_ticket_new ::
  "device_id \<Rightarrow> device_name \<Rightarrow> public_key \<Rightarrow> string \<Rightarrow> datetime \<Rightarrow> datetime
     \<Rightarrow> pairing_ticket core_result" where
  "pairing_ticket_new did name pk endpoint expires_at now =
     (if expires_at \<le> now then Inl ExpiredPairingTicket
      else Inr \<lparr>tk_device_id = did, tk_device_name = name, tk_temporary_public_key = pk,
                tk_endpoint = endpoint, tk_expires_at = expires_at\<rparr>)"

definition pairing_ticket_is_expired :: "pairing_ticket \<Rightarrow> datetime \<Rightarrow> bool" where
  "pairing_ticket_is_expired t now \<longleftrightarrow> tk_expires_at t \<le> now"

record peer_presence =
  pp_device_id :: device_id
  pp_sent_at :: datetime
  pp_agent_version :: string

record folder_peer =
  fp_device_id :: device_id
  fp_device_name :: device_name
  fp_public_key :: public_key
  fp_endpoint :: "peer_endpoint option"

datatype storage_root = NativePath string | AndroidTreeUri string

subsection \<open>Facts about names and tickets\<close>

lemma concat_drop_while_end:
  "\<exists>ys. xs = rev (dropWhile p (rev xs)) @ ys"
  by (metis rev_append rev_rev_ident takeWhile_dropWhile_id)

text \<open>An accepted name is non-empty, has at most 64 characters and none is a control one.\<close>

lemma device_name_parse_Inr_iff:
  "device_name_parse s = Inr n \<longleftrightarrow>
     n = DeviceName (trim s) \<and> trim s \<noteq> [] \<and> length (utf8_chars (trim s)) \<le> 64
     \<and> (\<forall>ch \<in> set (utf8_chars (trim s)). \<not> is_control ch)"
  by (auto simp: device_name_parse_def Let_def list_all_iff)

lemma public_key_from_slice_Inr_iff:
  "public_key_from_slice bs = Inr k \<longleftrightarrow> length bs = 32 \<and> k = PublicKeyBytes bs"
  by (auto simp: public_key_from_slice_def)

text \<open>A ticket that was issued is live until its expiry instant and expired from it on.\<close>

lemma pairing_ticket_lifetime:
  assumes "pairing_ticket_new did name pk ep expires now = Inr t"
  shows "pairing_ticket_is_expired t later \<longleftrightarrow> expires \<le> later"
    and "\<not> pairing_ticket_is_expired t now"
  using assms
  by (auto simp: pairing_ticket_new_def pairing_ticket_is_expired_def split: if_splits)

section \<open>An instance of the third-party functions\<close>

text \<open>
  Used by the examples of the development only: instants are their own timestamps inside
  the range of \<open>i64\<close>, and a content is its own fingerprint.
\<close>

definition sample_externals :: externals where
  "sample_externals =
     \<lparr>unix_timestamp = (\<lambda>d. if i64_range d then d else 0), from_unix_timestamp = Inr,
      blake3_hex = (\<lambda>bytes. bytes), block_hashes_json = (\<lambda>_. Inr ''[]'')\<rparr>"

lemma sample_time_laws: "time_laws sample_externals"
  by (auto simp: time_laws_def sample_externals_def i64_range_def)

end
