(* ===== verification/Disk_Documents.thy ===== *)
theory Disk_Documents
  imports Core_Types
begin

text \<open>
  Small documents on disk: the file system as far as the folder store and the agent's
  stores use it, with a fault for every call that can fail, and the contract of a document
  that is replaced through a temporary file. The stores interpret the contract on their own
  read and write operations.
\<close>

section \<open>Files and faults\<close>

record disk =
  dk_files :: "string \<Rightarrow> string option"

text \<open>
  What goes wrong in a call, by path: the message of the error, and for a write also what
  the file contains afterwards.
\<close>

record io_faults =
  create_dir_fault :: "string \<Rightarrow> string option"
  write_fault :: "string \<Rightarrow> (string \<times> string option) option"
  rename_fault :: "string \<Rightarrow> string option"
  read_fault :: "string \<Rightarrow> string option"

type_synonym 'a io_op = "(disk, string, 'a) stateful"

definition no_faults :: io_faults where
  "no_faults = \<lparr>create_dir_fault = \<lambda>_. None, write_fault = \<lambda>_. None, rename_fault = \<lambda>_. None,
     read_fault = \<lambda>_. None\<rparr>"

definition set_file :: "string \<Rightarrow> string option \<Rightarrow> disk \<Rightarrow> disk" where
  "set_file path content d = d\<lparr>dk_files := (dk_files d)(path := content)\<rparr>"

text \<open>\<open>create_dir_all\<close>, \<open>write\<close>, \<open>rename\<close> and \<open>read\<close> of \<open>std::fs\<close>.\<close>

definition fs_create_dir_all :: "io_faults \<Rightarrow> string \<Rightarrow> unit io_op" where
  "fs_create_dir_all f path =
     lift_result (case create_dir_fault f path of None \<Rightarrow> Inr () | Some msg \<Rightarrow> Inl msg)"

definition fs_write :: "io_faults \<Rightarrow> string \<Rightarrow> string \<Rightarrow> unit io_op" where
  "fs_write f path bytes d =
     (case write_fault f path of
        None \<Rightarrow> (Inr (), set_file path (Some bytes) d)
      | Some (msg, rest) \<Rightarrow> (Inl msg, set_file path rest d))"

definition fs_rename :: "io_faults \<Rightarrow> string \<Rightarrow> string \<Rightarrow> unit io_op" where
  "fs_rename f source target d =
     (case rename_fault f target of
        Some msg \<Rightarrow> (Inl msg, d)
      | None \<Rightarrow>
          (case dk_files d source of
             None \<Rightarrow> (Inl ''No such file or directory (os error 2)'', d)
           | Some bytes \<Rightarrow> (Inr (), set_file target (Some bytes) (set_file source None d))))"

definition fs_read :: "io_faults \<Rightarrow> string \<Rightarrow> disk \<Rightarrow> string + string" where
  "fs_read f path d =
     (case read_fault f path of
        Some msg \<Rightarrow> Inl msg
      | None \<Rightarrow> ok_or ''No such file or directory (os error 2)'' (dk_files d path))"

text \<open>
  \<open>try_exists\<close> and \<open>remove_file\<close>: what besides regular files exists at a path, or the error
  of asking, and the error of removing are arguments.
\<close>

definition try_exists :: "(string \<Rightarrow> string + bool) \<Rightarrow> string \<Rightarrow> disk \<Rightarrow> string + bool" where
  "try_exists other_exists path d =
     and_then (other_exists path) (\<lambda>other. Inr (other \<or> dk_files d path \<noteq> None))"

definition fs_remove_file :: "(string \<Rightarrow> string option) \<Rightarrow> string \<Rightarrow> unit io_op" where
  "fs_remove_file remove_fault path d =
     (case remove_fault path of
        Some msg \<Rightarrow> (Inl msg, d)
      | None \<Rightarrow>
          if dk_files d path = None then (Inl ''No such file or directory (os error 2)'', d)
          else (Inr (), set_file path None d))"

definition map_op_err :: "('e \<Rightarrow> 'f) \<Rightarrow> ('s, 'e, 'a) stateful \<Rightarrow> ('s, 'f, 'a) stateful" where
  "map_op_err g m = (\<lambda>s. case m s of (r, s') \<Rightarrow> (map_err g r, s'))"

lemma map_op_err_Inr: "map_op_err g m s = (Inr a, s') \<longleftrightarrow> m s = (Inr a, s')"
  by (auto simp: map_op_err_def split: prod.splits)

lemma map_op_err_within: "within le m \<Longrightarrow> within le (map_op_err g m)"
  by (auto simp: within_def map_op_err_def split_beta)

text \<open>
  \<open>serde_json\<close> on a document type: what it writes it reads back, and reading may fail with
  a message.
\<close>

record 'd json_codec =
  to_vec_pretty :: "'d \<Rightarrow> string + string"
  from_slice :: "string \<Rightarrow> string + 'd"

definition json_laws :: "'d json_codec \<Rightarrow> bool" where
  "json_laws j \<longleftrightarrow> (\<forall>d bytes. to_vec_pretty j d = Inr bytes \<longrightarrow> from_slice j bytes = Inr d)"

lemma set_file_simps [simp]:
  "dk_files (set_file p c d) q = (if q = p then c else dk_files d q)"
  by (simp add: set_file_def)

lemma fs_create_dir_all_state [simp]: "snd (fs_create_dir_all f path d) = d"
  by (simp add: fs_create_dir_all_def)

text \<open>Replacing a file through a temporary one: all or nothing, seen from the target.\<close>

lemma replace_through_temporary:
  assumes "tmp \<noteq> target"
    and "bind_op (map_op_err g (fs_write f tmp bytes)) (\<lambda>_. map_op_err h (fs_rename f tmp target)) d = (r, d')"
  shows "dk_files d' target = (if is_ok r then Some bytes else dk_files d target)"
    and "path \<noteq> tmp \<Longrightarrow> path \<noteq> target \<Longrightarrow> dk_files d' path = dk_files d path"
  using assms
  by (auto simp: bind_op_def map_op_err_def fs_write_def fs_rename_def
      split: option.splits prod.splits if_splits)

section \<open>The contract of a document store\<close>

text \<open>Writes in sequence; a failed one does not stop the next. The successful ones are kept.\<close>

fun run_writes :: "('d \<Rightarrow> ('s, 'e, unit) stateful) \<Rightarrow> 'd list \<Rightarrow> 's \<Rightarrow> 'd list \<times> 's" where
  "run_writes w [] s = ([], s)"
| "run_writes w (d # ds) s =
     (case w d s of (r, s') \<Rightarrow>
       (case run_writes w ds s' of (written, s'') \<Rightarrow> (if is_ok r then d # written else written, s'')))"

text \<open>
  A store keeps one document in one file. Writing succeeds with the document in place, or
  fails with the file as it was; reading depends on the file alone and finds what was
  written, provided the disk is healthy for reading and the codec reads what it writes. The
  client's conclusion: after any sequence of writes the store holds the last
  document whose write succeeded.
\<close>

locale document_store =
  fixes write_doc :: "'d \<Rightarrow> (disk, 'e, unit) stateful"
    and read_doc :: "disk \<Rightarrow> 'e + 'd"
    and target :: string
    and healthy :: bool
  assumes write_success: "healthy \<Longrightarrow> write_doc d s = (Inr (), s') \<Longrightarrow> read_doc s' = Inr d"
    and write_failure: "healthy \<Longrightarrow> write_doc d s = (Inl e, s') \<Longrightarrow> dk_files s' target = dk_files s target"
    and read_frame: "dk_files s target = dk_files s' target \<Longrightarrow> read_doc s = read_doc s'"
begin

lemma read_after_failed_write: "healthy \<Longrightarrow> write_doc d s = (Inl e, s') \<Longrightarrow> read_doc s' = read_doc s"
  by (rule read_frame) (rule write_failure)

lemma read_after_write:
  assumes healthy
  shows "read_doc (snd (write_doc d s)) = (if is_ok (fst (write_doc d s)) then Inr d else read_doc s)"
proof (cases "write_doc d s")
  case (Pair r s')
  with assms show ?thesis
    by (cases r) (auto dest: write_success read_after_failed_write)
qed

lemma read_after_writes:
  assumes healthy
  shows "run_writes write_doc ds s = (written, s') \<Longrightarrow>
     read_doc s' = (if written = [] then read_doc s else Inr (last written))"
proof (induction ds arbitrary: s written)
  case Nil
  then show ?case by simp
next
  case (Cons d ds)
  obtain r s1 where w: "write_doc d s = (r, s1)" by fastforce
  obtain rest where rest: "run_writes write_doc ds s1 = (rest, s')"
    "written = (if is_ok r then d # rest else rest)"
    using Cons.prems w by (auto split: prod.splits)
  from Cons.IH [OF rest(1)] rest(2) read_after_write [OF assms, of d s] w show ?case
    by (cases rest) (auto split: if_splits)
qed

end

end
