(* ===== verification/Relative_Paths.thy ===== *)
theory Relative_Paths
  imports Core_Types
begin

text \<open>
  \<open>manifest.rs\<close>: relative paths of user files and the manifest's file entries. The parser
  is the only door through which a local path enters the state database, and the lemmas
  here show what it lets through: a path made of plain names, below the folder's root and
  outside \<open>.syncer\<close>.
\<close>

section \<open>Data\<close>

datatype relative_path = RelativePath (path_str: string)

datatype content_hash = ContentHash (hash_hex: string)
datatype block_hash = BlockHash (block_hex: string)

definition content_hash_from_bytes :: "'a externals_scheme \<Rightarrow> string \<Rightarrow> content_hash" where
  "content_hash_from_bytes x bytes = ContentHash (blake3_hex x bytes)"

datatype file_kind = FileK | DirectoryK

record file_version =
  fv_generation :: u64
  fv_device_id :: device_id

record file_entry =
  fe_path :: relative_path
  fe_kind :: file_kind
  fe_size_bytes :: u64
  fe_modified_at :: datetime
  fe_content_hash :: "content_hash option"
  fe_block_hashes :: "block_hash list"
  fe_version :: file_version

section \<open>Parsing\<close>

definition syncer_dir_name :: string where
  "syncer_dir_name = ''.syncer''"

text \<open>The loop over the components, pushing the normal ones onto the normalised path.\<close>

fun normalize_components :: "path_component list \<Rightarrow> string \<Rightarrow> string core_result" where
  "normalize_components [] normalized = Inr normalized"
| "normalize_components (NormalPart part # cs) normalized =
     normalize_components cs (path_push normalized part)"
| "normalize_components (CurDir # cs) normalized = normalize_components cs normalized"
| "normalize_components (ParentDir # cs) normalized = Inl TraversalRelativePath"
| "normalize_components (RootDir # cs) normalized = Inl AbsoluteRelativePath"

definition relative_path_parse :: "string \<Rightarrow> relative_path core_result" where
  "relative_path_parse value =
     (let raw = trim value in
      if raw = [] then Inl EmptyRelativePath
      else if is_absolute raw then Inl AbsoluteRelativePath
      else and_then (normalize_components (path_components raw) []) (\<lambda>normalized.
        if normalized = [] then Inl EmptyRelativePath
        else if (case path_components normalized of [] \<Rightarrow> False
                 | c # _ \<Rightarrow> component_str c = syncer_dir_name)
        then Inl SyncerMetadataPath
        else Inr (RelativePath normalized)))"

section \<open>What the parser accepts\<close>

definition safe_names :: "string list \<Rightarrow> bool" where
  "safe_names ps \<longleftrightarrow> plain_names ps \<and> hd ps \<noteq> syncer_dir_name"

definition safe_path :: "relative_path \<Rightarrow> bool" where
  "safe_path p \<longleftrightarrow> safe_names (split_on CHR ''/'' (path_str p))"

lemma safe_path_join:
  assumes "safe_names ps"
  shows "safe_path (RelativePath (join_with CHR ''/'' ps))"
proof -
  have "split_on CHR ''/'' (join_with CHR ''/'' ps) = ps"
    using assms by (intro split_join)
      (auto simp: safe_names_def plain_names_def plain_name_def list_all_iff)
  with assms show ?thesis by (simp add: safe_path_def)
qed

lemma safe_pathE:
  assumes "safe_path p"
  obtains ps where "safe_names ps" and "path_str p = join_with CHR ''/'' ps"
  using assms by (metis safe_path_def join_split)

lemma normalize_components_plain:
  assumes "list_all plain_name qs" and "buf = [] \<and> ps = [] \<or> plain_names ps \<and> buf = join_with CHR ''/'' ps"
  shows "normalize_components (map classify_part qs) buf = Inr (join_with CHR ''/'' (ps @ qs))"
  using assms
proof (induction qs arbitrary: buf ps)
  case Nil
  then show ?case by auto
next
  case (Cons q qs)
  then have q: "plain_name q" and cl: "classify_part q = NormalPart q"
    by (auto simp: plain_name_def classify_part_def)
  have "plain_names (ps @ [q]) \<and> path_push buf q = join_with CHR ''/'' (ps @ [q])"
    using Cons.prems(2) q path_push_join [of ps q] path_push_Nil [OF q]
    by (auto simp: plain_names_def)
  with Cons.IH [of "path_push buf q" "ps @ [q]"] Cons.prems(1) cl show ?case by simp
qed

lemma normalize_components_traversal:
  "''..'' \<in> set qs \<Longrightarrow> normalize_components (map classify_part qs) buf = Inl TraversalRelativePath"
  by (induction qs arbitrary: buf) (auto simp: classify_part_def)

lemma normalize_components_relative:
  assumes "\<not> is_absolute raw"
  shows "normalize_components (path_components raw) [] =
    (if ''..'' \<in> set (normal_pieces raw) then Inl TraversalRelativePath
     else Inr (join_with CHR ''/'' (normal_pieces raw)))"
proof -
  have "normalize_components (path_components raw) []
          = normalize_components (map classify_part (normal_pieces raw)) []"
    using assms by (simp add: path_components_def)
  moreover have "list_all plain_name (normal_pieces raw)"
    if "''..'' \<notin> set (normal_pieces raw)"
    using that by (auto simp: list_all_iff intro: normal_pieces_plain)
  ultimately show ?thesis
    by (auto simp: normalize_components_traversal normalize_components_plain [where ps = "[]"])
qed

text \<open>The parser in one equation: which error, and which normalised path, for every input.\<close>

lemma relative_path_parse_eq:
  "relative_path_parse value =
     (let raw = trim value; ps = normal_pieces raw in
      if raw = [] then Inl EmptyRelativePath
      else if is_absolute raw then Inl AbsoluteRelativePath
      else if ''..'' \<in> set ps then Inl TraversalRelativePath
      else if ps = [] then Inl EmptyRelativePath
      else if hd ps = syncer_dir_name then Inl SyncerMetadataPath
      else Inr (RelativePath (join_with CHR ''/'' ps)))"
proof (cases "''..'' \<in> set (normal_pieces (trim value))")
  case True
  then show ?thesis
    by (simp add: relative_path_parse_def Let_def normalize_components_relative)
next
  case False
  let ?ps = "normal_pieces (trim value)"
  show ?thesis
  proof (cases "?ps = []")
    case True
    with False show ?thesis
      by (simp add: relative_path_parse_def Let_def normalize_components_relative)
  next
    case ne: False
    with False have pl: "plain_names ?ps"
      by (auto simp: plain_names_def list_all_iff intro: normal_pieces_plain)
    from pl ne have "(case path_components (join_with CHR ''/'' ?ps) of [] \<Rightarrow> False
        | c # _ \<Rightarrow> component_str c = syncer_dir_name) \<longleftrightarrow> hd ?ps = syncer_dir_name"
      by (cases ?ps) (simp_all add: path_components_join)
    moreover have "join_with CHR ''/'' ?ps \<noteq> []"
      using plain_names_join_hd [OF pl] by auto
    ultimately show ?thesis using False ne
      by (simp add: relative_path_parse_def Let_def normalize_components_relative)
  qed
qed

lemma relative_path_parse_safe_names:
  assumes "relative_path_parse value = Inr p"
  shows "safe_names (normal_pieces (trim value))"
    and "p = RelativePath (join_with CHR ''/'' (normal_pieces (trim value)))"
  using assms
  by (auto simp: relative_path_parse_eq Let_def safe_names_def plain_names_def list_all_iff
      split: if_splits intro: normal_pieces_plain)

lemma relative_path_parse_safe: "relative_path_parse value = Inr p \<Longrightarrow> safe_path p"
  using relative_path_parse_safe_names safe_path_join by blast

text \<open>A safe path without outer white space is its own normal form.\<close>

lemma relative_path_parse_normal:
  assumes "safe_path p" and "trim (path_str p) = path_str p"
  shows "relative_path_parse (path_str p) = Inr p"
proof -
  from assms(1) obtain ps where ps: "safe_names ps" "path_str p = join_with CHR ''/'' ps"
    by (rule safe_pathE)
  then have pl: "plain_names ps" by (simp add: safe_names_def)
  have "normal_pieces (path_str p) = ps" using ps pl by (simp add: normal_pieces_join)
  moreover have "\<not> is_absolute (path_str p)" and "path_str p \<noteq> []"
    using ps plain_names_join_hd [OF pl] by (auto simp: is_absolute_def)
  moreover have "''..'' \<notin> set ps" "ps \<noteq> []"
    using pl by (auto simp: plain_names_def plain_name_def list_all_iff)
  ultimately show ?thesis
    using assms(2) ps by (cases p) (auto simp: relative_path_parse_eq safe_names_def)
qed

section \<open>Joining to the folder's root\<close>

lemma split_on_append: "split_on c (a @ c # b) = split_on c a @ split_on c b"
proof (induction a)
  case Nil
  then show ?case by simp
next
  case (Cons x a)
  then show ?case
    by (cases "split_on c a") auto
qed

lemma normal_pieces_append_sep:
  "normal_pieces (a @ CHR ''/'' # b) = normal_pieces a @ normal_pieces b"
  by (simp add: normal_pieces_def split_on_append)

lemma is_absolute_append_sep: "is_absolute (a @ CHR ''/'' # b) \<longleftrightarrow> a = [] \<or> is_absolute a"
  by (cases a) (auto simp: is_absolute_def)

lemma hd_split_append_sep: "hd (split_on c (a @ c # b)) = hd (split_on c a)"
  by (simp add: split_on_append)

lemma path_components_append_sep:
  assumes "a \<noteq> []"
  shows "path_components (a @ CHR ''/'' # b) = path_components a @ map classify_part (normal_pieces b)"
  using assms
  by (auto simp: path_components_def is_absolute_append_sep normal_pieces_append_sep
      hd_split_append_sep)

lemma path_components_root_sep:
  "path_components (CHR ''/'' # b) = RootDir # map classify_part (normal_pieces b)"
  by (simp add: path_components_def is_absolute_def normal_pieces_def)

text \<open>Joining a plain path appends its names to the root's components.\<close>

lemma path_components_push:
  assumes "plain_names ps"
  shows "path_components (path_push root (join_with CHR ''/'' ps))
           = path_components root @ map NormalPart ps"
proof -
  let ?p = "join_with CHR ''/'' ps"
  have na: "\<not> is_absolute ?p"
    using plain_names_join_hd [OF assms] by (auto simp: is_absolute_def)
  have np: "map classify_part (normal_pieces ?p) = map NormalPart ps"
    using assms by (auto simp: normal_pieces_join plain_names_def plain_name_def
        list_all_iff classify_part_def)
  consider "root = []" | r where "root = r @ ''/''" | "root \<noteq> []" "last root \<noteq> CHR ''/''"
    by (metis append_butlast_last_id)
  then show ?thesis
  proof cases
    case 1
    then have "path_push root ?p = ?p" using na by (simp add: path_push_def)
    moreover have "path_components root = []"
      using 1 by (simp add: path_components_def is_absolute_def normal_pieces_def)
    ultimately show ?thesis using path_components_join [OF assms] by simp
  next
    case 2
    have "path_push root ?p = r @ CHR ''/'' # ?p"
      using na 2 by (simp add: path_push_def)
    moreover have "normal_pieces [] = []" by (simp add: normal_pieces_def)
    ultimately show ?thesis
      using 2 np path_components_append_sep [of r ?p] path_components_append_sep [of r "[]"]
        path_components_root_sep [of ?p] path_components_root_sep [of "[]"]
      by (cases "r = []") simp_all
  next
    case 3
    then have "path_push root ?p = root @ CHR ''/'' # ?p"
      using na by (simp add: path_push_def)
    with 3 np show ?thesis by (simp add: path_components_append_sep)
  qed
qed

lemma path_components_push_name:
  "plain_name q \<Longrightarrow> path_components (path_push root q) = path_components root @ [NormalPart q]"
  using path_components_push [of "[q]" root] by (simp add: plain_names_def)

lemma plain_syncer_dir: "plain_name syncer_dir_name"
  by (simp add: plain_name_def syncer_dir_name_def)

lemma component_str_Normal: "map (component_str \<circ> NormalPart) ps = ps"
  by (induction ps) simp_all

lemma path_strip_prefix_push:
  assumes "plain_names ps"
  shows "path_strip_prefix root (path_push root (join_with CHR ''/'' ps))
           = Some (join_with CHR ''/'' ps)"
  using assms by (simp add: path_strip_prefix_def path_components_push component_str_Normal)

lemma safe_path_below_root:
  assumes "safe_path p"
  shows "path_strip_prefix root (path_push root (path_str p)) = Some (path_str p)"
  using assms by (metis safe_pathE path_strip_prefix_push safe_names_def)

lemma safe_path_outside_syncer:
  assumes "safe_path p"
  shows "\<not> starts_with (path_components (path_push root syncer_dir_name))
             (path_components (path_push root (path_str p)))"
proof -
  from assms obtain ps where ps: "safe_names ps" "path_str p = join_with CHR ''/'' ps"
    by (rule safe_pathE)
  then obtain q qs where "ps = q # qs" "q \<noteq> syncer_dir_name" "plain_names ps"
    by (cases ps) (auto simp: safe_names_def plain_names_def)
  with ps show ?thesis
    by (simp add: path_components_push path_components_push_name [OF plain_syncer_dir]
        starts_with_def)
qed

section \<open>Properties\<close>



text \<open>
  The parser decides every input: after trimming, an empty path, an absolute one, one
  with a parent component, one without any name and one that starts in \<open>.syncer\<close> are
  refused with their own error, in this order, and every other path is accepted as its
  names joined by single separators.
\<close>

theorem relative_path_parse_decides:
  "relative_path_parse value =
     (let raw = trim value; ps = normal_pieces raw in
      if raw = [] then Inl EmptyRelativePath
      else if is_absolute raw then Inl AbsoluteRelativePath
      else if ''..'' \<in> set ps then Inl TraversalRelativePath
      else if ps = [] then Inl EmptyRelativePath
      else if hd ps = syncer_dir_name then Inl SyncerMetadataPath
      else Inr (RelativePath (join_with CHR ''/'' ps)))"
  by (rule relative_path_parse_eq)

text \<open>
  Parsing is not idempotent: trimming happens before the dot component is dropped, so a
  name with outer white space survives the first parse and not the second.
\<close>

lemma parse_not_idempotent:
  "relative_path_parse ''./ a'' = Inr (RelativePath '' a'')
   \<and> relative_path_parse '' a'' = Inr (RelativePath ''a'')"
  by code_simp

end
