(* ===== verification/Folder_Limits.thy ===== *)
theory Folder_Limits
  imports Relative_Paths "HOL-Library.Sublist"
begin

text \<open>
  \<open>limits.rs\<close>: the folder's size limit and the plan that decides, oldest change first, which
  pending transfers still fit. The accounting is in saturating \<open>u64\<close>; the lemmas show that
  it never saturates inside the plan, so the plan obeys the limit in plain arithmetic.
\<close>

section \<open>Data and operations\<close>

definition default_folder_size_limit_bytes :: u64 where
  "default_folder_size_limit_bytes = 10 * 1024 * 1024 * 1024"

record folder_size_limit =
  max_bytes :: u64
  warning_threshold_percent :: u8

definition folder_size_limit_new :: "u64 \<Rightarrow> u8 \<Rightarrow> folder_size_limit core_result" where
  "folder_size_limit_new mb pct =
     (if mb = 0 then Inl InvalidFolderLimit
      else if \<not> (1 \<le> pct \<and> pct \<le> 100) then Inl InvalidWarningThreshold
      else Inr \<lparr>max_bytes = mb, warning_threshold_percent = pct\<rparr>)"

definition remaining_bytes :: "folder_size_limit \<Rightarrow> u64 \<Rightarrow> u64" where
  "remaining_bytes l used = saturating_sub (max_bytes l) used"

definition is_warning_reached :: "folder_size_limit \<Rightarrow> u64 \<Rightarrow> bool" where
  "is_warning_reached l used =
     (let threshold = saturating_mul (max_bytes l) (ucast (warning_threshold_percent l)) div 100
      in threshold \<le> used)"

definition default_folder_size_limit :: folder_size_limit where
  "default_folder_size_limit =
     \<lparr>max_bytes = default_folder_size_limit_bytes, warning_threshold_percent = 80\<rparr>"

record pending_transfer =
  pt_operation_id :: operation_id
  pt_path :: relative_path
  pt_size_bytes :: u64
  pt_queued_at :: datetime

datatype folder_limit_decision = Accepted pending_transfer | SkippedLimit pending_transfer

record folder_limit_plan =
  fl_accepted :: "pending_transfer list"
  fl_skipped :: "pending_transfer list"
  fl_final_used_bytes :: u64
  fl_warning_reached :: bool

text \<open>The loop over the sorted transfers; both result vectors grow at the end.\<close>

fun plan_loop ::
  "folder_size_limit \<Rightarrow> pending_transfer list \<Rightarrow> u64
     \<Rightarrow> pending_transfer list \<Rightarrow> pending_transfer list
     \<Rightarrow> u64 \<times> pending_transfer list \<times> pending_transfer list" where
  "plan_loop l [] used accepted skipped = (used, accepted, skipped)"
| "plan_loop l (t # ts) used accepted skipped =
     (if pt_size_bytes t \<le> remaining_bytes l used
      then plan_loop l ts (saturating_add used (pt_size_bytes t)) (accepted @ [t]) skipped
      else plan_loop l ts used accepted (skipped @ [t]))"

definition plan_transfers ::
  "folder_size_limit \<Rightarrow> u64 \<Rightarrow> pending_transfer list \<Rightarrow> folder_limit_plan" where
  "plan_transfers l used pending =
     (let (final, accepted, skipped) = plan_loop l (sort_key pt_queued_at pending) used [] []
      in \<lparr>fl_accepted = accepted, fl_skipped = skipped, fl_final_used_bytes = final,
          fl_warning_reached = is_warning_reached l final\<rparr>)"

section \<open>Limits\<close>

lemma folder_size_limit_new_Inr_iff:
  "folder_size_limit_new mb pct = Inr l \<longleftrightarrow>
     0 < unat mb \<and> 1 \<le> unat pct \<and> unat pct \<le> 100
     \<and> l = \<lparr>max_bytes = mb, warning_threshold_percent = pct\<rparr>"
  by (auto simp: folder_size_limit_new_def word_le_nat_alt unat_gt_0)

lemma unat_remaining_bytes [u64_simps]:
  "unat (remaining_bytes l used) = unat (max_bytes l) - unat used"
  by (simp add: remaining_bytes_def u64_simps)

lemma unat_warning_threshold:
  "unat (saturating_mul (max_bytes l) (ucast (warning_threshold_percent l)) div 100)
     = min (unat (max_bytes l) * unat (warning_threshold_percent l)) (2 ^ 64 - 1) div 100"
proof -
  have "unat (warning_threshold_percent l) < 2 ^ 8"
    using unsigned_less [of "warning_threshold_percent l", where 'a = nat] by simp
  then have "unat (ucast (warning_threshold_percent l) :: u64) = unat (warning_threshold_percent l)"
    by (simp add: unsigned_ucast_eq take_bit_nat_eq_self)
  then show ?thesis by (simp add: unat_div u64_simps)
qed

lemma is_warning_reached_iff:
  "is_warning_reached l used \<longleftrightarrow>
     min (unat (max_bytes l) * unat (warning_threshold_percent l)) (2 ^ 64 - 1) div 100 \<le> unat used"
  by (simp only: is_warning_reached_def Let_def word_le_nat_alt unat_warning_threshold)

section \<open>The plan\<close>

definition sizes :: "pending_transfer list \<Rightarrow> nat" where
  "sizes ts = sum_list (map (unat \<circ> pt_size_bytes) ts)"

lemma sizes_simps [simp]:
  "sizes [] = 0"
  "sizes (t # ts) = unat (pt_size_bytes t) + sizes ts"
  "sizes (xs @ ys) = sizes xs + sizes ys"
  by (simp_all add: sizes_def)

text \<open>A transfer that fits is added without wrap-around or saturation.\<close>

lemma fitting_add:
  assumes "pt_size_bytes t \<le> remaining_bytes l used" and "pt_size_bytes t \<noteq> 0"
  shows "unat (saturating_add used (pt_size_bytes t)) = unat used + unat (pt_size_bytes t)"
    and "unat used + unat (pt_size_bytes t) \<le> unat (max_bytes l)"
proof -
  from assms(1) have le: "unat (pt_size_bytes t) \<le> unat (max_bytes l) - unat used"
    by (simp add: word_le_nat_alt u64_simps)
  moreover from assms(2) have "0 < unat (pt_size_bytes t)" by (simp add: unat_gt_0)
  ultimately show sum: "unat used + unat (pt_size_bytes t) \<le> unat (max_bytes l)" by simp
  with unat_u64_lt [of "max_bytes l"]
  show "unat (saturating_add used (pt_size_bytes t)) = unat used + unat (pt_size_bytes t)"
    by (simp add: u64_simps)
qed

lemma fitting_used:
  assumes "pt_size_bytes t \<le> remaining_bytes l used"
  shows "unat (saturating_add used (pt_size_bytes t)) = unat used + unat (pt_size_bytes t)"
proof (cases "pt_size_bytes t = 0")
  case True
  then show ?thesis using unat_u64_lt [of used] by (simp add: u64_simps)
next
  case False
  with assms show ?thesis by (rule fitting_add)
qed

lemma not_fitting:
  assumes "\<not> pt_size_bytes t \<le> remaining_bytes l used"
  shows "unat (max_bytes l) < unat used + unat (pt_size_bytes t)"
  using assms by (simp add: word_le_nat_alt u64_simps)

lemma fitting_le_max:
  assumes "pt_size_bytes t \<le> remaining_bytes l used"
  shows "unat (saturating_add used (pt_size_bytes t)) \<le> max (unat used) (unat (max_bytes l))"
  using assms by (simp add: fitting_used word_le_nat_alt u64_simps)

text \<open>The loop's invariants: conservation, exact accounting, the bound, maximality, order.\<close>

lemma plan_loop_mset:
  "plan_loop l ts used acc skp = (final, as, ss) \<Longrightarrow>
     mset as + mset ss = mset acc + mset skp + mset ts"
  by (induction l ts used acc skp rule: plan_loop.induct) (auto split: if_splits)

lemma plan_loop_used:
  "plan_loop l ts used acc skp = (final, as, ss) \<Longrightarrow>
     unat final + sizes acc = unat used + sizes as"
  by (induction l ts used acc skp rule: plan_loop.induct)
    (auto simp: fitting_used split: if_splits)

lemma plan_loop_mono:
  "plan_loop l ts used acc skp = (final, as, ss) \<Longrightarrow> unat used \<le> unat final"
  by (induction l ts used acc skp rule: plan_loop.induct)
    (auto simp: fitting_used split: if_splits)

lemma plan_loop_bound:
  "plan_loop l ts used acc skp = (final, as, ss) \<Longrightarrow>
     unat final \<le> max (unat used) (unat (max_bytes l))"
proof (induction l ts used acc skp rule: plan_loop.induct)
  case (2 l t ts used acc skp)
  then show ?case
    using fitting_le_max [of t l used] by (auto split: if_splits)
qed simp

lemma plan_loop_maximal:
  assumes "plan_loop l ts used acc skp = (final, as, ss)"
    and "\<forall>t \<in> set skp. unat (max_bytes l) < unat final + unat (pt_size_bytes t)"
  shows "\<forall>t \<in> set ss. unat (max_bytes l) < unat final + unat (pt_size_bytes t)"
  using assms
proof (induction l ts used acc skp rule: plan_loop.induct)
  case (2 l t ts used acc skp)
  show ?case
  proof (cases "pt_size_bytes t \<le> remaining_bytes l used")
    case True
    with 2 show ?thesis by simp
  next
    case False
    then have "plan_loop l ts used acc (skp @ [t]) = (final, as, ss)" using "2.prems" by simp
    then have "unat used \<le> unat final" by (rule plan_loop_mono)
    with not_fitting [OF False]
    have "unat (max_bytes l) < unat final + unat (pt_size_bytes t)" by simp
    with 2 False show ?thesis by simp
  qed
qed simp

lemma plan_loop_subseq:
  "plan_loop l ts used acc skp = (final, as, ss) \<Longrightarrow>
     \<exists>as' ss'. as = acc @ as' \<and> ss = skp @ ss' \<and> subseq as' ts \<and> subseq ss' ts"
proof (induction l ts used acc skp rule: plan_loop.induct)
  case (2 l t ts used acc skp)
  show ?case
  proof (cases "pt_size_bytes t \<le> remaining_bytes l used")
    case True
    with 2 obtain as' ss' where "as = (acc @ [t]) @ as'" "ss = skp @ ss'" "subseq as' ts" "subseq ss' ts"
      by auto
    moreover have "subseq ss' (t # ts)" using \<open>subseq ss' ts\<close> by (rule list_emb_Cons)
    ultimately show ?thesis by (intro exI [of _ "t # as'"] exI [of _ ss']) (simp del: list_emb_code)
  next
    case False
    with 2 obtain as' ss' where "as = acc @ as'" "ss = (skp @ [t]) @ ss'" "subseq as' ts" "subseq ss' ts"
      by auto
    moreover have "subseq as' (t # ts)" using \<open>subseq as' ts\<close> by (rule list_emb_Cons)
    ultimately show ?thesis by (intro exI [of _ as'] exI [of _ "t # ss'"]) (simp del: list_emb_code)
  qed
qed simp

text \<open>An accepted transfer leaves room for every transfer decided after it.\<close>

lemma plan_transfers_loop:
  "plan_loop l (sort_key pt_queued_at pending) used [] [] =
     (fl_final_used_bytes (plan_transfers l used pending),
      fl_accepted (plan_transfers l used pending),
      fl_skipped (plan_transfers l used pending))"
  by (simp add: plan_transfers_def split: prod.splits)

lemmas plan_facts =
  plan_loop_mset [OF plan_transfers_loop] plan_loop_used [OF plan_transfers_loop]
  plan_loop_bound [OF plan_transfers_loop] plan_loop_subseq [OF plan_transfers_loop]

lemma plan_skipped_too_big:
  "t \<in> set (fl_skipped (plan_transfers l used pending)) \<Longrightarrow>
     unat (max_bytes l) < unat (fl_final_used_bytes (plan_transfers l used pending))
                            + unat (pt_size_bytes t)"
  using plan_loop_maximal [OF plan_transfers_loop] by simp

lemma sorted_subseq_map: "subseq xs ys \<Longrightarrow> sorted (map f ys) \<Longrightarrow> sorted (map f xs)"
  using subseq_map [of xs ys f] by (auto simp: subseq_conv_nths sorted_nths)

section \<open>Properties\<close>

text \<open>
  C24: A limit plan neither loses nor invents a transfer, its accounting is exact although
  the code adds with saturation, and the space used at the end exceeds the limit only if
  it did at the start.
\<close>

theorem limit_plan_is_exact:
  "mset (fl_accepted (plan_transfers l used pending)) + mset (fl_skipped (plan_transfers l used pending))
     = mset pending
   \<and> unat (fl_final_used_bytes (plan_transfers l used pending))
       = unat used + sizes (fl_accepted (plan_transfers l used pending))
   \<and> unat (fl_final_used_bytes (plan_transfers l used pending))
       \<le> max (unat used) (unat (max_bytes l))"
  using plan_facts(1-3) [of l used pending] by simp

text \<open>
  A limit plan works oldest first and is maximal: accepted and skipped transfers both
  keep the order of their queueing times, and a skipped transfer does not fit even into
  the space that is left at the end.
\<close>

theorem limit_plan_is_maximal:
  assumes "t \<in> set (fl_skipped (plan_transfers l used pending))"
  shows "unat (max_bytes l)
      < unat (fl_final_used_bytes (plan_transfers l used pending)) + unat (pt_size_bytes t)
    \<and> sorted (map pt_queued_at (fl_accepted (plan_transfers l used pending)))
    \<and> sorted (map pt_queued_at (fl_skipped (plan_transfers l used pending)))"
  using plan_skipped_too_big [OF assms] plan_facts(4) [of l used pending]
  by (auto intro: sorted_subseq_map [of _ "sort_key pt_queued_at pending"])

definition sample_transfer :: "string \<Rightarrow> u64 \<Rightarrow> int \<Rightarrow> pending_transfer" where
  "sample_transfer path bytes queued =
     \<lparr>pt_operation_id = OperationId path, pt_path = RelativePath path,
      pt_size_bytes = bytes, pt_queued_at = queued\<rparr>"

theorem limit_plan_is_maximal_witness:
  "(let plan = plan_transfers \<lparr>max_bytes = 100, warning_threshold_percent = 80\<rparr> 10
      [sample_transfer ''c'' 50 3, sample_transfer ''a'' 60 1, sample_transfer ''b'' 20 2] in
    map path_str (map pt_path (fl_skipped plan)) = [''c'']
    \<and> unat (100::u64) < unat (fl_final_used_bytes plan) + unat (50::u64))"
proof -
  let ?l = "\<lparr>max_bytes = 100, warning_threshold_percent = 80\<rparr>"
  let ?ts = "[sample_transfer ''c'' 50 3, sample_transfer ''a'' 60 1, sample_transfer ''b'' 20 2]"
  have s: "fl_skipped (plan_transfers ?l 10 ?ts) = [sample_transfer ''c'' 50 3]" by code_simp
  then have "sample_transfer ''c'' 50 3 \<in> set (fl_skipped (plan_transfers ?l 10 ?ts))" by simp
  from limit_plan_is_maximal [OF this] s show ?thesis by (simp add: Let_def sample_transfer_def)
qed

text \<open>
  The warning is raised exactly from the given percentage of the limit on, rounded
  down, as long as the product of the limit and the percentage fits 64 bits; beyond that
  the threshold stays at a hundredth of the largest \<open>u64\<close>.
\<close>

theorem warning_threshold_exact:
  "is_warning_reached l used \<longleftrightarrow>
     (if unat (max_bytes l) * unat (warning_threshold_percent l) < 2 ^ 64
      then unat (max_bytes l) * unat (warning_threshold_percent l) div 100 \<le> unat used
      else (2 ^ 64 - 1) div 100 \<le> unat used)"
  by (simp add: is_warning_reached_iff min_def del: numeral_le_iff)

text \<open>A limit of eight exbibytes warns below four percent of use instead of at eighty.\<close>

lemma warning_too_early:
  "folder_size_limit_new (2 ^ 63) 80 = Inr \<lparr>max_bytes = 2 ^ 63, warning_threshold_percent = 80\<rparr>
   \<and> is_warning_reached \<lparr>max_bytes = 2 ^ 63, warning_threshold_percent = 80\<rparr> (2 ^ 58)
   \<and> 2 ^ 58 * 100 < (4 :: int) * 2 ^ 63 \<and> uint (2 ^ 58 :: u64) = 2 ^ 58"
  by code_simp

end
