(* ===== verification/Folder_Docs.thy ===== *)
theory Folder_Docs
  imports Disk_Documents Folder_Limits
begin

text \<open>
  \<open>folder_store.rs\<close> and the folder configuration of \<open>model.rs\<close>: the document
  \<open>.syncer/folder.json\<close>, written through a temporary file, read and validated. The JSON
  codec of the document type is an argument.
\<close>

section \<open>The folder configuration\<close>

record folder_config =
  fc_id :: folder_id
  fc_display_name :: string
  fc_root :: storage_root
  fc_mode :: folder_mode
  fc_interval_seconds :: u64
  fc_size_limit :: folder_size_limit
  fc_retention :: retention_policy
  fc_peers :: "folder_peer list"

text \<open>In seconds; a value beyond \<open>i64\<close> becomes the largest one.\<close>

definition sync_interval :: "folder_config \<Rightarrow> int" where
  "sync_interval c = (case i64_of_u64 (fc_interval_seconds c) of None \<Rightarrow> 2 ^ 63 - 1 | Some n \<Rightarrow> n)"

definition current_folder_schema_version :: u16 where
  "current_folder_schema_version = 1"

definition folder_config_file_name :: string where
  "folder_config_file_name = ''folder.json''"

definition state_db_file_name :: string where
  "state_db_file_name = ''state.db''"

record folder_document =
  fd_schema_version :: u16
  fd_folder :: folder_config

definition folder_document_new :: "folder_config \<Rightarrow> folder_document" where
  "folder_document_new folder =
     \<lparr>fd_schema_version = current_folder_schema_version, fd_folder = folder\<rparr>"

definition folder_document_validate :: "folder_document \<Rightarrow> unit core_result" where
  "folder_document_validate doc =
     (if fd_schema_version doc \<noteq> current_folder_schema_version
      then Inl (UnsupportedFolderSchema (fd_schema_version doc)) else Inr ())"

section \<open>The store\<close>

record folder_store =
  st_root :: string

text \<open>\<open>from_std_path\<close>: the operating system's path, and how it is displayed.\<close>

definition folder_store_from_std_path :: "string \<Rightarrow> string \<Rightarrow> folder_store core_result" where
  "folder_store_from_std_path os_path display =
     (case from_utf8 os_path of
        None \<Rightarrow> Inl (Filesystem display ''path is not valid UTF-8'')
      | Some root \<Rightarrow> Inr \<lparr>st_root = root\<rparr>)"

definition syncer_dir :: "folder_store \<Rightarrow> string" where
  "syncer_dir st = path_push (st_root st) ''.syncer''"

definition folder_json_path :: "folder_store \<Rightarrow> string" where
  "folder_json_path st = path_push (syncer_dir st) folder_config_file_name"

definition state_db_path :: "folder_store \<Rightarrow> string" where
  "state_db_path st = path_push (syncer_dir st) state_db_file_name"

type_synonym folder_codec = "folder_document json_codec"

definition folder_store_read ::
  "io_faults \<Rightarrow> folder_codec \<Rightarrow> folder_store \<Rightarrow> disk \<Rightarrow> folder_document core_result" where
  "folder_store_read f j st d =
     (let path = folder_json_path st in
      and_then (map_err (Filesystem path) (fs_read f path d)) (\<lambda>bytes.
      and_then (map_err Json (from_slice j bytes)) (\<lambda>doc.
      and_then (folder_document_validate doc) (\<lambda>_. Inr doc))))"

definition folder_store_write ::
  "io_faults \<Rightarrow> folder_codec \<Rightarrow> folder_store \<Rightarrow> folder_document \<Rightarrow> (disk, core_error, unit) stateful" where
  "folder_store_write f j st doc =
     bind_op (lift_result (folder_document_validate doc)) (\<lambda>_.
     bind_op (map_op_err (Filesystem (syncer_dir st)) (fs_create_dir_all f (syncer_dir st))) (\<lambda>_.
     (let target = folder_json_path st; temporary = path_push (syncer_dir st) ''folder.json.tmp'' in
      bind_op (lift_result (map_err Json (to_vec_pretty j doc))) (\<lambda>bytes.
      bind_op (map_op_err (Filesystem temporary) (fs_write f temporary bytes)) (\<lambda>_.
        map_op_err (Filesystem target) (fs_rename f temporary target))))))"

definition folder_store_initialize ::
  "io_faults \<Rightarrow> folder_codec \<Rightarrow> folder_id \<Rightarrow> folder_store \<Rightarrow> string \<Rightarrow> folder_mode
     \<Rightarrow> folder_size_limit \<Rightarrow> folder_peer list \<Rightarrow> (disk, core_error, folder_document) stateful" where
  "folder_store_initialize f j fresh_id st display_name mode size_limit peers =
     (let document = folder_document_new
        \<lparr>fc_id = fresh_id, fc_display_name = display_name, fc_root = NativePath (st_root st),
         fc_mode = mode, fc_interval_seconds = 900, fc_size_limit = size_limit,
         fc_retention = default_retention, fc_peers = peers\<rparr>
      in bind_op (folder_store_write f j st document) (\<lambda>_. lift_result (Inr document)))"

section \<open>The document contract\<close>

lemma sync_interval_seconds:
  "sync_interval c = min (uint (fc_interval_seconds c)) (2 ^ 63 - 1)"
  by (simp add: sync_interval_def i64_of_u64_def)

lemma folder_document_validate_iff:
  "folder_document_validate doc = Inr () \<longleftrightarrow> fd_schema_version doc = current_folder_schema_version"
  by (simp add: folder_document_validate_def)

lemma folder_paths_differ: "path_push (syncer_dir st) ''folder.json.tmp'' \<noteq> folder_json_path st"
proof -
  have "path_components (path_push (syncer_dir st) ''folder.json.tmp'')
      \<noteq> path_components (folder_json_path st)"
    unfolding folder_json_path_def folder_config_file_name_def
    by (subst path_components_push_name, simp add: plain_name_def)+ simp
  then show ?thesis by metis
qed

text \<open>What a write does to the two files, on every branch.\<close>

lemma folder_store_write_cases:
  assumes "folder_store_write f j st doc d = (r, d')"
  shows "dk_files d' (folder_json_path st) =
    (case r of Inl _ \<Rightarrow> dk_files d (folder_json_path st)
     | Inr _ \<Rightarrow> (case to_vec_pretty j doc of Inl _ \<Rightarrow> None | Inr bytes \<Rightarrow> Some bytes))"
    and "r = Inr () \<Longrightarrow> folder_document_validate doc = Inr () \<and> is_ok (to_vec_pretty j doc)"
proof -
  have "dk_files d' (folder_json_path st) =
      (case r of Inl _ \<Rightarrow> dk_files d (folder_json_path st)
       | Inr _ \<Rightarrow> (case to_vec_pretty j doc of Inl _ \<Rightarrow> None | Inr bytes \<Rightarrow> Some bytes))
    \<and> (r = Inr () \<longrightarrow> folder_document_validate doc = Inr () \<and> is_ok (to_vec_pretty j doc))"
  proof (cases "folder_document_validate doc")
    case (Inl e)
    with assms have "r = Inl e" "d' = d" by (simp_all add: folder_store_write_def bind_op_def)
    then show ?thesis by simp
  next
    case (Inr u)
    then have valid: "folder_document_validate doc = Inr ()" by simp
    show ?thesis
    proof (cases "to_vec_pretty j doc")
      case (Inl e)
      with assms show ?thesis
        by (auto simp: valid folder_store_write_def bind_op_def map_op_err_def fs_create_dir_all_def
            Let_def split: option.splits)
    next
      case (Inr bytes)
      with assms folder_paths_differ [of st] show ?thesis
        by (auto simp: valid folder_store_write_def bind_op_def map_op_err_def fs_create_dir_all_def
            fs_write_def fs_rename_def Let_def split: option.splits)
    qed
  qed
  then show "dk_files d' (folder_json_path st) =
      (case r of Inl _ \<Rightarrow> dk_files d (folder_json_path st)
       | Inr _ \<Rightarrow> (case to_vec_pretty j doc of Inl _ \<Rightarrow> None | Inr bytes \<Rightarrow> Some bytes))"
    and "r = Inr () \<Longrightarrow> folder_document_validate doc = Inr () \<and> is_ok (to_vec_pretty j doc)"
    by blast+
qed

lemma folder_store_read_ok:
  assumes "dk_files d (folder_json_path st) = Some bytes" and "read_fault f (folder_json_path st) = None"
    and "from_slice j bytes = Inr doc" and "folder_document_validate doc = Inr ()"
  shows "folder_store_read f j st d = Inr doc"
  using assms by (simp add: folder_store_read_def fs_read_def Let_def)

interpretation folder_doc: document_store "folder_store_write f j st" "folder_store_read f j st"
    "folder_json_path st" "json_laws j \<and> read_fault f (folder_json_path st) = None"
  for f j st
proof unfold_locales
  fix doc d d'
  assume h: "json_laws j \<and> read_fault f (folder_json_path st) = None"
    and w: "folder_store_write f j st doc d = (Inr (), d')"
  from folder_store_write_cases(2) [OF w] obtain bytes where
    "to_vec_pretty j doc = Inr bytes" "folder_document_validate doc = Inr ()" by (auto simp: is_ok_iff)
  with h folder_store_write_cases(1) [OF w] show "folder_store_read f j st d' = Inr doc"
    by (auto simp: json_laws_def intro: folder_store_read_ok)
next
  fix doc d e d'
  assume "folder_store_write f j st doc d = (Inl e, d')"
  from folder_store_write_cases(1) [OF this]
  show "dk_files d' (folder_json_path st) = dk_files d (folder_json_path st)" by simp
next
  fix d d' :: disk
  assume "dk_files d (folder_json_path st) = dk_files d' (folder_json_path st)"
  then have "fs_read f (folder_json_path st) d = fs_read f (folder_json_path st) d'"
    by (simp add: fs_read_def split: option.split)
  then show "folder_store_read f j st d = folder_store_read f j st d'"
    by (simp add: folder_store_read_def Let_def)
qed

section \<open>Properties\<close>


text \<open>An instance of the codec: the document is its index in a table.\<close>

definition sample_document :: "string \<Rightarrow> u16 \<Rightarrow> folder_document" where
  "sample_document name version = \<lparr>fd_schema_version = version, fd_folder =
     \<lparr>fc_id = FolderId ''f'', fc_display_name = name, fc_root = NativePath ''/d'',
      fc_mode = Bidirectional, fc_interval_seconds = 900, fc_size_limit = default_folder_size_limit,
      fc_retention = default_retention, fc_peers = []\<rparr>\<rparr>"

definition sample_codec :: folder_codec where
  "sample_codec = \<lparr>to_vec_pretty = (\<lambda>d. if d = sample_document (fc_display_name (fd_folder d)) 1
       then Inr (fc_display_name (fd_folder d)) else Inl ''unsupported''),
     from_slice = (\<lambda>bytes. Inr (sample_document bytes 1))\<rparr>"

lemma sample_codec_laws: "json_laws sample_codec"
  by (auto simp: json_laws_def sample_codec_def split: if_splits)


text \<open>
  A folder initialised without an error reads back as the document that was returned:
  the given name, mode, limit and peers, the default retention and a quarter of an hour
  between runs.
\<close>

theorem initialized_folder_reads_back:
  assumes "folder_store_initialize f j fid st name mode limit peers d = (Inr doc, d')"
    and "json_laws j" and "read_fault f (folder_json_path st) = None"
  shows "folder_store_read f j st d' = Inr doc
    \<and> fc_display_name (fd_folder doc) = name \<and> fc_mode (fd_folder doc) = mode
    \<and> fc_size_limit (fd_folder doc) = limit \<and> fc_peers (fd_folder doc) = peers
    \<and> fc_root (fd_folder doc) = NativePath (st_root st) \<and> sync_interval (fd_folder doc) = 900"
proof -
  from assms(1) obtain doc' where w: "folder_store_write f j st doc' d = (Inr (), d')"
    and doc: "doc = doc'" "doc' = folder_document_new
        \<lparr>fc_id = fid, fc_display_name = name, fc_root = NativePath (st_root st), fc_mode = mode,
         fc_interval_seconds = 900, fc_size_limit = limit, fc_retention = default_retention,
         fc_peers = peers\<rparr>"
    by (auto simp: folder_store_initialize_def Let_def bind_op_def split: sum.splits prod.splits)
  from folder_doc.write_success [OF _ w] assms(2,3) doc show ?thesis
    by (simp add: folder_document_new_def sync_interval_def i64_of_u64_def)
qed

theorem initialized_folder_reads_back_witness:
  "\<exists>doc d'. folder_store_initialize no_faults sample_codec (FolderId ''f'') \<lparr>st_root = ''/d''\<rparr>
      ''Photos'' Bidirectional default_folder_size_limit [] \<lparr>dk_files = \<lambda>_. None\<rparr> = (Inr doc, d')
    \<and> folder_store_read no_faults sample_codec \<lparr>st_root = ''/d''\<rparr> d' = Inr doc"
proof -
  let ?out = "folder_store_initialize no_faults sample_codec (FolderId ''f'') \<lparr>st_root = ''/d''\<rparr>
      ''Photos'' Bidirectional default_folder_size_limit [] \<lparr>dk_files = \<lambda>_. None\<rparr>"
  have "is_ok (fst ?out)" by code_simp
  then obtain doc d' where o: "?out = (Inr doc, d')" by (metis is_ok_iff prod.collapse)
  have "read_fault no_faults (folder_json_path \<lparr>st_root = ''/d''\<rparr>) = None"
    by (simp add: no_faults_def)
  from initialized_folder_reads_back [OF o sample_codec_laws this] o show ?thesis by blast
qed

end
