(* ===== verification/Peer_Trust.thy ===== *)
theory Peer_Trust
  imports Disk_Documents
begin

text \<open>
  The agent's identity and trust: \<open>profile.rs\<close>, \<open>peer_store.rs\<close> and \<open>request_signing.rs\<close>.
  Pairing tickets are created and checked against the clock, accepted tickets become
  trusted peers in a document replaced through a temporary file, and requests are signed
  over a canonical payload. Hex, SHA-256, HMAC and the other third-party functions are the
  fields of a record that extends the core's.
\<close>

section \<open>Third-party functions of the agent\<close>

text \<open>
  \<open>hex::encode\<close> and \<open>hex::decode\<close> (with the text of its error), SHA-256, HMAC-SHA-256 of a
  key and a payload (\<open>None\<close> for a key \<open>new_from_slice\<close> refuses), the \<open>+\<close> of an instant
  and a number of seconds (\<open>None\<close> where it panics), key derivation, and the two directions
  of the AEAD cipher on key, nonce, associated data and text.
\<close>

record agent_externals = externals +
  hex_encode :: "string \<Rightarrow> string"
  hex_decode :: "string \<Rightarrow> string + string"
  sha256 :: "string \<Rightarrow> string"
  hmac_sha256 :: "string \<Rightarrow> string \<Rightarrow> string option"
  plus_seconds :: "datetime \<Rightarrow> int \<Rightarrow> datetime option"
  blake3_derive_key :: "string \<Rightarrow> string \<Rightarrow> string"
  aead_encrypt :: "string \<Rightarrow> string \<Rightarrow> string \<Rightarrow> string \<Rightarrow> (string \<times> string) option"
  aead_decrypt :: "string \<Rightarrow> string \<Rightarrow> string \<Rightarrow> string \<Rightarrow> string \<Rightarrow> string option"

text \<open>What \<open>hex\<close> documents: decoding undoes encoding.\<close>

definition hex_laws :: "'x agent_externals_scheme \<Rightarrow> bool" where
  "hex_laws x \<longleftrightarrow> (\<forall>bytes. hex_decode x (hex_encode x bytes) = Inr bytes)"

section \<open>The device profile\<close>

record local_device_profile =
  lp_device_id :: device_id
  lp_device_name :: device_name
  lp_created_at :: datetime
  lp_local_api_token_hex :: string
  lp_identity_public_hex :: string
  lp_identity_secret_hex :: string

datatype profile_read_error = ProfileRead string string | ProfileJson string

definition hex_token :: "'x agent_externals_scheme \<Rightarrow> string \<Rightarrow> string" where
  "hex_token x bytes = hex_encode x bytes"

definition public_identity_hex :: "'x agent_externals_scheme \<Rightarrow> string \<Rightarrow> string" where
  "public_identity_hex x secret = hex_encode x (sha256 x secret)"

text \<open>The random bytes, the fresh identifier and the clock are arguments.\<close>

definition local_device_profile_create ::
  "'x agent_externals_scheme \<Rightarrow> string \<Rightarrow> string \<Rightarrow> device_id \<Rightarrow> datetime \<Rightarrow> string
     \<Rightarrow> local_device_profile core_result" where
  "local_device_profile_create x identity_secret token fresh_id now name =
     and_then (device_name_parse name) (\<lambda>device_name.
       Inr \<lparr>lp_device_id = fresh_id, lp_device_name = device_name, lp_created_at = now,
            lp_local_api_token_hex = hex_token x token,
            lp_identity_public_hex = public_identity_hex x identity_secret,
            lp_identity_secret_hex = hex_token x identity_secret\<rparr>)"

definition local_device_profile_read ::
  "io_faults \<Rightarrow> local_device_profile json_codec \<Rightarrow> string \<Rightarrow> disk
     \<Rightarrow> profile_read_error + local_device_profile" where
  "local_device_profile_read f j path d =
     and_then (map_err (ProfileRead path) (fs_read f path d)) (\<lambda>bytes.
       map_err ProfileJson (from_slice j bytes))"

section \<open>Pairing tickets\<close>

datatype peer_store_error =
    InvalidTtl
  | ExpiredTicket
  | UnsupportedSchema u16
  | InvalidSharedSecret
  | PeerRead string string
  | PeerCreateDirectory string string
  | PeerWrite string string
  | PeerJson string
  | PeerHex string
  | InstantOverflowPanic

record pairing_ticket_document =
  pd_schema_version :: u16
  pd_device_id :: device_id
  pd_device_name :: string
  pd_endpoint :: string
  pd_identity_public_hex :: string
  pd_shared_secret_hex :: string
  pd_expires_at :: datetime

definition ticket_create ::
  "'x agent_externals_scheme \<Rightarrow> string \<Rightarrow> datetime \<Rightarrow> local_device_profile \<Rightarrow> string \<Rightarrow> int
     \<Rightarrow> peer_store_error + pairing_ticket_document" where
  "ticket_create x random_secret now profile endpoint ttl_seconds =
     (if ttl_seconds \<le> 0 then Inl InvalidTtl
      else and_then (ok_or InstantOverflowPanic (plus_seconds x now ttl_seconds)) (\<lambda>expires.
        Inr \<lparr>pd_schema_version = 1, pd_device_id = lp_device_id profile,
             pd_device_name = device_name_str (lp_device_name profile), pd_endpoint = endpoint,
             pd_identity_public_hex = lp_identity_public_hex profile,
             pd_shared_secret_hex = hex_encode x random_secret, pd_expires_at = expires\<rparr>))"

definition ticket_validate ::
  "'x agent_externals_scheme \<Rightarrow> datetime \<Rightarrow> pairing_ticket_document \<Rightarrow> peer_store_error + unit" where
  "ticket_validate x now t =
     (if pd_schema_version t \<noteq> 1 then Inl (UnsupportedSchema (pd_schema_version t))
      else if pd_expires_at t \<le> now then Inl ExpiredTicket
      else and_then (map_err PeerHex (hex_decode x (pd_shared_secret_hex t))) (\<lambda>bytes.
        if length bytes \<noteq> 32 then Inl InvalidSharedSecret else Inr ()))"

definition ticket_read ::
  "'x agent_externals_scheme \<Rightarrow> io_faults \<Rightarrow> pairing_ticket_document json_codec \<Rightarrow> datetime
     \<Rightarrow> string \<Rightarrow> disk \<Rightarrow> peer_store_error + pairing_ticket_document" where
  "ticket_read x f j now path d =
     and_then (map_err (PeerRead path) (fs_read f path d)) (\<lambda>bytes.
     and_then (map_err PeerJson (from_slice j bytes)) (\<lambda>ticket.
     and_then (ticket_validate x now ticket) (\<lambda>_. Inr ticket)))"

section \<open>Trusted peers\<close>

record trusted_peer_record =
  tp_device_id :: device_id
  tp_device_name :: string
  tp_endpoint :: string
  tp_identity_public_hex :: string
  tp_shared_secret_hex :: string
  tp_trusted_at :: datetime

record peer_store_document =
  ps_schema_version :: u16
  ps_peers :: "trusted_peer_record list"

definition peer_store_read_or_default ::
  "io_faults \<Rightarrow> peer_store_document json_codec \<Rightarrow> string \<Rightarrow> disk
     \<Rightarrow> peer_store_error + peer_store_document" where
  "peer_store_read_or_default f j path d =
     (if dk_files d path = None then Inr \<lparr>ps_schema_version = 1, ps_peers = []\<rparr>
      else and_then (map_err (PeerRead path) (fs_read f path d)) (\<lambda>bytes.
        and_then (map_err PeerJson (from_slice j bytes)) (\<lambda>document.
          if ps_schema_version document \<noteq> 1
          then Inl (UnsupportedSchema (ps_schema_version document)) else Inr document)))"

text \<open>
  \<open>with_extension\<close>: trailing separators and dots are not part of the file name; the new
  extension replaces what follows the last dot of the name, unless that dot starts it.
\<close>

definition name_pieces :: "string \<Rightarrow> string list" where
  "name_pieces p = rev (dropWhile (\<lambda>q. q = [] \<or> q = ''.'') (rev (split_on CHR ''/'' p)))"

definition file_stem :: "string \<Rightarrow> string" where
  "file_stem name =
     (case rev (split_on CHR ''.'' name) of
        (ext # q # qs) \<Rightarrow> (let stem = join_with CHR ''.'' (rev (q # qs)) in if stem = [] then name else stem)
      | _ \<Rightarrow> name)"

definition path_with_extension :: "string \<Rightarrow> string \<Rightarrow> string" where
  "path_with_extension p ext =
     (case rev (name_pieces p) of
        [] \<Rightarrow> p
      | name # parents \<Rightarrow>
          if name = ''..'' then p
          else join_with CHR ''/'' (rev parents @ [file_stem name @ CHR ''.'' # ext]))"

text \<open>\<open>parent\<close>: everything before the last component; \<open>None\<close> for the root and for nothing.\<close>

definition path_parent :: "string \<Rightarrow> string option" where
  "path_parent p =
     (case rev (name_pieces p) of
        [] \<Rightarrow> None
      | name # parents \<Rightarrow>
          (let rest = rev (dropWhile (\<lambda>q. q = []) parents) in
           Some (if rest = [] \<and> is_absolute p then ''/'' else join_with CHR ''/'' rest)))"

definition peer_store_write ::
  "io_faults \<Rightarrow> peer_store_document json_codec \<Rightarrow> string \<Rightarrow> peer_store_document
     \<Rightarrow> (disk, peer_store_error, unit) stateful" where
  "peer_store_write f j path document =
     bind_op (case path_parent path of
         None \<Rightarrow> lift_result (Inr ())
       | Some parent \<Rightarrow> map_op_err (PeerCreateDirectory parent) (fs_create_dir_all f parent)) (\<lambda>_.
     (let temporary = path_with_extension path ''json.tmp'' in
      bind_op (lift_result (map_err PeerJson (to_vec_pretty j document))) (\<lambda>bytes.
      bind_op (map_op_err (PeerWrite temporary) (fs_write f temporary bytes)) (\<lambda>_.
        map_op_err (PeerWrite path) (fs_rename f temporary path)))))"

text \<open>The first peer with the device's identifier is replaced, or the peer is pushed.\<close>

fun replace_or_push :: "trusted_peer_record \<Rightarrow> trusted_peer_record list \<Rightarrow> trusted_peer_record list" where
  "replace_or_push peer [] = [peer]"
| "replace_or_push peer (existing # rest) =
     (if tp_device_id existing = tp_device_id peer then peer # rest
      else existing # replace_or_push peer rest)"

text \<open>The two readings of the clock are arguments; an error leaves the document as it was.\<close>

definition accept_ticket ::
  "'x agent_externals_scheme \<Rightarrow> datetime \<Rightarrow> datetime \<Rightarrow> pairing_ticket_document
     \<Rightarrow> (peer_store_document, peer_store_error, unit) stateful" where
  "accept_ticket x now trusted_now ticket =
     bind_op (lift_result (ticket_validate x now ticket)) (\<lambda>_.
       write_op (\<lambda>doc. doc\<lparr>ps_peers := replace_or_push
         \<lparr>tp_device_id = pd_device_id ticket, tp_device_name = pd_device_name ticket,
          tp_endpoint = pd_endpoint ticket,
          tp_identity_public_hex = pd_identity_public_hex ticket,
          tp_shared_secret_hex = pd_shared_secret_hex ticket,
          tp_trusted_at = trusted_now\<rparr> (ps_peers doc)\<rparr>))"

definition trusted_peer :: "peer_store_document \<Rightarrow> device_id \<Rightarrow> trusted_peer_record option" where
  "trusted_peer doc device = find_row tp_device_id device (ps_peers doc)"

section \<open>Request signatures\<close>

datatype signing_error = SigningHex string | InvalidSecret | InvalidSignature

definition newline :: char where
  "newline = CHR 0x0A"

definition canonical_payload_with_body_hash_hex ::
  "string \<Rightarrow> string \<Rightarrow> string \<Rightarrow> int \<Rightarrow> string \<Rightarrow> string" where
  "canonical_payload_with_body_hash_hex verb path device_id timestamp_unix body_hash_hex =
     join_with newline [verb, path, device_id, show_int timestamp_unix, body_hash_hex]"

definition sign_request_with_body_hash_hex ::
  "'x agent_externals_scheme \<Rightarrow> string \<Rightarrow> string \<Rightarrow> string \<Rightarrow> int \<Rightarrow> string \<Rightarrow> string
     \<Rightarrow> signing_error + string" where
  "sign_request_with_body_hash_hex x verb path device_id timestamp_unix body_hash_hex secret_hex =
     and_then (map_err SigningHex (hex_decode x secret_hex)) (\<lambda>secret.
     and_then (ok_or InvalidSecret (hmac_sha256 x secret
         (canonical_payload_with_body_hash_hex verb path device_id timestamp_unix body_hash_hex))) (\<lambda>mac.
       Inr (hex_encode x mac)))"

definition sign_request ::
  "'x agent_externals_scheme \<Rightarrow> string \<Rightarrow> string \<Rightarrow> string \<Rightarrow> int \<Rightarrow> string \<Rightarrow> string
     \<Rightarrow> signing_error + string" where
  "sign_request x verb path device_id timestamp_unix body secret_hex =
     sign_request_with_body_hash_hex x verb path device_id timestamp_unix
       (hex_encode x (sha256 x body)) secret_hex"

definition verify_request_signature_with_body_hash_hex ::
  "'x agent_externals_scheme \<Rightarrow> string \<Rightarrow> string \<Rightarrow> string \<Rightarrow> string \<Rightarrow> int \<Rightarrow> string \<Rightarrow> string
     \<Rightarrow> signing_error + unit" where
  "verify_request_signature_with_body_hash_hex x signature_hex verb path device_id timestamp_unix
       body_hash_hex secret_hex =
     and_then (map_err SigningHex (hex_decode x secret_hex)) (\<lambda>secret.
     and_then (map_err SigningHex (hex_decode x signature_hex)) (\<lambda>signature.
     and_then (ok_or InvalidSecret (hmac_sha256 x secret
         (canonical_payload_with_body_hash_hex verb path device_id timestamp_unix body_hash_hex))) (\<lambda>mac.
       if signature = mac then Inr () else Inl InvalidSignature)))"

definition verify_request_signature ::
  "'x agent_externals_scheme \<Rightarrow> string \<Rightarrow> string \<Rightarrow> string \<Rightarrow> string \<Rightarrow> int \<Rightarrow> string \<Rightarrow> string
     \<Rightarrow> signing_error + unit" where
  "verify_request_signature x signature_hex verb path device_id timestamp_unix body secret_hex =
     verify_request_signature_with_body_hash_hex x signature_hex verb path device_id timestamp_unix
       (hex_encode x (sha256 x body)) secret_hex"

section \<open>Trust in a device\<close>

lemma find_replace_or_push:
  "find_row tp_device_id device (replace_or_push peer ps) =
     (if device = tp_device_id peer then Some peer else find_row tp_device_id device ps)"
  by (induction peer ps rule: replace_or_push.induct) (auto simp: find_row_Cons)

lemma ticket_validate_iff:
  "ticket_validate x now t = Inr () \<longleftrightarrow>
     pd_schema_version t = 1 \<and> now < pd_expires_at t
     \<and> (\<exists>bytes. hex_decode x (pd_shared_secret_hex t) = Inr bytes \<and> length bytes = 32)"
  by (cases "hex_decode x (pd_shared_secret_hex t)") (auto simp: ticket_validate_def)

lemma created_ticket:
  assumes "ticket_create x secret now profile endpoint ttl = Inr t"
  shows "plus_seconds x now ttl = Some (pd_expires_at t)" "0 < ttl" "pd_schema_version t = 1"
    "pd_device_id t = lp_device_id profile" "pd_shared_secret_hex t = hex_encode x secret"
    "pd_identity_public_hex t = lp_identity_public_hex profile" "pd_endpoint t = endpoint"
  using assms by (auto simp: ticket_create_def and_then_Inr_iff split: if_splits)

lemma accept_ticket_cases:
  "accept_ticket x now trusted_now t doc =
     (case ticket_validate x now t of
        Inl e \<Rightarrow> (Inl e, doc)
      | Inr _ \<Rightarrow> (Inr (), doc\<lparr>ps_peers := replace_or_push
         \<lparr>tp_device_id = pd_device_id t, tp_device_name = pd_device_name t,
          tp_endpoint = pd_endpoint t, tp_identity_public_hex = pd_identity_public_hex t,
          tp_shared_secret_hex = pd_shared_secret_hex t, tp_trusted_at = trusted_now\<rparr> (ps_peers doc)\<rparr>))"
  by (simp add: accept_ticket_def bind_op_def split: sum.split)

subsection \<open>The peer store on disk\<close>

lemma peer_store_write_cases:
  assumes "path_with_extension path ''json.tmp'' \<noteq> path"
    and "peer_store_write f j path doc d = (r, d')"
  shows "dk_files d' path = (case r of Inl _ \<Rightarrow> dk_files d path
     | Inr _ \<Rightarrow> (case to_vec_pretty j doc of Inl _ \<Rightarrow> None | Inr bytes \<Rightarrow> Some bytes))
    \<and> (r = Inr () \<longrightarrow> is_ok (to_vec_pretty j doc))"
proof (cases "to_vec_pretty j doc")
  case (Inl e)
  then have "d' = d" "\<not> is_ok r" using assms(2)
    by (auto simp: peer_store_write_def bind_op_def map_op_err_def fs_create_dir_all_def
        Let_def split: option.splits)
  then show ?thesis by (cases r) simp_all
next
  case (Inr bytes)
  with assms show ?thesis
    by (auto simp: peer_store_write_def bind_op_def map_op_err_def fs_create_dir_all_def
        fs_write_def fs_rename_def Let_def split: option.splits)
qed

text \<open>
  Only documents of the current schema are read back, so the store is a document store for
  those; the agent never writes another version.
\<close>

definition peer_store_write_current ::
  "io_faults \<Rightarrow> peer_store_document json_codec \<Rightarrow> string \<Rightarrow> trusted_peer_record list
     \<Rightarrow> (disk, peer_store_error, unit) stateful" where
  "peer_store_write_current f j path peers =
     peer_store_write f j path \<lparr>ps_schema_version = 1, ps_peers = peers\<rparr>"

definition peer_store_peers ::
  "io_faults \<Rightarrow> peer_store_document json_codec \<Rightarrow> string \<Rightarrow> disk
     \<Rightarrow> peer_store_error + trusted_peer_record list" where
  "peer_store_peers f j path d =
     and_then (peer_store_read_or_default f j path d) (\<lambda>document. Inr (ps_peers document))"

interpretation peer_doc: document_store "peer_store_write_current f j path" "peer_store_peers f j path"
    path "json_laws j \<and> read_fault f path = None \<and> path_with_extension path ''json.tmp'' \<noteq> path"
  for f j path
proof unfold_locales
  fix peers d d'
  assume h: "json_laws j \<and> read_fault f path = None \<and> path_with_extension path ''json.tmp'' \<noteq> path"
    and w: "peer_store_write_current f j path peers d = (Inr (), d')"
  from peer_store_write_cases [of path f j _ d "Inr ()" d'] h w obtain bytes where
    "to_vec_pretty j \<lparr>ps_schema_version = 1, ps_peers = peers\<rparr> = Inr bytes" "dk_files d' path = Some bytes"
    by (auto simp: peer_store_write_current_def is_ok_iff)
  with h show "peer_store_peers f j path d' = Inr peers"
    by (auto simp: peer_store_peers_def peer_store_read_or_default_def fs_read_def json_laws_def)
next
  fix peers d e d'
  assume h: "json_laws j \<and> read_fault f path = None \<and> path_with_extension path ''json.tmp'' \<noteq> path"
    and w: "peer_store_write_current f j path peers d = (Inl e, d')"
  with peer_store_write_cases [of path f j _ d "Inl e" d'] show "dk_files d' path = dk_files d path"
    by (simp add: peer_store_write_current_def)
next
  fix d d' :: disk
  assume same: "dk_files d path = dk_files d' path"
  then have "fs_read f path d = fs_read f path d'"
    by (simp add: fs_read_def split: option.split)
  with same show "peer_store_peers f j path d = peer_store_peers f j path d'"
    by (simp add: peer_store_peers_def peer_store_read_or_default_def)
qed

section \<open>The signed payload\<close>

lemma newline_not_digit: "newline \<notin> set (show_int n)"
proof -
  have "newline \<notin> set (show_nat k)" for k
    using show_nat_digits [of k] by (auto simp: list_all_iff is_digit_def newline_def byte_of_def)
  then show ?thesis by (simp add: show_int_def newline_def)
qed

lemma canonical_payload_fields:
  assumes "newline \<notin> set verb" "newline \<notin> set path" "newline \<notin> set device" "newline \<notin> set body_hash"
  shows "split_on newline (canonical_payload_with_body_hash_hex verb path device t body_hash)
           = [verb, path, device, show_int t, body_hash]"
  unfolding canonical_payload_with_body_hash_hex_def
  using assms newline_not_digit [of t] by (intro split_join) auto

section \<open>Properties\<close>


definition sample_agent_externals :: agent_externals where
  "sample_agent_externals =
     \<lparr>unix_timestamp = (\<lambda>d. if i64_range d then d else 0), from_unix_timestamp = Inr,
      blake3_hex = (\<lambda>bytes. bytes), block_hashes_json = (\<lambda>_. Inr ''[]''), hex_encode = (\<lambda>b. b), hex_decode = Inr, sha256 = (\<lambda>b. b),
      hmac_sha256 = (\<lambda>key payload. Some (key @ payload)), plus_seconds = (\<lambda>d s. Some (d + s)),
      blake3_derive_key = (\<lambda>label key. key),
      aead_encrypt = (\<lambda>key nonce aad text. Some (text, replicate 16 CHR ''t'')),
      aead_decrypt = (\<lambda>key nonce aad text tag. if tag = replicate 16 CHR ''t'' then Some text else None)\<rparr>"

definition sample_profile :: local_device_profile where
  "sample_profile = \<lparr>lp_device_id = DeviceId ''a'', lp_device_name = DeviceName ''laptop'',
     lp_created_at = 0, lp_local_api_token_hex = ''t'', lp_identity_public_hex = ''p'',
     lp_identity_secret_hex = ''s''\<rparr>"

lemma sample_hex_laws: "hex_laws sample_agent_externals"
  by (simp add: hex_laws_def sample_agent_externals_def)


text \<open>
  The trust document survives failing writes: after any sequence of stores the peers
  that are read are those of the last store that succeeded, or those that were there before.
\<close>

theorem peer_store_survives_writes:
  assumes "json_laws j" and "read_fault f path = None"
    and "path_with_extension path ''json.tmp'' \<noteq> path"
    and "run_writes (peer_store_write_current f j path) peer_lists d = (written, d')"
  shows "peer_store_peers f j path d'
    = (if written = [] then peer_store_peers f j path d else Inr (last written))"
  using peer_doc.read_after_writes [of j f path peer_lists d written d'] assms by simp

definition sample_peer_codec :: "peer_store_document json_codec" where
  "sample_peer_codec = \<lparr>to_vec_pretty = (\<lambda>doc. if ps_peers doc = [] \<and> ps_schema_version doc = 1
       then Inr ''[]'' else Inl ''too long''),
     from_slice = (\<lambda>bytes. Inr \<lparr>ps_schema_version = 1, ps_peers = []\<rparr>)\<rparr>"

theorem peer_store_survives_writes_witness:
  "peer_store_peers no_faults sample_peer_codec ''/p/peers.json''
     (snd (run_writes (peer_store_write_current no_faults sample_peer_codec ''/p/peers.json'')
        [[]] \<lparr>dk_files = \<lambda>_. None\<rparr>)) = Inr []"
proof -
  let ?run = "run_writes (peer_store_write_current no_faults sample_peer_codec ''/p/peers.json'')
      [[]] \<lparr>dk_files = \<lambda>_. None\<rparr>"
  have "fst ?run = [[]]" by code_simp
  then have r: "?run = ([[]], snd ?run)" by (metis prod.collapse)
  have "json_laws sample_peer_codec"
    by (auto simp: json_laws_def sample_peer_codec_def split: if_splits)
  moreover have "read_fault no_faults ''/p/peers.json'' = None" by code_simp
  moreover have "path_with_extension ''/p/peers.json'' ''json.tmp'' \<noteq> ''/p/peers.json''" by code_simp
  ultimately show ?thesis using peer_store_survives_writes [OF _ _ _ r] by simp
qed

text \<open>
  A request signed with a secret verifies with that secret for the same method, path,
  device, time and body.
\<close>

theorem signed_request_verifies:
  assumes "hex_laws x" and "sign_request x verb path device t body secret_hex = Inr signature"
  shows "verify_request_signature x signature verb path device t body secret_hex = Inr ()"
  using assms
  by (auto simp: sign_request_def sign_request_with_body_hash_hex_def verify_request_signature_def
      verify_request_signature_with_body_hash_hex_def and_then_Inr_iff hex_laws_def)

theorem signed_request_verifies_witness:
  "\<exists>signature. sign_request sample_agent_externals ''POST'' ''/presence'' ''device'' 1 ''{}'' ''k'' = Inr signature
     \<and> verify_request_signature sample_agent_externals signature ''POST'' ''/presence'' ''device'' 1 ''{}'' ''k'' = Inr ()"
proof -
  have "is_ok (sign_request sample_agent_externals ''POST'' ''/presence'' ''device'' 1 ''{}'' ''k'')" by code_simp
  then obtain signature where
    s: "sign_request sample_agent_externals ''POST'' ''/presence'' ''device'' 1 ''{}'' ''k'' = Inr signature"
    by (auto simp: is_ok_iff)
  from signed_request_verifies [OF sample_hex_laws s] s show ?thesis by blast
qed

text \<open>
  A signature binds every field of the request. The signed payloads of two requests
  whose fields contain no line break are equal only if method, path, device, time and body
  hash are all equal, so a signature accepted for another request needs a collision of the
  MAC itself.
\<close>

theorem signed_payload_binds_fields:
  assumes "newline \<notin> set verb" "newline \<notin> set path" "newline \<notin> set device" "newline \<notin> set hash"
    and "newline \<notin> set verb'" "newline \<notin> set path'" "newline \<notin> set device'" "newline \<notin> set hash'"
    and "canonical_payload_with_body_hash_hex verb path device t hash
          = canonical_payload_with_body_hash_hex verb' path' device' t' hash'"
  shows "verb = verb' \<and> path = path' \<and> device = device' \<and> t = t' \<and> hash = hash'"
proof -
  have "[verb, path, device, show_int t, hash] = [verb', path', device', show_int t', hash']"
    using arg_cong [OF assms(9), of "split_on newline"]
    by (simp only: canonical_payload_fields [OF assms(1-4)] canonical_payload_fields [OF assms(5-8)])
  then show ?thesis by (simp add: show_int_inj)
qed

theorem signed_payload_binds_fields_witness:
  "canonical_payload_with_body_hash_hex ''GET'' ''/a'' ''d'' 12 ''h''
     \<noteq> canonical_payload_with_body_hash_hex ''GET'' ''/a'' ''d'' 13 ''h''"
proof
  assume "canonical_payload_with_body_hash_hex ''GET'' ''/a'' ''d'' 12 ''h''
     = canonical_payload_with_body_hash_hex ''GET'' ''/a'' ''d'' 13 ''h''"
  from signed_payload_binds_fields [OF _ _ _ _ _ _ _ _ this]
  show False by (simp add: newline_def)
qed

end
