(* ===== verification/Peer_Crypto.thy ===== *)
theory Peer_Crypto
  imports Peer_Trust Relative_Paths
begin

text \<open>
  \<open>peer_crypto.rs\<close>: files are encrypted chunk by chunk with an AEAD cipher, a nonce of a
  random prefix and the chunk's index, and associated data that binds the chunk to its
  transfer. The source of an encryption is the sequence of results of its \<open>read\<close> calls,
  since a call may return less than was asked for; the source of a decryption is read with
  \<open>read_exact\<close>, so its bytes suffice. A result carries what the destination contains.
\<close>

section \<open>Definitions\<close>

definition chunk_size :: u64 where
  "chunk_size = 64 * 1024"

definition tag_size :: u64 where
  "tag_size = 16"

definition nonce_prefix_bytes :: nat where
  "nonce_prefix_bytes = 16"

definition encryption_algorithm :: string where
  "encryption_algorithm = ''xchacha20poly1305-blake3-v1''"

record file_cipher_context =
  cx_direction :: string
  cx_path :: relative_path
  cx_content_hash :: string
  cx_plaintext_size :: u64

record cryptographic_file =
  cf_size_bytes :: u64
  cf_content_hash :: string
  cf_nonce_hex :: string

datatype peer_crypto_error =
    CryptoHex string
  | CryptoIo string
  | CryptoInvalidSharedSecret
  | CryptoInvalidNonce
  | CryptoEncrypt
  | CryptoDecrypt
  | InvalidCiphertext
  | CryptoSizeOverflow
  | UnexpectedPlaintextSize u64 u64

text \<open>Faults of the calls other than the source's \<open>read\<close>; writes are numbered.\<close>

record crypto_io =
  ci_open :: "string option"
  ci_create :: "string option"
  ci_write :: "nat \<Rightarrow> string option"
  ci_sync :: "string option"

definition io_result :: "string option \<Rightarrow> peer_crypto_error + unit" where
  "io_result fault = (case fault of None \<Rightarrow> Inr () | Some msg \<Rightarrow> Inl (CryptoIo msg))"

definition chunk_count :: "u64 \<Rightarrow> u64" where
  "chunk_count plaintext_len =
     (if plaintext_len = 0 then 1
      else plaintext_len div chunk_size + (if plaintext_len mod chunk_size = 0 then 0 else 1))"

definition encrypted_len :: "u64 \<Rightarrow> u64" where
  "encrypted_len plaintext_len =
     saturating_add plaintext_len (saturating_mul (chunk_count plaintext_len) tag_size)"

text \<open>\<open>u64::to_be_bytes\<close>.\<close>

definition be_bytes :: "u64 \<Rightarrow> string" where
  "be_bytes w = map (\<lambda>i. char_of (unat (drop_bit (8 * i) w) mod 256)) [7, 6, 5, 4, 3, 2, 1, 0]"

definition chunk_nonce :: "string \<Rightarrow> u64 \<Rightarrow> string" where
  "chunk_nonce prefix chunk_index = prefix @ be_bytes chunk_index"

definition chunk_aad :: "file_cipher_context \<Rightarrow> u64 \<Rightarrow> string" where
  "chunk_aad cx chunk_index =
     join_with newline [cx_direction cx, path_str (cx_path cx), cx_content_hash cx,
       show_nat (unat (cx_plaintext_size cx)), show_nat (unat chunk_index)]"

definition derive_key :: "'x agent_externals_scheme \<Rightarrow> string \<Rightarrow> peer_crypto_error + string" where
  "derive_key x secret_hex =
     and_then (map_err CryptoHex (hex_decode x secret_hex)) (\<lambda>secret.
       if length secret \<noteq> 32 then Inl CryptoInvalidSharedSecret
       else Inr (blake3_derive_key x ''syncer file transfer encryption v1'' secret))"

definition decode_nonce_prefix :: "'x agent_externals_scheme \<Rightarrow> string \<Rightarrow> peer_crypto_error + string" where
  "decode_nonce_prefix x nonce_hex =
     and_then (map_err CryptoHex (hex_decode x nonce_hex)) (\<lambda>bytes.
       if length bytes = nonce_prefix_bytes then Inr bytes else Inl CryptoInvalidNonce)"

text \<open>Encrypting one chunk and writing it with its tag.\<close>

definition encrypt_chunk ::
  "'x agent_externals_scheme \<Rightarrow> string \<Rightarrow> string \<Rightarrow> file_cipher_context \<Rightarrow> crypto_io \<Rightarrow> u64
     \<Rightarrow> string \<Rightarrow> string \<Rightarrow> peer_crypto_error + string" where
  "encrypt_chunk x key prefix cx io chunk_index chunk out =
     and_then (ok_or CryptoEncrypt
       (aead_encrypt x key (chunk_nonce prefix chunk_index) (chunk_aad cx chunk_index) chunk)) (\<lambda>(text, tag).
     and_then (io_result (ci_write io (2 * unat chunk_index))) (\<lambda>_.
     and_then (io_result (ci_write io (2 * unat chunk_index + 1))) (\<lambda>_.
       Inr (out @ text @ tag))))"

text \<open>
  The loop over the results of \<open>read\<close>; the end of the list is the end of the file, where
  \<open>read\<close> returns zero. The accumulators are the bytes processed, the hashed text, the chunk
  index and the output.
\<close>

definition encrypt_end ::
  "'x agent_externals_scheme \<Rightarrow> string \<Rightarrow> string \<Rightarrow> file_cipher_context \<Rightarrow> crypto_io
     \<Rightarrow> u64 \<Rightarrow> string \<Rightarrow> u64 \<Rightarrow> string \<Rightarrow> peer_crypto_error + (u64 \<times> string \<times> string)" where
  "encrypt_end x key prefix cx io processed hashed chunk_index out =
     (if cx_plaintext_size cx \<noteq> 0 \<or> chunk_index \<noteq> 0 then Inr (processed, hashed, out)
      else and_then (encrypt_chunk x key prefix cx io chunk_index [] out) (\<lambda>out'.
        Inr (processed, hashed, out')))"

fun encrypt_loop ::
  "'x agent_externals_scheme \<Rightarrow> string \<Rightarrow> string \<Rightarrow> file_cipher_context \<Rightarrow> crypto_io
     \<Rightarrow> (string + string) list \<Rightarrow> u64 \<Rightarrow> string \<Rightarrow> u64 \<Rightarrow> string
     \<Rightarrow> peer_crypto_error + (u64 \<times> string \<times> string)" where
  "encrypt_loop x key prefix cx io [] processed hashed chunk_index out =
     encrypt_end x key prefix cx io processed hashed chunk_index out"
| "encrypt_loop x key prefix cx io (Inl msg # reads) processed hashed chunk_index out =
     Inl (CryptoIo msg)"
| "encrypt_loop x key prefix cx io (Inr chunk # reads) processed hashed chunk_index out =
     (if chunk = [] then encrypt_end x key prefix cx io processed hashed chunk_index out
      else and_then (encrypt_chunk x key prefix cx io chunk_index chunk out) (\<lambda>out'.
        encrypt_loop x key prefix cx io reads (saturating_add processed (len_u64 chunk))
          (hashed @ chunk) (saturating_add chunk_index 1) out'))"

definition encrypt_file_to_path ::
  "'x agent_externals_scheme \<Rightarrow> crypto_io \<Rightarrow> (string + string) list \<Rightarrow> string \<Rightarrow> string
     \<Rightarrow> file_cipher_context \<Rightarrow> peer_crypto_error + (cryptographic_file \<times> string)" where
  "encrypt_file_to_path x io reads random_prefix secret_hex cx =
     and_then (derive_key x secret_hex) (\<lambda>key.
     and_then (io_result (ci_open io)) (\<lambda>_.
     and_then (io_result (ci_create io)) (\<lambda>_.
     and_then (encrypt_loop x key random_prefix cx io reads 0 [] 0 []) (\<lambda>(processed, hashed, out).
     and_then (io_result (ci_sync io)) (\<lambda>_.
       if processed \<noteq> cx_plaintext_size cx
       then Inl (UnexpectedPlaintextSize (cx_plaintext_size cx) processed)
       else Inr (\<lparr>cf_size_bytes = encrypted_len processed, cf_content_hash = blake3_hex x hashed,
                  cf_nonce_hex = hex_encode x random_prefix\<rparr>, out))))))"

text \<open>\<open>read_exact\<close>.\<close>

definition read_exact :: "u64 \<Rightarrow> string \<Rightarrow> peer_crypto_error + (string \<times> string)" where
  "read_exact n input =
     (if length input < unat n then Inl (CryptoIo ''failed to fill whole buffer'')
      else Inr (take (unat n) input, drop (unat n) input))"

fun decrypt_loop ::
  "'x agent_externals_scheme \<Rightarrow> string \<Rightarrow> string \<Rightarrow> file_cipher_context \<Rightarrow> crypto_io
     \<Rightarrow> nat \<Rightarrow> u64 \<Rightarrow> u64 \<Rightarrow> string \<Rightarrow> string \<Rightarrow> peer_crypto_error + (string \<times> string)" where
  "decrypt_loop x key prefix cx io 0 chunk_index remaining input out = Inr (input, out)"
| "decrypt_loop x key prefix cx io (Suc n) chunk_index remaining input out =
     (let plaintext_len = (if remaining = 0 then 0 else min remaining chunk_size) in
      and_then (read_exact (saturating_add plaintext_len tag_size) input) (\<lambda>(encrypted, rest).
      if length encrypted < unat tag_size then Inl InvalidCiphertext
      else let tag_offset = length encrypted - unat tag_size in
      and_then (ok_or CryptoDecrypt
        (aead_decrypt x key (chunk_nonce prefix chunk_index) (chunk_aad cx chunk_index)
           (take tag_offset encrypted) (drop tag_offset encrypted))) (\<lambda>plain.
      and_then (io_result (ci_write io (unat chunk_index))) (\<lambda>_.
        decrypt_loop x key prefix cx io n (chunk_index + 1)
          (saturating_sub remaining plaintext_len) rest (out @ plain)))))"

definition decrypt_file_to_path ::
  "'x agent_externals_scheme \<Rightarrow> crypto_io \<Rightarrow> string \<Rightarrow> string \<Rightarrow> string
     \<Rightarrow> file_cipher_context \<Rightarrow> peer_crypto_error + (cryptographic_file \<times> string)" where
  "decrypt_file_to_path x io source secret_hex nonce_hex cx =
     and_then (derive_key x secret_hex) (\<lambda>key.
     and_then (decode_nonce_prefix x nonce_hex) (\<lambda>prefix.
     and_then (io_result (ci_open io)) (\<lambda>_.
     and_then (io_result (ci_create io)) (\<lambda>_.
     and_then (decrypt_loop x key prefix cx io (unat (chunk_count (cx_plaintext_size cx))) 0
        (cx_plaintext_size cx) source []) (\<lambda>(rest, out).
     if rest \<noteq> [] then Inl InvalidCiphertext
     else and_then (io_result (ci_sync io)) (\<lambda>_.
       Inr (\<lparr>cf_size_bytes = cx_plaintext_size cx, cf_content_hash = blake3_hex x out,
             cf_nonce_hex = nonce_hex\<rparr>, out)))))))"

text \<open>
  From file to file: a source that is not there fails at its \<open>open\<close>, and a failed cipher
  leaves something in its destination, or nothing.
\<close>

definition cipher_source :: "crypto_io \<Rightarrow> string \<Rightarrow> disk \<Rightarrow> crypto_io \<times> string" where
  "cipher_source io path d =
     (case dk_files d path of
        None \<Rightarrow> (io\<lparr>ci_open := Some ''No such file or directory (os error 2)''\<rparr>, [])
      | Some bytes \<Rightarrow> (io, bytes))"

definition cipher_into ::
  "string option \<Rightarrow> string \<Rightarrow> peer_crypto_error + (cryptographic_file \<times> string)
     \<Rightarrow> (disk, peer_crypto_error, cryptographic_file) stateful" where
  "cipher_into partial target out d =
     (case out of
        Inl e \<Rightarrow> (Inl e, set_file target partial d)
      | Inr (info, bytes) \<Rightarrow> (Inr info, set_file target (Some bytes) d))"

definition encrypt_path ::
  "'x agent_externals_scheme \<Rightarrow> crypto_io \<Rightarrow> string option \<Rightarrow> (string \<Rightarrow> (string + string) list)
     \<Rightarrow> string \<Rightarrow> string \<Rightarrow> string \<Rightarrow> string \<Rightarrow> file_cipher_context
     \<Rightarrow> (disk, peer_crypto_error, cryptographic_file) stateful" where
  "encrypt_path x io partial reads random_prefix source target secret_hex cx d =
     (case cipher_source io source d of (io', bytes) \<Rightarrow>
       cipher_into partial target (encrypt_file_to_path x io' (reads bytes) random_prefix secret_hex cx) d)"

definition decrypt_path ::
  "'x agent_externals_scheme \<Rightarrow> crypto_io \<Rightarrow> string option \<Rightarrow> string \<Rightarrow> string \<Rightarrow> string
     \<Rightarrow> string \<Rightarrow> file_cipher_context \<Rightarrow> (disk, peer_crypto_error, cryptographic_file) stateful" where
  "decrypt_path x io partial source target secret_hex nonce_hex cx d =
     (case cipher_source io source d of (io', bytes) \<Rightarrow>
       cipher_into partial target (decrypt_file_to_path x io' bytes secret_hex nonce_hex cx) d)"

text \<open>
  What the AEAD cipher documents: it encrypts every chunk, the text keeps its length, the
  tag has 16 bytes, decryption with the same key, nonce and data undoes it and never
  changes the length.
\<close>

definition aead_laws :: "'x agent_externals_scheme \<Rightarrow> bool" where
  "aead_laws x \<longleftrightarrow>
     (\<forall>key nonce aad plain. \<exists>text tag. aead_encrypt x key nonce aad plain = Some (text, tag)
        \<and> length text = length plain \<and> length tag = 16
        \<and> aead_decrypt x key nonce aad text tag = Some plain)
     \<and> (\<forall>key nonce aad text tag plain.
          aead_decrypt x key nonce aad text tag = Some plain \<longrightarrow> length plain = length text)"

section \<open>Chunks\<close>

definition no_io_faults :: "crypto_io \<Rightarrow> bool" where
  "no_io_faults io \<longleftrightarrow> ci_open io = None \<and> ci_create io = None \<and> ci_sync io = None
     \<and> ci_write io = (\<lambda>_. None)"

text \<open>What a \<open>read\<close> that always fills its buffer returns, call by call.\<close>

function file_pieces :: "string \<Rightarrow> string list" where
  "file_pieces s = (if s = [] then [] else take 65536 s # file_pieces (drop 65536 s))"
  by pat_completeness auto
termination by (relation "measure length") auto

declare file_pieces.simps [simp del]

lemma file_pieces_Nil [simp]: "file_pieces [] = []"
  by (simp add: file_pieces.simps)

lemma file_pieces_step: "s \<noteq> [] \<Longrightarrow> file_pieces s = take 65536 s # file_pieces (drop 65536 s)"
  by (subst file_pieces.simps) simp

lemma concat_file_pieces: "concat (file_pieces s) = s"
proof (induction s rule: file_pieces.induct)
  case (1 s)
  then show ?case by (cases "s = []") (simp_all add: file_pieces_step)
qed

lemma file_pieces_nonempty: "[] \<notin> set (file_pieces s)"
proof (induction s rule: file_pieces.induct)
  case (1 s)
  then show ?case by (cases "s = []") (simp_all add: file_pieces_step)
qed

lemma chunks_ceiling:
  "(n + 65535) div 65536 = n div 65536 + (if n mod 65536 = 0 then 0 else 1 :: nat)"
proof -
  have r: "n mod 65536 < 65536" by simp
  have "(n + 65535) div 65536 = n div 65536 + (n mod 65536 + 65535) div 65536"
    using div_add1_eq [of n 65535 65536] by simp
  moreover have "(n mod 65536 + 65535) div 65536 = 1" if "n mod 65536 \<noteq> 0"
    using that r by (intro div_nat_eqI) simp_all
  ultimately show ?thesis by simp
qed

lemma chunks_step:
  assumes "0 < (n :: nat)"
  shows "(n - 65536 + 65535) div 65536 + 1 = (n + 65535) div 65536"
proof (cases "65536 \<le> n")
  case True
  then show ?thesis using le_div_geq [of 65536 "n + 65535"] by simp
next
  case False
  with assms have "(n + 65535) div 65536 = 1" by (intro div_nat_eqI) simp_all
  with False show ?thesis by simp
qed

lemma length_file_pieces: "length (file_pieces s) = (length s + 65535) div 65536"
proof (induction s rule: file_pieces.induct)
  case (1 s)
  show ?case
  proof (cases "s = []")
    case False
    with 1 chunks_step [of "length s"] show ?thesis by (simp add: file_pieces_step)
  qed simp
qed

lemma unat_chunk_size: "unat chunk_size = 65536"
  by (simp add: chunk_size_def)

lemma unat_tag_size: "unat tag_size = 16"
  by (simp add: tag_size_def)

lemma unat_chunk_count:
  "unat (chunk_count w) = (if w = 0 then 1 else (unat w + 65535) div 65536)"
proof (cases "w = 0")
  case True
  then show ?thesis by (simp add: chunk_count_def)
next
  case False
  then have pos: "0 < unat w" by (simp add: unat_gt_0)
  have q: "unat (w div chunk_size) = unat w div 65536" and r: "unat (w mod chunk_size) = unat w mod 65536"
    by (simp_all add: unat_div unat_mod unat_chunk_size)
  have lt: "unat w div 65536 < 2 ^ 48" using unat_u64_lt [of w] by simp
  note ceil = chunks_ceiling [of "unat w"]
  have z: "w mod chunk_size = 0 \<longleftrightarrow> unat w mod 65536 = 0"
    using r by (metis unat_eq_zero)
  show ?thesis
  proof (cases "unat w mod 65536 = 0")
    case True
    with False z q ceil show ?thesis by (simp add: chunk_count_def)
  next
    case False2: False
    have "unat (w div chunk_size + 1) = unat w div 65536 + 1"
      using q lt by (simp add: unat_word_ariths)
    with False False2 z ceil show ?thesis by (simp add: chunk_count_def)
  qed
qed

lemma chunk_count_pieces:
  assumes "s \<noteq> []" and "length s = unat w"
  shows "unat (chunk_count w) = length (file_pieces s)"
proof -
  have "w \<noteq> 0" using assms by (metis length_0_conv unat_0)
  with assms show ?thesis by (simp add: unat_chunk_count length_file_pieces)
qed

subsection \<open>Nonces\<close>

lemma be_bytes_value:
  "foldl (\<lambda>n c. 256 * n + byte_of c) 0 (be_bytes w) = unat (w :: u64)"
proof -
  have step: "256 * (n div (256 * k)) + n div k mod 256 = n div k" for n k :: nat
    by (metis div_mult2_eq mult.commute mult_div_mod_eq)
  have "unat w div 72057594037927936 < 256" using unat_u64_lt [of w] by simp
  then show ?thesis
    using step [of "unat w" 1] step [of "unat w" 256] step [of "unat w" 65536]
      step [of "unat w" 16777216] step [of "unat w" 4294967296] step [of "unat w" 1099511627776]
      step [of "unat w" 281474976710656]
    by (simp add: be_bytes_def byte_of_def unat_drop_bit_eq drop_bit_eq_div unat_div)
qed

lemma be_bytes_inj: "be_bytes v = be_bytes w \<longleftrightarrow> v = w"
  by (metis be_bytes_value unsigned_word_eqI word_unat_eq_iff)

section \<open>Encrypting and decrypting in step\<close>

definition encrypted_chunk ::
  "'x agent_externals_scheme \<Rightarrow> string \<Rightarrow> string \<Rightarrow> file_cipher_context \<Rightarrow> nat \<Rightarrow> string \<Rightarrow> string" where
  "encrypted_chunk x key prefix cx n chunk =
     (case aead_encrypt x key (chunk_nonce prefix (of_nat n)) (chunk_aad cx (of_nat n)) chunk of
        None \<Rightarrow> [] | Some (body, tag) \<Rightarrow> body @ tag)"

fun encrypted_chunks ::
  "'x agent_externals_scheme \<Rightarrow> string \<Rightarrow> string \<Rightarrow> file_cipher_context \<Rightarrow> nat \<Rightarrow> string list \<Rightarrow> string" where
  "encrypted_chunks x key prefix cx n [] = []"
| "encrypted_chunks x key prefix cx n (p # ps) =
     encrypted_chunk x key prefix cx n p @ encrypted_chunks x key prefix cx (Suc n) ps"

lemma encrypt_chunk_eq:
  assumes "aead_laws x" and "no_io_faults io"
  shows "encrypt_chunk x key prefix cx io (of_nat n) chunk out
           = Inr (out @ encrypted_chunk x key prefix cx n chunk)"
proof -
  obtain body tag where "aead_encrypt x key (chunk_nonce prefix (of_nat n)) (chunk_aad cx (of_nat n)) chunk
      = Some (body, tag)"
    using assms(1) unfolding aead_laws_def by metis
  with assms(2) show ?thesis
    by (simp add: encrypt_chunk_def encrypted_chunk_def io_result_def no_io_faults_def)
qed

lemma saturating_suc: "Suc n < 2 ^ 64 \<Longrightarrow> saturating_add (of_nat n) 1 = of_nat (Suc n)"
proof -
  assume n: "Suc n < 2 ^ 64"
  then have "unat (of_nat n :: u64) = n" by (simp add: unat_of_nat)
  then have "uint (of_nat n :: u64) = int n" by (simp add: uint_nat)
  with n show ?thesis by (simp add: saturating_add_def add.commute)
qed

lemma of_nat_unat_u64: "of_nat (unat (w :: u64)) = w"
  by simp

lemma saturating_add_len:
  assumes "m + length p < 2 ^ 64"
  shows "saturating_add (of_nat m) (len_u64 p) = of_nat (m + length p)"
proof -
  from assms have "unat (saturating_add (of_nat m) (len_u64 p)) = m + length p"
    by (simp add: u64_simps unat_of_nat len_u64_def)
  then show ?thesis by (metis of_nat_unat_u64)
qed

lemma encrypt_loop_full:
  assumes "aead_laws x" and "no_io_faults io" and "cx_plaintext_size cx \<noteq> 0"
    and "[] \<notin> set ps" and "n + length ps < 2 ^ 64" and "m + length (concat ps) < 2 ^ 64"
    and "n \<noteq> 0 \<or> ps \<noteq> []"
  shows "encrypt_loop x key prefix cx io (map Inr ps) (of_nat m) hashed (of_nat n) out
      = Inr (of_nat (m + length (concat ps)), hashed @ concat ps, out @ encrypted_chunks x key prefix cx n ps)"
  using assms(4-)
proof (induction ps arbitrary: n m hashed out)
  case Nil
  then show ?case using assms(3) by (simp add: encrypt_end_def)
next
  case (Cons p ps)
  then have lens: "Suc n + length ps < 2 ^ 64" "m + length p < 2 ^ 64"
    "m + length p + length (concat ps) < 2 ^ 64" and p: "p \<noteq> []" by auto
  have "encrypt_loop x key prefix cx io (map Inr ps) (of_nat (m + length p)) (hashed @ p)
       (of_nat (Suc n)) (out @ encrypted_chunk x key prefix cx n p)
     = Inr (of_nat (m + length p + length (concat ps)), (hashed @ p) @ concat ps,
         (out @ encrypted_chunk x key prefix cx n p) @ encrypted_chunks x key prefix cx (Suc n) ps)"
    by (rule Cons.IH) (use Cons.prems lens in auto)
  moreover have "saturating_add (of_nat m) (len_u64 p) = of_nat (m + length p)"
    using lens(2) by (rule saturating_add_len)
  moreover have "saturating_add (of_nat n) 1 = of_nat (Suc n)"
    using lens(1) by (intro saturating_suc) linarith
  ultimately show ?case using p
    by (simp add: encrypt_chunk_eq [OF assms(1,2)] ac_simps del: of_nat_add of_nat_Suc)
qed

lemma encrypted_chunk_parts:
  assumes "aead_laws x"
  obtains body tag where
    "encrypted_chunk x key prefix cx n chunk = body @ tag" "length body = length chunk" "length tag = 16"
    "aead_decrypt x key (chunk_nonce prefix (of_nat n)) (chunk_aad cx (of_nat n)) body tag = Some chunk"
proof -
  obtain body tag where "aead_encrypt x key (chunk_nonce prefix (of_nat n)) (chunk_aad cx (of_nat n)) chunk
      = Some (body, tag)" "length body = length chunk" "length tag = 16"
    "aead_decrypt x key (chunk_nonce prefix (of_nat n)) (chunk_aad cx (of_nat n)) body tag = Some chunk"
    using assms unfolding aead_laws_def by metis
  then show ?thesis by (intro that) (simp_all add: encrypted_chunk_def)
qed

text \<open>One step of the decryption on a chunk of the expected length.\<close>

lemma decrypt_step:
  assumes "aead_laws x" and "no_io_faults io"
    and "length chunk = min (unat remaining) 65536"
  shows "decrypt_loop x key prefix cx io (Suc k) (of_nat n) remaining
           (encrypted_chunk x key prefix cx n chunk @ rest) out
    = decrypt_loop x key prefix cx io k (of_nat (Suc n))
           (of_nat (unat remaining - length chunk)) rest (out @ chunk)"
proof -
  obtain body tag where parts: "encrypted_chunk x key prefix cx n chunk = body @ tag"
    "length body = length chunk" "length tag = 16"
    "aead_decrypt x key (chunk_nonce prefix (of_nat n)) (chunk_aad cx (of_nat n)) body tag = Some chunk"
    using assms(1) by (rule encrypted_chunk_parts)
  define len where "len = (if remaining = 0 then 0 else min remaining chunk_size)"
  have len: "unat len = length chunk"
    using assms(3) by (auto simp: len_def unat_chunk_size min_def word_le_nat_alt)
  then have "unat (saturating_add len tag_size) = length (body @ tag)"
    using parts(2,3) assms(3) by (simp add: u64_simps unat_tag_size)
  then have rd: "read_exact (saturating_add len tag_size) (body @ tag @ rest) = Inr (body @ tag, rest)"
    by (simp add: read_exact_def)
  have rem: "saturating_sub remaining len = of_nat (unat remaining - length chunk)"
    by (metis len unat_saturating_sub of_nat_unat_u64)
  show ?thesis
    using parts rd rem assms(2)
    by (simp add: Let_def len_def [symmetric] unat_tag_size io_result_def no_io_faults_def add.commute)
qed

lemma decrypt_loop_full:
  assumes "aead_laws x" and "no_io_faults io" and "length s < 2 ^ 64"
  shows "decrypt_loop x key prefix cx io (length (file_pieces s)) (of_nat n) (of_nat (length s))
      (encrypted_chunks x key prefix cx n (file_pieces s) @ rest) out = Inr (rest, out @ s)"
  using assms(3)
proof (induction s arbitrary: n out rule: file_pieces.induct)
  case (1 s)
  show ?case
  proof (cases "s = []")
    case False
    let ?p = "take 65536 s" and ?q = "drop 65536 s"
    have "length ?p = min (unat (of_nat (length s) :: u64)) 65536"
      using 1(2) by (simp add: unat_of_nat)
    note step = decrypt_step [OF assms(1,2) this]
    have "unat (of_nat (length s) :: u64) - length ?p = length ?q"
      using 1(2) by (simp add: unat_of_nat)
    with step 1(1) [OF False] 1(2) False show ?thesis
      by (simp add: file_pieces_step del: of_nat_Suc)
  qed simp
qed

section \<open>Lengths of what is accepted\<close>

lemma decrypt_loop_lengths:
  assumes "aead_laws x"
    and "decrypt_loop x key prefix cx io k idx remaining input out = Inr (rest, plain)"
  shows "length input = length rest + min (unat remaining) (k * 65536) + 16 * k
    \<and> length plain = length out + min (unat remaining) (k * 65536)"
  using assms(2)
proof (induction k arbitrary: idx remaining input out)
  case 0
  then show ?case by simp
next
  case (Suc k)
  define len where "len = (if remaining = 0 then 0 else min remaining chunk_size)"
  have len: "unat len = min (unat remaining) 65536"
    by (auto simp: len_def min_def word_le_nat_alt unat_chunk_size)
  then have total: "unat (saturating_add len tag_size) = min (unat remaining) 65536 + 16"
    by (simp add: u64_simps unat_tag_size)
  have rem: "unat (saturating_sub remaining len) = unat remaining - min (unat remaining) 65536"
    by (simp add: u64_simps len)
  from Suc.prems obtain enc input' body where
    rd: "read_exact (saturating_add len tag_size) input = Inr (enc, input')"
    and dec: "aead_decrypt x key (chunk_nonce prefix idx) (chunk_aad cx idx)
        (take (length enc - 16) enc) (drop (length enc - 16) enc) = Some body"
    and rest: "decrypt_loop x key prefix cx io k (idx + 1) (saturating_sub remaining len) input' (out @ body)
        = Inr (rest, plain)"
    by (auto simp: Let_def len_def and_then_Inr_iff unat_tag_size split: if_splits)
  from rd total have enc: "length enc = min (unat remaining) 65536 + 16" "length input = length enc + length input'"
    by (auto simp: read_exact_def split: if_splits)
  moreover have "length body = length (take (length enc - 16) enc)"
    using assms(1) dec unfolding aead_laws_def by blast
  ultimately have "length body = min (unat remaining) 65536" by simp
  with Suc.IH [OF rest] enc rem show ?case by (simp add: min_def) linarith
qed

lemma chunk_count_covers: "unat w \<le> unat (chunk_count w) * 65536"
proof -
  have "n \<le> (n + 65535) div 65536 * 65536" for n :: nat
  proof (cases "n mod 65536 = 0")
    case True
    then have "n div 65536 * 65536 = n" by (intro dvd_div_mult_self) (rule mod_0_imp_dvd)
    with True show ?thesis by (simp add: chunks_ceiling)
  next
    case False
    with dividend_less_div_times [of 65536 n] show ?thesis by (simp add: chunks_ceiling)
  qed
  then show ?thesis by (simp add: unat_chunk_count)
qed

lemma split_on_append_lines: "split_on c (a @ c # b) = split_on c a @ split_on c b"
  by (rule split_on_append)

lemma chunk_aad_lines:
  assumes "newline \<notin> set (cx_direction cx)" and "newline \<notin> set (cx_content_hash cx)"
  shows "split_on newline (chunk_aad cx i) = cx_direction cx # split_on newline (path_str (cx_path cx))
    @ [cx_content_hash cx, show_nat (unat (cx_plaintext_size cx)), show_nat (unat i)]"
proof -
  have "newline \<notin> set (show_nat n)" for n
    using show_nat_digits [of n] by (auto simp: list_all_iff is_digit_def newline_def byte_of_def)
  with assms show ?thesis
    by (simp add: chunk_aad_def split_on_append_sep split_on_append split_on_single)
qed

lemma decrypted_file_lengths:
  assumes "aead_laws x" and "decrypt_file_to_path x io source secret_hex nonce_hex cx = Inr (f, plain)"
  shows "length plain = unat (cx_plaintext_size cx)
    \<and> length source = unat (cx_plaintext_size cx) + 16 * unat (chunk_count (cx_plaintext_size cx))
    \<and> cf_content_hash f = blake3_hex x plain"
proof -
  from assms(2) obtain key prefix where
    "decrypt_loop x key prefix cx io (unat (chunk_count (cx_plaintext_size cx))) 0
       (cx_plaintext_size cx) source [] = Inr ([], plain)" and "cf_content_hash f = blake3_hex x plain"
    by (auto simp: decrypt_file_to_path_def and_then_Inr_iff split: if_splits)
  with decrypt_loop_lengths [OF assms(1) this(1)] chunk_count_covers [of "cx_plaintext_size cx"]
  show ?thesis by simp
qed

text \<open>The ciphers change their destination only.\<close>

lemma encrypt_path_frame:
  "q \<noteq> target \<Longrightarrow> dk_files (snd (encrypt_path x io partial reads pre source target secret_hex cx d)) q = dk_files d q"
  by (auto simp: encrypt_path_def cipher_into_def split: prod.split sum.split)

lemma decrypt_path_frame:
  "q \<noteq> target \<Longrightarrow> dk_files (snd (decrypt_path x io partial source target secret_hex nonce_hex cx d)) q = dk_files d q"
  by (auto simp: decrypt_path_def cipher_into_def split: prod.split sum.split)

lemma decrypt_path_Inr:
  assumes "decrypt_path x io partial source target secret_hex nonce_hex cx d = (Inr f, d')" and "aead_laws x"
  shows "\<exists>plain. d' = set_file target (Some plain) d \<and> length plain = unat (cx_plaintext_size cx)
    \<and> cf_content_hash f = blake3_hex x plain \<and> cf_size_bytes f = cx_plaintext_size cx"
proof -
  obtain io' bytes where src: "cipher_source io source d = (io', bytes)" by fastforce
  with assms(1) obtain plain where
    dec: "decrypt_file_to_path x io' bytes secret_hex nonce_hex cx = Inr (f, plain)"
    and d': "d' = set_file target (Some plain) d"
    by (auto simp: decrypt_path_def cipher_into_def split: sum.splits)
  have "cf_size_bytes f = cx_plaintext_size cx"
    using dec by (auto simp: decrypt_file_to_path_def and_then_Inr_iff split: if_splits)
  with decrypted_file_lengths [OF assms(2) dec] d' show ?thesis by blast
qed

lemma encrypt_path_Inr:
  assumes "encrypt_path x io partial reads pre source target secret_hex cx d = (Inr f, d')"
  shows "\<exists>cipher. d' = set_file target (Some cipher) d"
  using assms by (auto simp: encrypt_path_def cipher_into_def split: prod.splits sum.splits)

lemma encrypted_file_decrypts:
  assumes "aead_laws x" and "hex_laws x" and "length prefix = 16"
    and "hex_decode x secret_hex = Inr secret" and "length secret = 32"
    and "no_io_faults io" and "no_io_faults io'"
    and "length s < 2 ^ 64" and "cx_plaintext_size cx = of_nat (length s)"
  shows "\<exists>f f' cipher.
    encrypt_file_to_path x io (map Inr (file_pieces s)) prefix secret_hex cx = Inr (f, cipher)
    \<and> cf_content_hash f = blake3_hex x s \<and> cf_size_bytes f = encrypted_len (cx_plaintext_size cx)
    \<and> decrypt_file_to_path x io' cipher secret_hex (cf_nonce_hex f) cx = Inr (f', s)
    \<and> cf_content_hash f' = blake3_hex x s"
proof -
  let ?key = "blake3_derive_key x ''syncer file transfer encryption v1'' secret"
  have key: "derive_key x secret_hex = Inr ?key" using assms(4,5) by (simp add: derive_key_def)
  have nonce: "decode_nonce_prefix x (hex_encode x prefix) = Inr prefix"
    using assms(2,3) by (simp add: decode_nonce_prefix_def hex_laws_def nonce_prefix_bytes_def)
  define ps where "ps = (if s = [] then [[]] else file_pieces s)"
  let ?cipher = "encrypted_chunks x ?key prefix cx 0 ps"
  have size: "unat (cx_plaintext_size cx) = length s" using assms(8,9) by (simp add: unat_of_nat)
  have enc: "encrypt_loop x ?key prefix cx io (map Inr (file_pieces s)) 0 [] 0 []
      = Inr (cx_plaintext_size cx, s, ?cipher)"
  proof (cases "s = []")
    case True
    with assms(9) encrypt_chunk_eq [OF assms(1,6), of _ _ _ 0] show ?thesis
      by (simp add: encrypt_end_def ps_def)
  next
    case False
    have "length (file_pieces s) \<le> length s" unfolding length_file_pieces using False
      by (cases s) (auto simp: chunks_ceiling [of "length s"] simp del: length_0_conv)
    moreover have "cx_plaintext_size cx \<noteq> 0" using size False by auto
    ultimately show ?thesis
      using encrypt_loop_full [OF assms(1,6), where cx = cx and ps = "file_pieces s" and n = 0
          and m = 0 and key = ?key and prefix = prefix and hashed = "[]" and out = "[]"]
        False file_pieces_step [OF False] assms(8,9) file_pieces_nonempty [of s]
      by (simp add: concat_file_pieces ps_def)
  qed
  have dec: "decrypt_loop x ?key prefix cx io' (unat (chunk_count (cx_plaintext_size cx))) 0
      (cx_plaintext_size cx) ?cipher [] = Inr ([], s)"
  proof (cases "s = []")
    case True
    then have z: "cx_plaintext_size cx = 0" using assms(9) by simp
    have "decrypt_loop x ?key prefix cx io' (Suc 0) (of_nat 0) 0
        (encrypted_chunk x ?key prefix cx 0 [] @ []) [] = Inr ([], [])"
      by (subst decrypt_step [OF assms(1,7)]) simp_all
    with True z show ?thesis by (simp add: chunk_count_def ps_def del: decrypt_loop.simps(2))
  next
    case False
    with chunk_count_pieces [OF False, of "cx_plaintext_size cx"] size
      decrypt_loop_full [OF assms(1,7,8), of ?key prefix cx 0 "[]" "[]"] assms(9)
    show ?thesis by (simp add: ps_def)
  qed
  show ?thesis
    using assms(6,7) key nonce enc dec
    by (simp add: encrypt_file_to_path_def decrypt_file_to_path_def io_result_def no_io_faults_def)
qed

section \<open>Properties\<close>

text \<open>
  C28: A transferred file arrives as it was sent: for every content, empty or of any number of
  chunks, whose size is the announced one, encryption with full reads succeeds, and decrypting
  the result with the same secret, nonce and context gives the content and its hash back.
\<close>

theorem file_encryption_roundtrip:
  assumes "aead_laws x" and "hex_laws x" and "length prefix = 16"
    and "hex_decode x secret_hex = Inr secret" and "length secret = 32"
    and "no_io_faults io" and "no_io_faults io'"
    and "length s < 2 ^ 64" and "cx_plaintext_size cx = of_nat (length s)"
  shows "\<exists>f f' cipher.
    encrypt_file_to_path x io (map Inr (file_pieces s)) prefix secret_hex cx = Inr (f, cipher)
    \<and> cf_content_hash f = blake3_hex x s \<and> cf_size_bytes f = encrypted_len (cx_plaintext_size cx)
    \<and> decrypt_file_to_path x io' cipher secret_hex (cf_nonce_hex f) cx = Inr (f', s)
    \<and> cf_content_hash f' = blake3_hex x s"
  by (rule encrypted_file_decrypts [OF assms])

definition sample_context :: "string \<Rightarrow> file_cipher_context" where
  "sample_context s = \<lparr>cx_direction = ''upload'', cx_path = RelativePath ''a'', cx_content_hash = s,
     cx_plaintext_size = len_u64 s\<rparr>"

definition sample_io :: crypto_io where
  "sample_io = \<lparr>ci_open = None, ci_create = None, ci_write = (\<lambda>_. None), ci_sync = None\<rparr>"

lemma sample_aead_laws: "aead_laws sample_agent_externals"
  by (auto simp: aead_laws_def sample_agent_externals_def)

theorem file_encryption_roundtrip_witness:
  "\<exists>f f' cipher. encrypt_file_to_path sample_agent_externals sample_io (map Inr (file_pieces ''hello''))
      (replicate 16 CHR ''n'') (replicate 32 CHR ''k'') (sample_context ''hello'') = Inr (f, cipher)
    \<and> decrypt_file_to_path sample_agent_externals sample_io cipher (replicate 32 CHR ''k'')
        (cf_nonce_hex f) (sample_context ''hello'') = Inr (f', ''hello'')"
proof -
  have "no_io_faults sample_io" by (simp add: no_io_faults_def sample_io_def)
  moreover have "hex_decode sample_agent_externals (replicate 32 CHR ''k'') = Inr (replicate 32 CHR ''k'')"
    by (simp add: sample_agent_externals_def)
  ultimately show ?thesis
    using file_encryption_roundtrip [OF sample_aead_laws sample_hex_laws, of "replicate 16 CHR ''n''"
        "replicate 32 CHR ''k''" "replicate 32 CHR ''k''" sample_io sample_io "''hello''" "sample_context ''hello''"]
    by (auto simp: sample_context_def len_u64_def)
qed

text \<open>
  A ciphertext is accepted only at its exact length: the plaintext has the announced
  size, and the ciphertext is that plus one tag per chunk, so a truncated or extended
  transfer is an error whatever its bytes are.
\<close>

theorem decryption_checks_length:
  assumes "aead_laws x" and "decrypt_file_to_path x io source secret_hex nonce_hex cx = Inr (f, plain)"
  shows "length plain = unat (cx_plaintext_size cx)
    \<and> length source = unat (cx_plaintext_size cx) + 16 * unat (chunk_count (cx_plaintext_size cx))
    \<and> cf_content_hash f = blake3_hex x plain"
  using assms by (rule decrypted_file_lengths)

theorem decryption_checks_length_witness:
  "\<exists>f plain. decrypt_file_to_path sample_agent_externals sample_io (''hello'' @ replicate 16 CHR ''t'')
      (replicate 32 CHR ''k'') (replicate 16 CHR ''n'') (sample_context ''hello'') = Inr (f, plain)
    \<and> length plain = 5"
proof -
  have "is_ok (decrypt_file_to_path sample_agent_externals sample_io (''hello'' @ replicate 16 CHR ''t'')
      (replicate 32 CHR ''k'') (replicate 16 CHR ''n'') (sample_context ''hello''))" by code_simp
  then obtain f plain where d: "decrypt_file_to_path sample_agent_externals sample_io
      (''hello'' @ replicate 16 CHR ''t'') (replicate 32 CHR ''k'') (replicate 16 CHR ''n'')
      (sample_context ''hello'') = Inr (f, plain)" by (auto simp: is_ok_iff)
  from decryption_checks_length [OF sample_aead_laws d] d show ?thesis
    by (auto simp: sample_context_def len_u64_def)
qed

text \<open>
  No nonce is used twice in a file and every chunk is bound to its transfer: equal
  nonces under one prefix have equal chunk indices, and equal associated data means the same
  direction, path, hash, size and index, even for paths with line breaks.
\<close>

theorem chunks_are_bound:
  assumes "newline \<notin> set (cx_direction cx)" "newline \<notin> set (cx_content_hash cx)"
    and "newline \<notin> set (cx_direction cx')" "newline \<notin> set (cx_content_hash cx')"
  shows "(chunk_nonce prefix i = chunk_nonce prefix j \<longleftrightarrow> i = j)
    \<and> (chunk_aad cx i = chunk_aad cx' j \<longleftrightarrow> i = j \<and> cx_direction cx = cx_direction cx'
        \<and> path_str (cx_path cx) = path_str (cx_path cx') \<and> cx_content_hash cx = cx_content_hash cx'
        \<and> cx_plaintext_size cx = cx_plaintext_size cx')"
proof -
  have "i = j \<and> cx_direction cx = cx_direction cx' \<and> path_str (cx_path cx) = path_str (cx_path cx')
      \<and> cx_content_hash cx = cx_content_hash cx' \<and> cx_plaintext_size cx = cx_plaintext_size cx'"
    if eq: "chunk_aad cx i = chunk_aad cx' j"
  proof -
    from arg_cong [OF eq, of "split_on newline"]
    have "cx_direction cx = cx_direction cx'"
      and lines: "split_on newline (path_str (cx_path cx)) = split_on newline (path_str (cx_path cx'))"
      and "cx_content_hash cx = cx_content_hash cx'"
      and "unat (cx_plaintext_size cx) = unat (cx_plaintext_size cx')" "unat i = unat j"
      unfolding chunk_aad_lines [OF assms(1,2)] chunk_aad_lines [OF assms(3,4)]
      by (auto simp: show_nat_inj)
    moreover from lines have "path_str (cx_path cx) = path_str (cx_path cx')" by (metis join_split)
    ultimately show ?thesis by (simp add: word_unat_eq_iff)
  qed
  moreover have "chunk_nonce prefix i = chunk_nonce prefix j \<longleftrightarrow> i = j"
    by (simp add: chunk_nonce_def be_bytes_inj)
  ultimately show ?thesis by (auto simp: chunk_aad_def)
qed

theorem chunks_are_bound_witness:
  "chunk_aad (sample_context ''h'') 1 \<noteq> chunk_aad (sample_context ''h'') 2
   \<and> chunk_nonce ''p'' 1 \<noteq> chunk_nonce ''p'' 2"
  using chunks_are_bound [of "sample_context ''h''" "sample_context ''h''" "''p''" 1 2]
  by (simp add: sample_context_def newline_def)

text \<open>
  The loop relies on full reads, which \<open>read\<close> does not promise: with one short read in the
  middle of a file the encryption succeeds, and its result cannot be decrypted.
\<close>

lemma short_read_breaks_transfer:
  "(case encrypt_file_to_path sample_agent_externals sample_io [Inr ''he'', Inr ''llo'']
      (replicate 16 CHR ''n'') (replicate 32 CHR ''k'') (sample_context ''hello'') of
      Inl _ \<Rightarrow> False
    | Inr (f, cipher) \<Rightarrow> decrypt_file_to_path sample_agent_externals sample_io cipher
        (replicate 32 CHR ''k'') (cf_nonce_hex f) (sample_context ''hello'') = Inl CryptoDecrypt)"
  by code_simp

end
