(* ===== verification/State_Files.thy ===== *)
theory State_Files
  imports Folder_Limits
begin

text \<open>
  \<open>state_db.rs\<close>, the tables \<open>files\<close> and \<open>skipped_files\<close>: their rows with the column
  types of the schema, the SQL statements as updates of the lists of rows, and the decoding
  of rows into records. \<open>unixepoch()\<close> is the argument \<open>now\<close> of each statement. The state
  machine of a scan (mark, upsert what is seen, finalise) is specified by a locale and
  interpreted on these statements.
\<close>

section \<open>Rows and records\<close>

record file_row =
  fr_path :: string
  fr_kind :: string
  fr_size_bytes :: int
  fr_modified_at_unix :: int
  fr_content_hash :: "string option"
  fr_block_hashes_json :: string
  fr_generation :: int
  fr_device_id :: string
  fr_scan_missing :: int
  fr_sync_state :: string
  fr_updated_at_unix :: int

record skipped_row =
  sk_path :: string
  sk_reason :: string
  sk_size_bytes :: int
  sk_queued_at_unix :: int
  sk_updated_at_unix :: int

record operation_row =
  or_id :: string
  or_path :: string
  or_kind :: string
  or_status :: string
  or_reason :: string
  or_local_size_bytes :: "int option"
  or_remote_size_bytes :: "int option"
  or_local_content_hash :: "string option"
  or_remote_content_hash :: "string option"
  or_remote_device_id :: string
  or_last_error :: "string option"
  or_retry_count :: int
  or_started_at_unix :: "int option"
  or_finished_at_unix :: "int option"
  or_created_at_unix :: int
  or_updated_at_unix :: int

record state_database =
  db_files :: "file_row list"
  db_skipped :: "skipped_row list"
  db_operations :: "operation_row list"

definition empty_database :: state_database where
  "empty_database = \<lparr>db_files = [], db_skipped = [], db_operations = []\<rparr>"

type_synonym 'a db_op = "(state_database, core_error, 'a) stateful"

datatype file_sync_state =
    LocalAvailable
  | UnsynchronizedLocalMissing
  | PendingUploadState
  | PendingDownloadState
  | SkippedFolderLimit

definition file_sync_state_parse :: "string \<Rightarrow> file_sync_state core_result" where
  "file_sync_state_parse value =
     (if value = ''local_available'' then Inr LocalAvailable
      else if value = ''unsynchronized_local_missing'' then Inr UnsynchronizedLocalMissing
      else if value = ''pending_upload'' then Inr PendingUploadState
      else if value = ''pending_download'' then Inr PendingDownloadState
      else if value = ''skipped_folder_limit'' then Inr SkippedFolderLimit
      else Inl (StateDatabaseError (''unknown file sync state '' @ value)))"

datatype skipped_reason = FolderLimitReason

definition skipped_reason_parse :: "string \<Rightarrow> skipped_reason core_result" where
  "skipped_reason_parse value =
     (if value = ''folder_limit'' then Inr FolderLimitReason
      else Inl (StateDatabaseError (''unknown skipped reason '' @ value)))"

record file_record =
  rec_path :: relative_path
  rec_kind :: file_kind
  rec_size_bytes :: u64
  rec_modified_at :: datetime
  rec_content_hash :: "string option"
  rec_generation :: u64
  rec_device_id :: string
  rec_sync_state :: file_sync_state

record skipped_file_record =
  skr_path :: relative_path
  skr_reason :: skipped_reason
  skr_size_bytes :: u64
  skr_queued_at :: datetime

record folder_status =
  fs_indexed_files :: u64
  fs_indexed_bytes :: u64
  fs_local_available :: u64
  fs_unsynchronized_local_missing :: u64
  fs_pending_upload :: u64
  fs_pending_download :: u64
  fs_skipped_folder_limit :: u64

record folder_manifest =
  fm_folder_id :: folder_id
  fm_device_id :: device_id
  fm_generated_at :: datetime
  fm_files :: "file_record list"

text \<open>The \<open>CHECK\<close> constraints of the two tables.\<close>

definition files_check :: "file_row \<Rightarrow> bool" where
  "files_check r \<longleftrightarrow>
     fr_kind r \<in> set [''file'', ''directory''] \<and> 0 \<le> fr_size_bytes r \<and> 0 \<le> fr_generation r
     \<and> fr_scan_missing r \<in> set [0, 1]
     \<and> fr_sync_state r \<in> set [''local_available'', ''unsynchronized_local_missing'',
         ''pending_upload'', ''pending_download'', ''skipped_folder_limit'']"

definition skipped_check :: "skipped_row \<Rightarrow> bool" where
  "skipped_check r \<longleftrightarrow> sk_reason r \<in> set [''folder_limit''] \<and> 0 \<le> sk_size_bytes r"

section \<open>Decoding rows\<close>

definition unix_timestamp_result :: "'x externals_scheme \<Rightarrow> int \<Rightarrow> datetime core_result" where
  "unix_timestamp_result x t = map_err StateDatabaseError (from_unix_timestamp x t)"

definition row_to_file_record :: "'x externals_scheme \<Rightarrow> file_row \<Rightarrow> file_record core_result" where
  "row_to_file_record x row =
     and_then (if fr_kind row = ''file'' then Inr FileK
               else if fr_kind row = ''directory'' then Inr DirectoryK
               else Inl (StateDatabaseError (''unknown file kind '' @ fr_kind row))) (\<lambda>kind.
     and_then (relative_path_parse (fr_path row)) (\<lambda>path.
     and_then (ok_or FileSizeOverflow (u64_of_i64 (fr_size_bytes row))) (\<lambda>size.
     and_then (unix_timestamp_result x (fr_modified_at_unix row)) (\<lambda>modified.
     and_then (ok_or (StateDatabaseError ''negative generation'')
                     (u64_of_i64 (fr_generation row))) (\<lambda>gen.
     and_then (file_sync_state_parse (fr_sync_state row)) (\<lambda>st.
       Inr \<lparr>rec_path = path, rec_kind = kind, rec_size_bytes = size,
            rec_modified_at = modified, rec_content_hash = fr_content_hash row,
            rec_generation = gen, rec_device_id = fr_device_id row,
            rec_sync_state = st\<rparr>))))))"

definition row_to_skipped_file_record ::
  "'x externals_scheme \<Rightarrow> skipped_row \<Rightarrow> skipped_file_record core_result" where
  "row_to_skipped_file_record x row =
     and_then (relative_path_parse (sk_path row)) (\<lambda>path.
     and_then (skipped_reason_parse (sk_reason row)) (\<lambda>reason.
     and_then (ok_or FileSizeOverflow (u64_of_i64 (sk_size_bytes row))) (\<lambda>size.
     and_then (unix_timestamp_result x (sk_queued_at_unix row)) (\<lambda>queued.
       Inr \<lparr>skr_path = path, skr_reason = reason, skr_size_bytes = size,
            skr_queued_at = queued\<rparr>))))"

section \<open>Statements on the file index\<close>

text \<open>The values bound by \<open>upsert_file\<close>, or the conversion error that stops it.\<close>

definition file_row_of_entry ::
  "'x externals_scheme \<Rightarrow> int \<Rightarrow> file_entry \<Rightarrow> file_row core_result" where
  "file_row_of_entry x now entry =
     (let kind = (case fe_kind entry of FileK \<Rightarrow> ''file'' | DirectoryK \<Rightarrow> ''directory'');
          content_hash = map_option hash_hex (fe_content_hash entry)
      in and_then (map_err Json (block_hashes_json x (map block_hex (fe_block_hashes entry)))) (\<lambda>blocks.
         and_then (ok_or FileSizeOverflow (i64_of_u64 (fe_size_bytes entry))) (\<lambda>size.
         and_then (ok_or (StateDatabaseError ''generation exceeded i64'')
                         (i64_of_u64 (fv_generation (fe_version entry)))) (\<lambda>gen.
           Inr \<lparr>fr_path = path_str (fe_path entry), fr_kind = kind, fr_size_bytes = size,
                fr_modified_at_unix = unix_timestamp x (fe_modified_at entry),
                fr_content_hash = content_hash, fr_block_hashes_json = blocks,
                fr_generation = gen,
                fr_device_id = device_id_text (fv_device_id (fe_version entry)),
                fr_scan_missing = 0, fr_sync_state = ''local_available'',
                fr_updated_at_unix = now\<rparr>))))"

text \<open>\<open>ON CONFLICT(path) DO UPDATE SET ..\<close>.\<close>

definition files_merge :: "file_row \<Rightarrow> file_row \<Rightarrow> file_row" where
  "files_merge old excluded = old\<lparr>
     fr_kind := fr_kind excluded,
     fr_size_bytes := fr_size_bytes excluded,
     fr_modified_at_unix := fr_modified_at_unix excluded,
     fr_content_hash := fr_content_hash excluded,
     fr_block_hashes_json := fr_block_hashes_json excluded,
     fr_generation := fr_generation excluded,
     fr_device_id := fr_device_id excluded,
     fr_scan_missing := 0,
     fr_sync_state := ''local_available'',
     fr_updated_at_unix := fr_updated_at_unix excluded\<rparr>"

definition files_upsert :: "file_row \<Rightarrow> state_database \<Rightarrow> state_database" where
  "files_upsert row db = db\<lparr>db_files := upsert_row fr_path files_merge row (db_files db)\<rparr>"

definition upsert_file :: "'x externals_scheme \<Rightarrow> int \<Rightarrow> file_entry \<Rightarrow> unit db_op" where
  "upsert_file x now entry =
     bind_op (lift_result (file_row_of_entry x now entry)) (\<lambda>row. write_op (files_upsert row))"

definition mark_scan_started :: "state_database \<Rightarrow> state_database" where
  "mark_scan_started db = db\<lparr>db_files :=
     update_where (\<lambda>r. fr_sync_state r \<noteq> ''skipped_folder_limit'')
       (\<lambda>r. r\<lparr>fr_scan_missing := 1\<rparr>) (db_files db)\<rparr>"

definition finalize_scan :: "int \<Rightarrow> state_database \<Rightarrow> state_database" where
  "finalize_scan now db = db\<lparr>db_files :=
     update_where (\<lambda>r. fr_scan_missing r = 1)
       (\<lambda>r. r\<lparr>fr_sync_state := ''unsynchronized_local_missing'', fr_updated_at_unix := now\<rparr>)
       (db_files db)\<rparr>"

definition list_missing_after_scan ::
  "'x externals_scheme \<Rightarrow> state_database \<Rightarrow> file_record list core_result" where
  "list_missing_after_scan x db =
     collect_results (row_to_file_record x)
       (sort_key fr_path (filter (\<lambda>r. fr_sync_state r = ''unsynchronized_local_missing'') (db_files db)))"

definition list_files :: "'x externals_scheme \<Rightarrow> state_database \<Rightarrow> file_record list core_result" where
  "list_files x db = collect_results (row_to_file_record x) (sort_key fr_path (db_files db))"

definition mark_file_deleted_locally :: "int \<Rightarrow> relative_path \<Rightarrow> state_database \<Rightarrow> state_database" where
  "mark_file_deleted_locally now path db = db\<lparr>db_files :=
     update_where (\<lambda>r. fr_path r = path_str path)
       (\<lambda>r. r\<lparr>fr_sync_state := ''unsynchronized_local_missing'', fr_modified_at_unix := now\<rparr>)
       (db_files db)\<rparr>"

definition forget_file :: "relative_path \<Rightarrow> state_database \<Rightarrow> state_database" where
  "forget_file path db = db\<lparr>db_files := delete_where (\<lambda>r. fr_path r = path_str path) (db_files db)\<rparr>"

section \<open>Skipped files, status and manifest\<close>

definition skipped_merge :: "skipped_row \<Rightarrow> skipped_row \<Rightarrow> skipped_row" where
  "skipped_merge old excluded = old\<lparr>
     sk_reason := sk_reason excluded,
     sk_size_bytes := sk_size_bytes excluded,
     sk_queued_at_unix := sk_queued_at_unix excluded,
     sk_updated_at_unix := sk_updated_at_unix excluded\<rparr>"

definition record_skipped_folder_limit ::
  "'x externals_scheme \<Rightarrow> int \<Rightarrow> pending_transfer \<Rightarrow> unit db_op" where
  "record_skipped_folder_limit x now transfer =
     bind_op (lift_result (ok_or FileSizeOverflow (i64_of_u64 (pt_size_bytes transfer)))) (\<lambda>size.
       write_op (\<lambda>db. db\<lparr>db_skipped := upsert_row sk_path skipped_merge
         \<lparr>sk_path = path_str (pt_path transfer), sk_reason = ''folder_limit'',
          sk_size_bytes = size,
          sk_queued_at_unix = unix_timestamp x (pt_queued_at transfer),
          sk_updated_at_unix = now\<rparr> (db_skipped db)\<rparr>))"

definition list_skipped_files ::
  "'x externals_scheme \<Rightarrow> state_database \<Rightarrow> skipped_file_record list core_result" where
  "list_skipped_files x db =
     collect_results (row_to_skipped_file_record x)
       (sort_key sk_queued_at_unix (sort_key sk_path (db_skipped db)))"

text \<open>One iteration of the counting loop of \<open>folder_status\<close>.\<close>

fun count_file_state :: "folder_status \<Rightarrow> file_sync_state \<Rightarrow> folder_status" where
  "count_file_state s LocalAvailable =
     s\<lparr>fs_local_available := saturating_add (fs_local_available s) 1\<rparr>"
| "count_file_state s UnsynchronizedLocalMissing =
     s\<lparr>fs_unsynchronized_local_missing := saturating_add (fs_unsynchronized_local_missing s) 1\<rparr>"
| "count_file_state s PendingUploadState =
     s\<lparr>fs_pending_upload := saturating_add (fs_pending_upload s) 1\<rparr>"
| "count_file_state s PendingDownloadState =
     s\<lparr>fs_pending_download := saturating_add (fs_pending_download s) 1\<rparr>"
| "count_file_state s SkippedFolderLimit =
     s\<lparr>fs_skipped_folder_limit := saturating_add (fs_skipped_folder_limit s) 1\<rparr>"

text \<open>
  \<open>indexed_bytes\<close> is a plain \<open>sum()\<close> of \<open>u64\<close>s: it wraps around in a release build
  (a debug build would panic).
\<close>

definition folder_status :: "'x externals_scheme \<Rightarrow> state_database \<Rightarrow> folder_status core_result" where
  "folder_status x db =
     and_then (list_files x db) (\<lambda>files.
     and_then (list_skipped_files x db) (\<lambda>skipped.
       Inr (foldl count_file_state
         \<lparr>fs_indexed_files = len_u64 files,
          fs_indexed_bytes = sum_list (map rec_size_bytes files),
          fs_local_available = 0, fs_unsynchronized_local_missing = 0,
          fs_pending_upload = 0, fs_pending_download = 0,
          fs_skipped_folder_limit = len_u64 skipped\<rparr>
         (map rec_sync_state files))))"

definition export_manifest ::
  "'x externals_scheme \<Rightarrow> datetime \<Rightarrow> folder_id \<Rightarrow> device_id \<Rightarrow> state_database
     \<Rightarrow> folder_manifest core_result" where
  "export_manifest x now_utc fid did db =
     and_then (list_files x db) (\<lambda>files.
       Inr \<lparr>fm_folder_id = fid, fm_device_id = did, fm_generated_at = now_utc, fm_files = files\<rparr>)"

section \<open>The tables keep their constraints\<close>

interpretation files_table: keyed_table fr_path files_merge
  by unfold_locales (simp add: files_merge_def)

interpretation skipped_table: keyed_table sk_path skipped_merge
  by unfold_locales (simp add: skipped_merge_def)

definition files_ok :: "file_row list \<Rightarrow> bool" where
  "files_ok rows \<longleftrightarrow> distinct_keys fr_path rows \<and> list_all files_check rows"

definition skipped_ok :: "skipped_row list \<Rightarrow> bool" where
  "skipped_ok rows \<longleftrightarrow> distinct_keys sk_path rows \<and> list_all skipped_check rows"

lemma files_ok_update_where:
  assumes "files_ok rows" and "\<And>r. fr_path (f r) = fr_path r"
    and "\<And>r. files_check r \<Longrightarrow> files_check (f r)"
  shows "files_ok (update_where p f rows)"
  using assms
  by (auto simp: files_ok_def distinct_keys_update_where list_all_iff table_simps)

lemma file_row_of_entry_check:
  "file_row_of_entry x now e = Inr row \<Longrightarrow>
     files_check row \<and> fr_path row = path_str (fe_path e)
     \<and> fr_scan_missing row = 0 \<and> fr_sync_state row = ''local_available''"
  by (auto simp: file_row_of_entry_def Let_def and_then_Inr_iff files_check_def
      i64_of_u64_range split: file_kind.splits)

lemma files_ok_upsert:
  assumes "files_ok rows" and "files_check new"
  shows "files_ok (upsert_row fr_path files_merge new rows)"
proof -
  have "list_all files_check (upsert_row fr_path files_merge new rows)"
    using assms by (intro files_table.upsert_list_all)
      (auto simp: files_ok_def files_check_def files_merge_def)
  with assms show ?thesis by (simp add: files_ok_def files_table.distinct_upsert)
qed

lemma skipped_ok_upsert:
  assumes "skipped_ok rows" and "skipped_check new"
  shows "skipped_ok (upsert_row sk_path skipped_merge new rows)"
proof -
  have "list_all skipped_check (upsert_row sk_path skipped_merge new rows)"
    using assms by (intro skipped_table.upsert_list_all)
      (auto simp: skipped_ok_def skipped_check_def skipped_merge_def)
  with assms show ?thesis by (simp add: skipped_ok_def skipped_table.distinct_upsert)
qed

lemma files_ok_delete: "files_ok rows \<Longrightarrow> files_ok (delete_where p rows)"
  by (auto simp: files_ok_def distinct_keys_delete_where list_all_iff table_simps)

lemma files_ok_mark: "files_ok (db_files db) \<Longrightarrow> files_ok (db_files (mark_scan_started db))"
  by (auto simp: mark_scan_started_def files_check_def intro: files_ok_update_where)

lemma files_ok_finalize: "files_ok (db_files db) \<Longrightarrow> files_ok (db_files (finalize_scan now db))"
  by (auto simp: finalize_scan_def files_check_def intro: files_ok_update_where)

lemma files_ok_delete_locally:
  "files_ok (db_files db) \<Longrightarrow> files_ok (db_files (mark_file_deleted_locally now p db))"
  by (auto simp: mark_file_deleted_locally_def files_check_def intro: files_ok_update_where)

section \<open>Decoding succeeds on constrained rows\<close>

lemma file_sync_state_parse_ok:
  "files_check r \<Longrightarrow> \<exists>st. file_sync_state_parse (fr_sync_state r) = Inr st"
  by (auto simp: files_check_def file_sync_state_parse_def)

text \<open>
  What the schema cannot promise: that the path still parses and that the timestamp is in
  the range of \<open>OffsetDateTime\<close>.
\<close>

definition file_row_readable :: "'x externals_scheme \<Rightarrow> file_row \<Rightarrow> bool" where
  "file_row_readable x r \<longleftrightarrow>
     files_check r \<and> is_ok (relative_path_parse (fr_path r))
     \<and> is_ok (from_unix_timestamp x (fr_modified_at_unix r))"

lemma row_to_file_record_ok:
  assumes "file_row_readable x r"
  shows "\<exists>rec. row_to_file_record x r = Inr rec"
proof -
  from assms obtain p d st where
    "relative_path_parse (fr_path r) = Inr p"
    "from_unix_timestamp x (fr_modified_at_unix r) = Inr d"
    "file_sync_state_parse (fr_sync_state r) = Inr st"
    "0 \<le> fr_size_bytes r" "0 \<le> fr_generation r" "fr_kind r = ''file'' \<or> fr_kind r = ''directory''"
    using file_sync_state_parse_ok [of r]
    by (auto simp: file_row_readable_def is_ok_iff files_check_def)
  then show ?thesis
    by (auto simp: row_to_file_record_def unix_timestamp_result_def u64_of_i64_def)
qed

lemma list_files_ok:
  assumes "list_all (file_row_readable x) (db_files db)"
  shows "\<exists>fs. list_files x db = Inr fs"
proof -
  have "\<forall>r \<in> set (sort_key fr_path (db_files db)). \<exists>rec. row_to_file_record x r = Inr rec"
    using assms by (auto simp: list_all_iff intro: row_to_file_record_ok)
  then show ?thesis unfolding list_files_def by (rule collect_results_ex)
qed

text \<open>An unreadable row makes the whole listing fail.\<close>

lemma list_files_unreadable:
  assumes "r \<in> set (db_files db)" and "relative_path_parse (fr_path r) = Inl e"
  shows "\<exists>e'. list_files x db = Inl e'"
proof -
  obtain e' where "row_to_file_record x r = Inl e'"
    using assms(2) by (cases "fr_kind r = ''file'' \<or> fr_kind r = ''directory''")
      (auto simp: row_to_file_record_def)
  with assms(1) show ?thesis
    by (auto simp: list_files_def intro: collect_results_error)
qed

lemma list_files_Inr:
  assumes "list_files x db = Inr fs"
  shows "list_all2 (\<lambda>r rec. row_to_file_record x r = Inr rec) (sort_key fr_path (db_files db)) fs"
  using assms by (simp add: list_files_def collect_results_Inr_iff)

lemma list_files_length: "list_files x db = Inr fs \<Longrightarrow> length fs = length (db_files db)"
  by (auto simp: list_files_def dest: collect_results_length)

lemma row_to_file_record_fields:
  assumes "row_to_file_record x r = Inr rec"
  shows "relative_path_parse (fr_path r) = Inr (rec_path rec)"
    and "u64_of_i64 (fr_size_bytes r) = Some (rec_size_bytes rec)"
    and "rec_content_hash rec = fr_content_hash r"
    and "file_sync_state_parse (fr_sync_state r) = Inr (rec_sync_state rec)"
    and "from_unix_timestamp x (fr_modified_at_unix r) = Inr (rec_modified_at rec)"
    and "u64_of_i64 (fr_generation r) = Some (rec_generation rec)"
    and "rec_device_id rec = fr_device_id r"
  using assms
  by (auto simp: row_to_file_record_def and_then_Inr_iff unix_timestamp_result_def)

text \<open>What was written by an upsert is what the decoder gives back.\<close>

lemma upserted_row:
  assumes "file_row_of_entry x now e = Inr row"
  shows "find_row fr_path (path_str (fe_path e))
           (upsert_row fr_path files_merge row rows) = Some row"
proof -
  from assms have "fr_path row = path_str (fe_path e)" "fr_scan_missing row = 0"
    "fr_sync_state row = ''local_available''"
    by (auto dest: file_row_of_entry_check)
  then show ?thesis
    using files_table.find_upsert_same [of row rows]
    by (auto simp: files_merge_def dest: find_row_key split: option.splits)
qed

lemma decode_entry_row:
  assumes "file_row_of_entry x now e = Inr row" and "time_laws x"
    and "safe_path (fe_path e)" and "trim (path_str (fe_path e)) = path_str (fe_path e)"
  shows "\<exists>d. unix_timestamp x d = unix_timestamp x (fe_modified_at e)
    \<and> row_to_file_record x row = Inr
        \<lparr>rec_path = fe_path e, rec_kind = fe_kind e, rec_size_bytes = fe_size_bytes e,
         rec_modified_at = d, rec_content_hash = map_option hash_hex (fe_content_hash e),
         rec_generation = fv_generation (fe_version e),
         rec_device_id = device_id_text (fv_device_id (fe_version e)),
         rec_sync_state = LocalAvailable\<rparr>"
proof -
  obtain d where d: "from_unix_timestamp x (unix_timestamp x (fe_modified_at e)) = Inr d"
    "unix_timestamp x d = unix_timestamp x (fe_modified_at e)"
    using assms(2) unfolding time_laws_def by blast
  from assms(1,3,4) d show ?thesis
    by (intro exI [of _ d])
      (auto simp: file_row_of_entry_def Let_def and_then_Inr_iff row_to_file_record_def
        relative_path_parse_normal u64_i64_roundtrip unix_timestamp_result_def
        file_sync_state_parse_def split: file_kind.splits)
qed

section \<open>Status counters\<close>

interpretation cnt_available: saturating_counter count_file_state fs_local_available
    "\<lambda>st. st = LocalAvailable"
proof unfold_locales
  fix s a show "fs_local_available (count_file_state s a) =
    (if a = LocalAvailable then saturating_add (fs_local_available s) 1 else fs_local_available s)"
    by (cases a) simp_all
qed

interpretation cnt_missing: saturating_counter count_file_state fs_unsynchronized_local_missing
    "\<lambda>st. st = UnsynchronizedLocalMissing"
proof unfold_locales
  fix s a show "fs_unsynchronized_local_missing (count_file_state s a) =
    (if a = UnsynchronizedLocalMissing then saturating_add (fs_unsynchronized_local_missing s) 1
     else fs_unsynchronized_local_missing s)"
    by (cases a) simp_all
qed

interpretation cnt_upload: saturating_counter count_file_state fs_pending_upload
    "\<lambda>st. st = PendingUploadState"
proof unfold_locales
  fix s a show "fs_pending_upload (count_file_state s a) =
    (if a = PendingUploadState then saturating_add (fs_pending_upload s) 1 else fs_pending_upload s)"
    by (cases a) simp_all
qed

interpretation cnt_download: saturating_counter count_file_state fs_pending_download
    "\<lambda>st. st = PendingDownloadState"
proof unfold_locales
  fix s a show "fs_pending_download (count_file_state s a) =
    (if a = PendingDownloadState then saturating_add (fs_pending_download s) 1
     else fs_pending_download s)"
    by (cases a) simp_all
qed

lemma count_file_state_frame:
  "fs_indexed_files (foldl count_file_state s sts) = fs_indexed_files s"
  "fs_indexed_bytes (foldl count_file_state s sts) = fs_indexed_bytes s"
proof (induction sts arbitrary: s)
  case (Cons st sts)
  {
    case 1
    show ?case using Cons by (cases st) simp_all
  next
    case 2
    show ?case using Cons by (cases st) simp_all
  }
qed simp_all

section \<open>The contract of a scan\<close>

text \<open>
  A scan of a folder talks to the index through three operations: mark everything, observe
  what is on disk, finish. The laws say what each does to the status of one item and to the
  mark it carries; the client's conclusion is the status of every item after a whole scan.
\<close>

locale scan_protocol =
  fixes mark :: "'s \<Rightarrow> 's"
    and observe :: "'e \<Rightarrow> 's \<Rightarrow> 's"
    and finish :: "'s \<Rightarrow> 's"
    and status :: "'s \<Rightarrow> 'k \<Rightarrow> 'v option"
    and flagged :: "'s \<Rightarrow> 'k \<Rightarrow> bool"
    and item :: "'e \<Rightarrow> 'k"
    and good :: "'e \<Rightarrow> bool"
    and seen :: 'v
    and missing :: 'v
    and exempt :: "'v \<Rightarrow> bool"
  assumes status_mark: "status (mark s) k = status s k"
    and flagged_mark: "status s k = Some v \<Longrightarrow> flagged (mark s) k \<longleftrightarrow> \<not> exempt v \<or> flagged s k"
    and status_observe: "good e \<Longrightarrow>
          status (observe e s) k = (if k = item e then Some seen else status s k)"
    and flagged_observe: "good e \<Longrightarrow> flagged (observe e s) k \<longleftrightarrow> k \<noteq> item e \<and> flagged s k"
    and status_finish: "status (finish s) k =
          (case status s k of None \<Rightarrow> None | Some v \<Rightarrow> Some (if flagged s k then missing else v))"
begin

lemma status_observe_all:
  "list_all good es \<Longrightarrow>
     status (fold observe es s) k = (if k \<in> item ` set es then Some seen else status s k)"
  by (induction es arbitrary: s) (auto simp: status_observe)

lemma flagged_observe_all:
  "list_all good es \<Longrightarrow>
     flagged (fold observe es s) k \<longleftrightarrow> k \<notin> item ` set es \<and> flagged s k"
  by (induction es arbitrary: s) (auto simp: flagged_observe)

theorem status_after_scan:
  assumes "list_all good es"
  shows "status (finish (fold observe es (mark s))) k =
    (if k \<in> item ` set es then Some seen
     else map_option (\<lambda>v. if exempt v \<and> \<not> flagged s k then v else missing) (status s k))"
  using assms
  by (cases "status s k")
    (simp_all add: status_finish status_observe_all flagged_observe_all status_mark flagged_mark)

end

definition file_status :: "state_database \<Rightarrow> string \<Rightarrow> string option" where
  "file_status db path = map_option fr_sync_state (find_row fr_path path (db_files db))"

definition file_flagged :: "state_database \<Rightarrow> string \<Rightarrow> bool" where
  "file_flagged db path \<longleftrightarrow>
     (case find_row fr_path path (db_files db) of None \<Rightarrow> False | Some r \<Rightarrow> fr_scan_missing r = 1)"

definition scanned_row :: "file_row \<Rightarrow> bool" where
  "scanned_row r \<longleftrightarrow> fr_scan_missing r = 0 \<and> fr_sync_state r = ''local_available''"

lemma find_files_upsert:
  assumes "scanned_row row"
  shows "find_row fr_path k (db_files (files_upsert row db)) =
    (if k = fr_path row
     then Some (case find_row fr_path k (db_files db) of None \<Rightarrow> row | Some old \<Rightarrow> files_merge old row)
     else find_row fr_path k (db_files db))"
  by (simp add: files_upsert_def files_table.find_upsert_same files_table.find_upsert_other)

interpretation index_scan: scan_protocol mark_scan_started files_upsert "finalize_scan now"
    file_status file_flagged fr_path scanned_row
    "''local_available''" "''unsynchronized_local_missing''" "\<lambda>v. v = ''skipped_folder_limit''"
  for now
proof unfold_locales
  fix db k
  show "file_status (mark_scan_started db) k = file_status db k"
    by (cases "find_row fr_path k (db_files db)")
      (simp_all add: file_status_def mark_scan_started_def find_row_update_where)
next
  fix db k v
  assume "file_status db k = Some v"
  then obtain r where "find_row fr_path k (db_files db) = Some r" "v = fr_sync_state r"
    by (auto simp: file_status_def)
  then show "file_flagged (mark_scan_started db) k
    \<longleftrightarrow> v \<noteq> ''skipped_folder_limit'' \<or> file_flagged db k"
    by (simp add: file_flagged_def mark_scan_started_def find_row_update_where)
next
  fix row db k
  assume "scanned_row row"
  then show "file_status (files_upsert row db) k
    = (if k = fr_path row then Some ''local_available'' else file_status db k)"
    by (auto simp: file_status_def find_files_upsert scanned_row_def files_merge_def
        split: option.splits)
next
  fix row db k
  assume "scanned_row row"
  then show "file_flagged (files_upsert row db) k \<longleftrightarrow> k \<noteq> fr_path row \<and> file_flagged db k"
    by (auto simp: file_flagged_def find_files_upsert scanned_row_def files_merge_def
        split: option.splits)
next
  fix db k
  show "file_status (finalize_scan now db) k =
    (case file_status db k of None \<Rightarrow> None
     | Some v \<Rightarrow> Some (if file_flagged db k then ''unsynchronized_local_missing'' else v))"
    by (cases "find_row fr_path k (db_files db)")
      (simp_all add: file_status_def file_flagged_def finalize_scan_def find_row_update_where)
qed

section \<open>Properties\<close>

text \<open>
  C27: What is upserted is what is read back. After a successful upsert of an entry the row
  of its path decodes to the entry's fields with the state available and the modification
  time of the same second, and the rows of all other paths are untouched.
\<close>

theorem upsert_file_roundtrip:
  assumes "fst (upsert_file x now e db) = Inr ()" and "time_laws x"
    and "safe_path (fe_path e)" and "trim (path_str (fe_path e)) = path_str (fe_path e)"
  shows "\<exists>row d.
    find_row fr_path (path_str (fe_path e)) (db_files (snd (upsert_file x now e db))) = Some row
    \<and> unix_timestamp x d = unix_timestamp x (fe_modified_at e)
    \<and> row_to_file_record x row = Inr
        \<lparr>rec_path = fe_path e, rec_kind = fe_kind e, rec_size_bytes = fe_size_bytes e,
         rec_modified_at = d, rec_content_hash = map_option hash_hex (fe_content_hash e),
         rec_generation = fv_generation (fe_version e),
         rec_device_id = device_id_text (fv_device_id (fe_version e)),
         rec_sync_state = LocalAvailable\<rparr>
    \<and> (other \<noteq> path_str (fe_path e) \<longrightarrow>
         find_row fr_path other (db_files (snd (upsert_file x now e db)))
           = find_row fr_path other (db_files db))"
proof -
  from assms(1) obtain row where row: "file_row_of_entry x now e = Inr row"
    by (cases "file_row_of_entry x now e") (simp_all add: upsert_file_def)
  then have db': "snd (upsert_file x now e db) = files_upsert row db"
    by (simp add: upsert_file_def)
  have "fr_path row = path_str (fe_path e)" using row by (auto dest: file_row_of_entry_check)
  with decode_entry_row [OF row assms(2-4)] upserted_row [OF row, of "db_files db"] show ?thesis
    unfolding db' by (auto simp: files_upsert_def files_table.find_upsert_other)
qed

definition sample_entry :: "string \<Rightarrow> file_entry" where
  "sample_entry path = \<lparr>fe_path = RelativePath path, fe_kind = FileK, fe_size_bytes = 12,
     fe_modified_at = 77, fe_content_hash = Some (ContentHash ''ab''), fe_block_hashes = [],
     fe_version = \<lparr>fv_generation = 1, fv_device_id = DeviceId ''dev''\<rparr>\<rparr>"

theorem upsert_file_roundtrip_witness:
  "\<exists>row rec. find_row fr_path ''docs/a'' (db_files (snd (upsert_file sample_externals 9
       (sample_entry ''docs/a'') empty_database))) = Some row
     \<and> row_to_file_record sample_externals row = Inr rec \<and> rec_size_bytes rec = 12"
proof -
  have "fst (upsert_file sample_externals 9 (sample_entry ''docs/a'') empty_database) = Inr ()"
    "safe_path (fe_path (sample_entry ''docs/a''))"
    "trim (path_str (fe_path (sample_entry ''docs/a''))) = path_str (fe_path (sample_entry ''docs/a''))"
    by code_simp+
  from upsert_file_roundtrip [OF this(1) sample_time_laws this(2,3), where other = "''b''"]
  show ?thesis by (auto simp: sample_entry_def)
qed

text \<open>How many rows are in a given state.\<close>

definition state_count :: "file_row list \<Rightarrow> string \<Rightarrow> nat" where
  "state_count rows state = length (filter (\<lambda>r. fr_sync_state r = state) rows)"

fun sync_state_text :: "file_sync_state \<Rightarrow> string" where
  "sync_state_text LocalAvailable = ''local_available''"
| "sync_state_text UnsynchronizedLocalMissing = ''unsynchronized_local_missing''"
| "sync_state_text PendingUploadState = ''pending_upload''"
| "sync_state_text PendingDownloadState = ''pending_download''"
| "sync_state_text SkippedFolderLimit = ''skipped_folder_limit''"

lemma file_sync_state_parse_iff: "file_sync_state_parse v = Inr st \<longleftrightarrow> v = sync_state_text st"
  by (cases st) (auto simp: file_sync_state_parse_def split: if_splits)

lemma decoded_state_count:
  assumes "list_all2 (\<lambda>r rec. row_to_file_record x r = Inr rec) rows files"
  shows "length (filter (\<lambda>st. st = s) (map rec_sync_state files)) = state_count rows (sync_state_text s)"
  using assms unfolding state_count_def
proof (induction rule: list_all2_induct)
  case (Cons r rows rec files)
  then have "fr_sync_state r = sync_state_text (rec_sync_state rec)"
    using row_to_file_record_fields(4) file_sync_state_parse_iff by blast
  moreover have "inj sync_state_text"
    by (rule injI) (metis file_sync_state_parse_iff sum.inject(2))
  ultimately have "fr_sync_state r = sync_state_text s \<longleftrightarrow> rec_sync_state rec = s"
    by (auto dest: injD)
  with Cons show ?case by simp
qed simp

lemma folder_status_Inr:
  assumes "folder_status x db = Inr s"
  obtains files skipped where "list_files x db = Inr files" "list_skipped_files x db = Inr skipped"
    "s = foldl count_file_state
       \<lparr>fs_indexed_files = len_u64 files, fs_indexed_bytes = sum_list (map rec_size_bytes files),
        fs_local_available = 0, fs_unsynchronized_local_missing = 0, fs_pending_upload = 0,
        fs_pending_download = 0, fs_skipped_folder_limit = len_u64 skipped\<rparr>
       (map rec_sync_state files)"
  using assms by (auto simp: folder_status_def and_then_Inr_iff)

lemma folder_status_frame:
  assumes "folder_status x db = Inr s" and "list_files x db = Inr files"
  shows "fs_indexed_files s = len_u64 files" "fs_indexed_bytes s = sum_list (map rec_size_bytes files)"
  using assms by (auto simp: folder_status_def and_then_Inr_iff count_file_state_frame)

text \<open>
  The folder status is exact: the number of indexed files and of files in each state
  are the numbers of rows of the index, none lost to a conversion or a cap.
\<close>

theorem folder_status_counts:
  assumes "folder_status x db = Inr s" and "length (db_files db) < 2 ^ 64"
  shows "unat (fs_indexed_files s) = length (db_files db)
    \<and> unat (fs_local_available s) = state_count (db_files db) ''local_available''
    \<and> unat (fs_unsynchronized_local_missing s)
        = state_count (db_files db) ''unsynchronized_local_missing''
    \<and> unat (fs_pending_upload s) = state_count (db_files db) ''pending_upload''
    \<and> unat (fs_pending_download s) = state_count (db_files db) ''pending_download''"
proof -
  from assms(1) obtain files skipped where files: "list_files x db = Inr files"
    and "list_skipped_files x db = Inr skipped"
    and s: "s = foldl count_file_state
       \<lparr>fs_indexed_files = len_u64 files, fs_indexed_bytes = sum_list (map rec_size_bytes files),
        fs_local_available = 0, fs_unsynchronized_local_missing = 0, fs_pending_upload = 0,
        fs_pending_download = 0, fs_skipped_folder_limit = len_u64 skipped\<rparr>
       (map rec_sync_state files)"
    by (rule folder_status_Inr)
  have len: "length files = length (db_files db)" using files by (rule list_files_length)
  with assms(2) have lt: "length (map rec_sync_state files) < 2 ^ 64" by (metis length_map)
  have cnt: "length (filter (\<lambda>st. st = v) (map rec_sync_state files))
      = state_count (db_files db) (sync_state_text v)" for v
    using decoded_state_count [OF list_files_Inr [OF files], of v] by (simp add: state_count_def)
  have "unat (fs_indexed_files s) = length (db_files db)"
    using folder_status_frame(1) [OF assms(1) files] unat_len_u64 [of files] assms(2)
    by (metis len)
  moreover note cnt_available.counter_from_zero [OF _ lt] cnt_missing.counter_from_zero [OF _ lt]
    cnt_upload.counter_from_zero [OF _ lt] cnt_download.counter_from_zero [OF _ lt]
  ultimately show ?thesis
    using cnt [of LocalAvailable] cnt [of UnsynchronizedLocalMissing] cnt [of PendingUploadState]
      cnt [of PendingDownloadState] unfolding s by simp
qed

definition sample_file_row :: "string \<Rightarrow> string \<Rightarrow> int \<Rightarrow> file_row" where
  "sample_file_row path state bytes = \<lparr>fr_path = path, fr_kind = ''file'', fr_size_bytes = bytes,
     fr_modified_at_unix = 7, fr_content_hash = Some ''h'', fr_block_hashes_json = ''[]'',
     fr_generation = 1, fr_device_id = ''dev'', fr_scan_missing = 0, fr_sync_state = state,
     fr_updated_at_unix = 7\<rparr>"

definition sample_files_database :: state_database where
  "sample_files_database = empty_database\<lparr>db_files :=
     [sample_file_row ''b'' ''local_available'' 30, sample_file_row ''a'' ''local_available'' 12,
      sample_file_row ''c'' ''unsynchronized_local_missing'' 5]\<rparr>"

lemma sample_files_status: "\<exists>s. folder_status sample_externals sample_files_database = Inr s"
proof -
  have "is_ok (folder_status sample_externals sample_files_database)" by code_simp
  then show ?thesis by (simp add: is_ok_iff)
qed

theorem folder_status_counts_witness:
  "\<exists>s. folder_status sample_externals sample_files_database = Inr s
     \<and> unat (fs_local_available s) = 2 \<and> unat (fs_unsynchronized_local_missing s) = 1"
proof -
  from sample_files_status obtain s where s: "folder_status sample_externals sample_files_database = Inr s"
    by blast
  have "length (db_files sample_files_database) = 3"
    "state_count (db_files sample_files_database) ''local_available'' = 2"
    "state_count (db_files sample_files_database) ''unsynchronized_local_missing'' = 1" by code_simp+
  with folder_status_counts [OF s] show ?thesis by (intro exI [of _ s]) (simp add: s)
qed

lemma same_sizes:
  assumes "list_all2 (\<lambda>r rec. row_to_file_record x r = Inr rec) (map f rows) files'"
    and "list_all2 (\<lambda>r rec. row_to_file_record x r = Inr rec) rows files"
    and "\<And>r. fr_size_bytes (f r) = fr_size_bytes r"
  shows "map rec_size_bytes files' = map rec_size_bytes files"
  using assms(2,1)
proof (induction arbitrary: files' rule: list_all2_induct)
  case (Cons r rows rec files)
  then obtain rec' rest where "files' = rec' # rest" "row_to_file_record x (f r) = Inr rec'"
    by (auto simp: list_all2_Cons1)
  with Cons row_to_file_record_fields(2) [of x r rec] row_to_file_record_fields(2) [of x "f r" rec'] assms(3)
  show ?case by simp
qed simp

text \<open>
  Deleting a file locally does not free space in the accounting: the status still
  counts the file among the indexed ones, and the indexed bytes, which the folder limit is
  checked against, are the same as before.
\<close>

theorem delete_locally_keeps_indexed_bytes:
  assumes "folder_status x db = Inr s"
    and "folder_status x (mark_file_deleted_locally now p db) = Inr s'"
  shows "fs_indexed_bytes s' = fs_indexed_bytes s \<and> fs_indexed_files s' = fs_indexed_files s"
proof -
  let ?db' = "mark_file_deleted_locally now p db"
  from assms obtain files files' where f: "list_files x db = Inr files" "list_files x ?db' = Inr files'"
    by (auto elim!: folder_status_Inr)
  define upd :: "file_row \<Rightarrow> file_row" where "upd = (\<lambda>r. if fr_path r = path_str p
      then r\<lparr>fr_sync_state := ''unsynchronized_local_missing'', fr_modified_at_unix := now\<rparr> else r)"
  have k: "fr_path (upd r) = fr_path r" "fr_size_bytes (upd r) = fr_size_bytes r" for r
    by (simp_all add: upd_def)
  have "sort_key fr_path (db_files ?db') = map upd (sort_key fr_path (db_files db))"
    unfolding mark_file_deleted_locally_def update_where_def upd_def [symmetric]
    using sort_key_map_same [of fr_path upd "db_files db"] k(1) by simp
  with list_files_Inr [OF f(2)] list_files_Inr [OF f(1)]
  have "map rec_size_bytes files' = map rec_size_bytes files"
    using same_sizes k by metis
  with folder_status_frame [OF assms(1) f(1)] folder_status_frame [OF assms(2) f(2)] show ?thesis
    by (metis len_u64_def length_map)
qed

theorem delete_locally_keeps_indexed_bytes_witness:
  "\<exists>s s'. folder_status sample_externals sample_files_database = Inr s
     \<and> folder_status sample_externals
         (mark_file_deleted_locally 9 (RelativePath ''b'') sample_files_database) = Inr s'
     \<and> fs_indexed_bytes s' = fs_indexed_bytes s"
proof -
  have "is_ok (folder_status sample_externals
      (mark_file_deleted_locally 9 (RelativePath ''b'') sample_files_database))" by code_simp
  with sample_files_status delete_locally_keeps_indexed_bytes show ?thesis
    by (metis is_ok_iff)
qed

end
