(* ===== verification/Http_Requests.thy ===== *)
theory Http_Requests
  imports Peer_Crypto Folder_Docs State_Files
begin

text \<open>
  The HTTP layer of \<open>peer_server.rs\<close>: reading a request from a connection (the header up to
  the blank line, then a body kept in memory or spooled to a file) and writing responses.
  What arrives on a connection is a list of events, one per segment, timeout or error; a
  \<open>read\<close> takes at most the size of its buffer from the first segment.
\<close>

section \<open>Errors\<close>

datatype peer_server_error =
    ServerIo string
  | ServerFilesystem string string
  | ServerCore core_error
  | ServerJson string
  | InvalidRequest
  | RequestTooLarge
  | RequestTimeout
  | NotFound
  | TargetConflict
  | HashMismatch
  | FolderLimitExceeded u64 u64
  | Unauthorized
  | ServerPeerStore peer_store_error
  | ServerSigning signing_error
  | ServerPeerCrypto peer_crypto_error

fun public_code :: "peer_server_error \<Rightarrow> string" where
  "public_code InvalidRequest = ''invalid_request''"
| "public_code (ServerJson _) = ''invalid_request''"
| "public_code RequestTooLarge = ''request_too_large''"
| "public_code RequestTimeout = ''request_timeout''"
| "public_code NotFound = ''not_found''"
| "public_code TargetConflict = ''conflict''"
| "public_code HashMismatch = ''hash_mismatch''"
| "public_code (FolderLimitExceeded _ _) = ''folder_limit_exceeded''"
| "public_code Unauthorized = ''unauthorized''"
| "public_code (ServerPeerStore _) = ''unauthorized''"
| "public_code (ServerSigning _) = ''unauthorized''"
| "public_code (ServerIo _) = ''internal_error''"
| "public_code (ServerCore _) = ''internal_error''"
| "public_code (ServerFilesystem _ _) = ''internal_error''"
| "public_code (ServerPeerCrypto _) = ''internal_error''"

text \<open>The status \<open>error_response\<close> gives an error.\<close>

fun error_status :: "peer_server_error \<Rightarrow> u16" where
  "error_status Unauthorized = 401"
| "error_status (ServerPeerStore _) = 401"
| "error_status (ServerSigning _) = 401"
| "error_status NotFound = 404"
| "error_status TargetConflict = 409"
| "error_status RequestTooLarge = 413"
| "error_status RequestTimeout = 408"
| "error_status InvalidRequest = 400"
| "error_status HashMismatch = 400"
| "error_status (FolderLimitExceeded _ _) = 400"
| "error_status (ServerJson _) = 400"
| "error_status (ServerIo _) = 500"
| "error_status (ServerCore _) = 500"
| "error_status (ServerFilesystem _ _) = 500"
| "error_status (ServerPeerCrypto _) = 500"

section \<open>The connection\<close>

datatype stream_event = Segment string | StreamTimeout | StreamError string

type_synonym tcp_stream = "stream_event list"

text \<open>
  \<open>timeout(REQUEST_TIMEOUT, stream.read(buffer))\<close> with a buffer of \<open>n\<close> bytes; after the
  last event the peer has closed its side, and \<open>read\<close> returns nothing.
\<close>

fun tcp_read :: "nat \<Rightarrow> (tcp_stream, peer_server_error, string) stateful" where
  "tcp_read n [] = (Inr [], [])"
| "tcp_read n (StreamTimeout # s) = (Inl RequestTimeout, s)"
| "tcp_read n (StreamError msg # s) = (Inl (ServerIo msg), s)"
| "tcp_read n (Segment b # s) =
     (if length b \<le> n then (Inr b, s) else (Inr (take n b), Segment (drop n b) # s))"

fun event_weight :: "stream_event \<Rightarrow> nat" where
  "event_weight (Segment b) = Suc (length b)"
| "event_weight _ = 1"

definition stream_weight :: "tcp_stream \<Rightarrow> nat" where
  "stream_weight s = sum_list (map event_weight s)"

lemma tcp_read_weight:
  "tcp_read n s = (Inr bytes, s') \<Longrightarrow> bytes \<noteq> [] \<Longrightarrow> stream_weight s' < stream_weight s"
  by (cases "(n, s)" rule: tcp_read.cases) (auto simp: stream_weight_def split: if_splits)

section \<open>Headers\<close>

definition carriage_return :: char where
  "carriage_return = CHR 0x0D"

definition crlf :: string where
  "crlf = [carriage_return, newline]"

definition max_header_bytes :: nat where
  "max_header_bytes = 16 * 1024"

definition max_memory_body_bytes :: u64 where
  "max_memory_body_bytes = 1024 * 1024"

text \<open>\<open>windows(4).position\<close>: the first place where the blank line starts.\<close>

fun find_header_end :: "string \<Rightarrow> nat option" where
  "find_header_end [] = None"
| "find_header_end (c # cs) =
     (if starts_with (crlf @ crlf) (c # cs) then Some 0 else map_option Suc (find_header_end cs))"

text \<open>\<open>str::lines\<close>: a line ends with a line feed, and a carriage return before it is dropped.\<close>

definition strip_cr :: "string \<Rightarrow> string" where
  "strip_cr l = (if l \<noteq> [] \<and> last l = carriage_return then butlast l else l)"

definition str_lines :: "string \<Rightarrow> string list" where
  "str_lines s =
     (let pieces = split_on newline s in
      map strip_cr (butlast pieces) @ (if last pieces = [] then [] else [last pieces]))"

text \<open>\<open>str::split_whitespace\<close>.\<close>

fun whitespace_pieces :: "string list \<Rightarrow> string list" where
  "whitespace_pieces [] = [[]]"
| "whitespace_pieces (ch # chs) =
     (if is_whitespace ch then [] # whitespace_pieces chs
      else (case whitespace_pieces chs of [] \<Rightarrow> [ch] | p # ps \<Rightarrow> (ch @ p) # ps))"

definition split_whitespace :: "string \<Rightarrow> string list" where
  "split_whitespace s = filter (\<lambda>p. p \<noteq> []) (whitespace_pieces (utf8_chars s))"

text \<open>\<open>parse::<u64>\<close> and \<open>parse::<i64>\<close>: an optional sign, digits, and the range.\<close>

definition parse_digits :: "string \<Rightarrow> nat option" where
  "parse_digits s = (if s \<noteq> [] \<and> list_all is_digit s then Some (digits_value s) else None)"

definition strip_plus :: "string \<Rightarrow> string" where
  "strip_plus s = (case s of c # cs \<Rightarrow> if c = CHR ''+'' then cs else s | [] \<Rightarrow> [])"

definition parse_u64 :: "string \<Rightarrow> u64 option" where
  "parse_u64 s = Option.bind (parse_digits (strip_plus s)) (\<lambda>n.
     if int n < 2 ^ 64 then Some (of_nat n) else None)"

definition parse_i64 :: "string \<Rightarrow> int option" where
  "parse_i64 s =
     (let n = (case s of
          c # cs \<Rightarrow> if c = CHR ''-'' then map_option (\<lambda>n. - int n) (parse_digits cs)
                   else map_option int (parse_digits (strip_plus s))
        | [] \<Rightarrow> None)
      in Option.bind n (\<lambda>n. if i64_range n then Some n else None))"

type_synonym http_headers = "string \<Rightarrow> string option"

definition insert_header :: "string \<Rightarrow> http_headers \<Rightarrow> http_headers" where
  "insert_header line headers =
     (case split_once CHR '':'' line of
        None \<Rightarrow> headers
      | Some (key, value) \<Rightarrow> headers(to_ascii_lowercase (trim key) \<mapsto> trim value))"

definition parse_headers :: "string \<Rightarrow> peer_server_error + http_headers" where
  "parse_headers header_bytes =
     and_then (ok_or InvalidRequest (from_utf8 header_bytes)) (\<lambda>text.
       Inr (fold insert_header (drop 1 (str_lines text)) (\<lambda>_. None)))"

section \<open>Requests\<close>

record file_body =
  fb_path :: string
  fb_size_bytes :: u64
  fb_sha256_hex :: string

datatype http_body = MemoryBody string | SpooledBody file_body

record http_request =
  hr_method :: string
  hr_path :: string
  hr_headers :: http_headers
  hr_body_sha256_hex :: string
  hr_body :: http_body

fun request_memory_body :: "http_body \<Rightarrow> peer_server_error + string" where
  "request_memory_body (MemoryBody bytes) = Inr bytes"
| "request_memory_body (SpooledBody _) = Inl InvalidRequest"

fun request_file_body :: "http_body \<Rightarrow> peer_server_error + file_body" where
  "request_file_body (MemoryBody _) = Inl InvalidRequest"
| "request_file_body (SpooledBody body) = Inr body"

fun body_sha256_hex :: "'x agent_externals_scheme \<Rightarrow> http_body \<Rightarrow> string" where
  "body_sha256_hex x (MemoryBody bytes) = hex_encode x (sha256 x bytes)"
| "body_sha256_hex x (SpooledBody body) = fb_sha256_hex body"

definition should_spool_body :: "string \<Rightarrow> string \<Rightarrow> u64 \<Rightarrow> bool" where
  "should_spool_body verb path content_length \<longleftrightarrow>
     verb = ''PUT'' \<and> starts_with ''/file/'' path \<and> 0 < content_length"

section \<open>Reading a request\<close>

text \<open>The loop of \<open>read_request\<close>, up to the end of the header or of the stream.\<close>

function read_head :: "string \<Rightarrow> (tcp_stream, peer_server_error, string) stateful" where
  "read_head buffer s =
     (case tcp_read 4096 s of
        (Inl e, s') \<Rightarrow> (Inl e, s')
      | (Inr bytes, s') \<Rightarrow>
          if bytes = [] then (Inr buffer, s')
          else if max_header_bytes < length (buffer @ bytes) then (Inl RequestTooLarge, s')
          else if find_header_end (buffer @ bytes) \<noteq> None then (Inr (buffer @ bytes), s')
          else read_head (buffer @ bytes) s')"
  by pat_completeness auto
termination
  by (relation "measure (\<lambda>(buffer, s). stream_weight s)")
    (auto dest!: sym [of "(Inr _, _)"] intro: tcp_read_weight)

declare read_head.simps [simp del]

function memory_body_loop :: "nat \<Rightarrow> string \<Rightarrow> (tcp_stream, peer_server_error, string) stateful" where
  "memory_body_loop content_length body s =
     (if length body < content_length then
        (case tcp_read (min (content_length - length body) 4096) s of
           (Inl e, s') \<Rightarrow> (Inl e, s')
         | (Inr bytes, s') \<Rightarrow>
             if bytes = [] then (Inl InvalidRequest, s')
             else memory_body_loop content_length (body @ bytes) s')
      else (Inr body, s))"
  by pat_completeness auto
termination
  by (relation "measure (\<lambda>(n, body, s). stream_weight s)")
    (auto dest!: sym [of "(Inr _, _)"] intro: tcp_read_weight)

declare memory_body_loop.simps [simp del]

definition read_memory_body ::
  "string \<Rightarrow> u64 \<Rightarrow> (tcp_stream, peer_server_error, http_body) stateful" where
  "read_memory_body body_prefix content_length =
     (if max_memory_body_bytes < content_length then lift_result (Inl RequestTooLarge)
      else if unat content_length < length body_prefix then lift_result (Inl InvalidRequest)
      else bind_op (memory_body_loop (unat content_length) body_prefix) (\<lambda>body.
        lift_result (Inr (MemoryBody body))))"

text \<open>
  Faults of the calls that spool a body: the directory, the creation, the writes by number
  (with the part that reached the file), the final \<open>sync_all\<close>.
\<close>

record spool_io =
  sp_create_dir :: "string option"
  sp_create :: "string option"
  sp_write :: "nat \<Rightarrow> (string \<times> string) option"
  sp_sync :: "string option"

text \<open>
  The loop of \<open>read_file_body\<close>; its state is the connection and the contents of the spool
  file, which are also the hashed bytes.
\<close>

type_synonym spool_state = "tcp_stream \<times> string"

definition spool_write :: "spool_io \<Rightarrow> string \<Rightarrow> nat \<Rightarrow> string \<Rightarrow> (spool_state, peer_server_error, unit) stateful" where
  "spool_write io path k bytes st =
     (case sp_write io k of
        None \<Rightarrow> (Inr (), fst st, snd st @ bytes)
      | Some (msg, part) \<Rightarrow> (Inl (ServerFilesystem path msg), fst st, snd st @ part))"

lemma spool_write_stream: "spool_write io path k bytes st = (r, st') \<Longrightarrow> fst st' = fst st"
  by (auto simp: spool_write_def split: option.splits)

function file_body_loop ::
  "spool_io \<Rightarrow> string \<Rightarrow> u64 \<Rightarrow> nat \<Rightarrow> u64 \<Rightarrow> (spool_state, peer_server_error, unit) stateful" where
  "file_body_loop io path content_length k written (s, content) =
     (if written < content_length then
        (case tcp_read (unat (min (saturating_sub content_length written) (64 * 1024))) s of
           (Inl e, s') \<Rightarrow> (Inl e, s', content)
         | (Inr bytes, s') \<Rightarrow>
             if bytes = [] then (Inl InvalidRequest, s', content)
             else (case spool_write io path k bytes (s', content) of
                (Inl e, st') \<Rightarrow> (Inl e, st')
              | (Inr _, st') \<Rightarrow>
                  file_body_loop io path content_length (k + 1)
                    (saturating_add written (len_u64 bytes)) st'))
      else (Inr (), s, content))"
  by pat_completeness auto

termination
  by (relation "measure (\<lambda>(io, path, n, k, w, s, content). stream_weight s)")
    (auto dest!: sym [of "(Inr _, _)"] spool_write_stream tcp_read_weight)

declare file_body_loop.simps [simp del]

text \<open>The state of \<open>read_request\<close>: the connection and the disk.\<close>

type_synonym connection = "tcp_stream \<times> disk"

definition requests_dir :: "string \<Rightarrow> string" where
  "requests_dir folder_path =
     path_push (path_push (syncer_dir \<lparr>st_root = folder_path\<rparr>) ''tmp'') ''requests''"

definition spool_body ::
  "spool_io \<Rightarrow> string \<Rightarrow> string \<Rightarrow> u64 \<Rightarrow> (spool_state, peer_server_error, unit) stateful" where
  "spool_body io path body_prefix content_length =
     bind_op (if body_prefix \<noteq> [] then spool_write io path 0 body_prefix else lift_result (Inr ())) (\<lambda>_.
     bind_op (file_body_loop io path content_length 1 (len_u64 body_prefix)) (\<lambda>_.
       lift_result (case sp_sync io of None \<Rightarrow> Inr () | Some msg \<Rightarrow> Inl (ServerFilesystem path msg))))"

definition read_file_body ::
  "'x agent_externals_scheme \<Rightarrow> spool_io \<Rightarrow> string \<Rightarrow> string \<Rightarrow> string \<Rightarrow> u64
     \<Rightarrow> (connection, peer_server_error, http_body) stateful" where
  "read_file_body x io folder_path fresh_uuid body_prefix content_length c =
     (let (s, d) = c;
          temporary_dir = requests_dir folder_path;
          path = path_push temporary_dir (fresh_uuid @ ''.body'')
      in
      if content_length < len_u64 body_prefix then (Inl InvalidRequest, c)
      else (case sp_create_dir io of
          Some msg \<Rightarrow> (Inl (ServerFilesystem temporary_dir msg), c)
        | None \<Rightarrow>
        (case sp_create io of
          Some msg \<Rightarrow> (Inl (ServerFilesystem path msg), c)
        | None \<Rightarrow>
        (case spool_body io path body_prefix content_length (s, []) of
          (r, s', content) \<Rightarrow>
            (and_then r (\<lambda>_. Inr (SpooledBody \<lparr>fb_path = path, fb_size_bytes = content_length,
                fb_sha256_hex = hex_encode x (sha256 x content)\<rparr>)),
             s', set_file path (Some content) d)))))"

definition on_stream :: "(tcp_stream, 'e, 'a) stateful \<Rightarrow> (connection, 'e, 'a) stateful" where
  "on_stream m = (\<lambda>(s, d). case m s of (r, s') \<Rightarrow> (r, s', d))"

definition first_piece :: "'e \<Rightarrow> 'a list \<Rightarrow> 'e + 'a" where
  "first_piece e ps = (case ps of [] \<Rightarrow> Inl e | p # _ \<Rightarrow> Inr p)"

text \<open>The header: method, path without the query, and the header fields.\<close>

definition parse_head :: "string \<Rightarrow> peer_server_error + (string \<times> string \<times> http_headers)" where
  "parse_head header_bytes =
     and_then (parse_headers header_bytes) (\<lambda>headers.
     and_then (ok_or InvalidRequest (from_utf8 header_bytes)) (\<lambda>text.
     and_then (first_piece InvalidRequest (str_lines text)) (\<lambda>request_line.
     (let request_parts = split_whitespace request_line in
     and_then (first_piece InvalidRequest request_parts) (\<lambda>verb.
     and_then (first_piece InvalidRequest (drop 1 request_parts)) (\<lambda>target.
     and_then (first_piece InvalidRequest (split_on CHR ''?'' target)) (\<lambda>path.
       Inr (verb, path, headers))))))))"

definition declared_length :: "http_headers \<Rightarrow> u64" where
  "declared_length headers =
     (case Option.bind (headers ''content-length'') parse_u64 of None \<Rightarrow> 0 | Some n \<Rightarrow> n)"

definition parse_request ::
  "'x agent_externals_scheme \<Rightarrow> spool_io \<Rightarrow> string \<Rightarrow> string \<Rightarrow> string
     \<Rightarrow> (connection, peer_server_error, http_request) stateful" where
  "parse_request x io folder_path fresh_uuid buffer =
     bind_op (lift_result (ok_or InvalidRequest (find_header_end buffer))) (\<lambda>header_end.
     bind_op (lift_result (parse_head (take header_end buffer))) (\<lambda>(verb, path, headers).
     (let content_length = declared_length headers; body_prefix = drop (header_end + 4) buffer in
     bind_op (if should_spool_body verb path content_length
              then read_file_body x io folder_path fresh_uuid body_prefix content_length
              else on_stream (read_memory_body body_prefix content_length)) (\<lambda>body.
       lift_result (Inr \<lparr>hr_method = verb, hr_path = path, hr_headers = headers,
         hr_body_sha256_hex = body_sha256_hex x body, hr_body = body\<rparr>)))))"

definition read_request ::
  "'x agent_externals_scheme \<Rightarrow> spool_io \<Rightarrow> string \<Rightarrow> string
     \<Rightarrow> (connection, peer_server_error, http_request) stateful" where
  "read_request x io folder_path fresh_uuid =
     bind_op (on_stream (read_head [])) (parse_request x io folder_path fresh_uuid)"

section \<open>Responses\<close>

datatype peer_response = BytesResponse string | FileResponse string string bool

definition reason_phrase :: "u16 \<Rightarrow> string" where
  "reason_phrase status =
     (if status = 200 then ''OK''
      else if status = 400 then ''Bad Request''
      else if status = 401 then ''Unauthorized''
      else if status = 404 then ''Not Found''
      else if status = 409 then ''Conflict''
      else if status = 413 then ''Payload Too Large''
      else ''Internal Server Error'')"

definition response_header :: "u16 \<Rightarrow> string \<Rightarrow> u64 \<Rightarrow> (string \<times> string) list \<Rightarrow> string" where
  "response_header status content_type content_length extra_headers =
     ''HTTP/1.1 '' @ show_nat (unat status) @ '' '' @ reason_phrase status @ crlf
     @ ''content-type: '' @ content_type @ crlf
     @ ''content-length: '' @ show_nat (unat content_length) @ crlf
     @ concat (map (\<lambda>(name, value). name @ '': '' @ value @ crlf) extra_headers)
     @ ''connection: close'' @ crlf @ crlf"

definition binary_response :: "u16 \<Rightarrow> string \<Rightarrow> string \<Rightarrow> string" where
  "binary_response status content_type body =
     response_header status content_type (len_u64 body) [] @ body"

text \<open>The values the server serialises, and \<open>serde_json::to_vec\<close> on them.\<close>

datatype server_reply =
    HealthReply bool string
  | PresenceReply bool string peer_presence
  | ManifestReply folder_manifest
  | UploadFileReply bool relative_path u64 string
  | DeleteFileReply bool relative_path u64 string
  | ErrorReply string

definition json_response ::
  "(server_reply \<Rightarrow> string + string) \<Rightarrow> u16 \<Rightarrow> server_reply \<Rightarrow> peer_server_error + peer_response" where
  "json_response to_vec status value =
     and_then (map_err ServerJson (to_vec value)) (\<lambda>body.
       Inr (BytesResponse (binary_response status ''application/json'' body)))"

definition error_response :: "(server_reply \<Rightarrow> string + string) \<Rightarrow> peer_server_error \<Rightarrow> peer_response" where
  "error_response to_vec e =
     (case json_response to_vec (error_status e) (ErrorReply (public_code e)) of
        Inr response \<Rightarrow> response
      | Inl _ \<Rightarrow> BytesResponse (''HTTP/1.1 500 Internal Server Error'' @ crlf @ ''content-length: 0''
          @ crlf @ ''connection: close'' @ crlf @ crlf))"

section \<open>Segmentation\<close>

text \<open>The bytes a connection delivers, if nothing goes wrong on it.\<close>

fun stream_bytes :: "tcp_stream \<Rightarrow> string option" where
  "stream_bytes [] = Some []"
| "stream_bytes (Segment b # s) = (if b = [] then None else map_option (append b) (stream_bytes s))"
| "stream_bytes (_ # s) = None"

lemma stream_bytes_Nil: "stream_bytes s = Some [] \<longleftrightarrow> s = []"
  by (cases s rule: stream_bytes.cases) auto

lemma tcp_read_delivers:
  assumes "stream_bytes s = Some rest" and "rest \<noteq> []" and "0 < n"
  obtains b s' rest' where "tcp_read n s = (Inr b, s')" "b \<noteq> []" "length b \<le> n"
    "rest = b @ rest'" "stream_bytes s' = Some rest'"
  using assms
proof (cases s rule: stream_bytes.cases)
  case (2 b s0)
  with assms obtain r0 where r0: "b \<noteq> []" "stream_bytes s0 = Some r0" "rest = b @ r0"
    by (auto split: if_splits)
  show ?thesis
  proof (cases "length b \<le> n")
    case True
    with 2 r0 that [of b s0 r0] show ?thesis by simp
  next
    case False
    with 2 r0 assms(3) that [of "take n b" "Segment (drop n b) # s0" "drop n b @ r0"]
    show ?thesis by simp
  qed
qed (use assms in auto)

lemma starts_with_append_left: "starts_with p s \<Longrightarrow> starts_with p (s @ t)"
  by (metis append.assoc starts_with_append starts_with_def append_take_drop_id)

lemma starts_with_take_left: "starts_with p (s @ t) \<Longrightarrow> length p \<le> length s \<Longrightarrow> starts_with p s"
  by (simp add: starts_with_def)

lemma starts_with_length: "starts_with p s \<Longrightarrow> length p \<le> length s"
  by (metis starts_with_def length_take min.cobounded1)

lemma find_header_end_bound: "find_header_end buf = Some n \<Longrightarrow> n + 4 \<le> length buf"
proof (induction buf arbitrary: n)
  case (Cons c cs)
  show ?case
  proof (cases "starts_with (crlf @ crlf) (c # cs)")
    case True
    then have "length (crlf @ crlf) \<le> length (c # cs)" by (rule starts_with_length)
    with True Cons.prems show ?thesis by (simp add: crlf_def)
  qed (use Cons in auto)
qed simp

lemma find_header_end_append:
  "find_header_end buf = Some n \<Longrightarrow> find_header_end (buf @ rest) = Some n"
proof (induction buf arbitrary: n)
  case (Cons c cs)
  show ?case
  proof (cases "starts_with (crlf @ crlf) (c # cs)")
    case True
    then have "starts_with (crlf @ crlf) ((c # cs) @ rest)"
      by (rule starts_with_append_left)
    with True Cons.prems show ?thesis by simp
  next
    case False
    with Cons.prems obtain m where m: "find_header_end cs = Some m" "n = Suc m" by auto
    have "\<not> starts_with (crlf @ crlf) ((c # cs) @ rest)"
    proof
      assume "starts_with (crlf @ crlf) ((c # cs) @ rest)"
      moreover have "4 \<le> length (c # cs)"
        using find_header_end_bound [OF m(1)] by simp
      ultimately have "starts_with (crlf @ crlf) (c # cs)"
        by - (rule starts_with_take_left [where t = rest], simp_all add: crlf_def)
      with False show False ..
    qed
    with Cons.IH [OF m(1)] m(2) show ?thesis by simp
  qed
qed simp

lemma find_header_end_prefix:
  assumes "find_header_end (buf @ rest) = Some n" and "n + 4 \<le> length buf"
  shows "find_header_end buf = Some n"
  using assms
proof (induction buf arbitrary: n)
  case (Cons c cs)
  show ?case
  proof (cases "starts_with (crlf @ crlf) ((c # cs) @ rest)")
    case True
    with Cons.prems have "n = 0" "4 \<le> length (c # cs)" by simp_all
    with True have "starts_with (crlf @ crlf) (c # cs)"
      by - (rule starts_with_take_left [where t = rest], simp_all add: crlf_def)
    with \<open>n = 0\<close> show ?thesis by simp
  next
    case False
    with Cons.prems obtain m where m: "find_header_end (cs @ rest) = Some m" "n = Suc m" by auto
    have "\<not> starts_with (crlf @ crlf) (c # cs)"
    proof
      assume "starts_with (crlf @ crlf) (c # cs)"
      then have "starts_with (crlf @ crlf) ((c # cs) @ rest)"
        by (rule starts_with_append_left)
      with False show False ..
    qed
    with Cons.IH [OF m(1)] Cons.prems(2) m(2) show ?thesis by simp
  qed
qed simp

text \<open>The three loops on a connection that delivers: they gather what is there.\<close>

lemma read_head_delivers:
  assumes "stream_bytes s = Some rest" and "find_header_end (buffer @ rest) = Some n"
    and "find_header_end buffer = None" and "n + 4100 \<le> max_header_bytes"
  shows "\<exists>b rest' s'. read_head buffer s = (Inr (buffer @ b), s') \<and> rest = b @ rest'
    \<and> stream_bytes s' = Some rest' \<and> find_header_end (buffer @ b) = Some n"
  using assms
proof (induction buffer s arbitrary: rest rule: read_head.induct)
  case (1 buffer s)
  have short: "length buffer < n + 4"
    using find_header_end_prefix [OF 1(3)] 1(4) by (cases "n + 4 \<le> length buffer") auto
  have "rest \<noteq> []" using 1(3,4) by auto
  then obtain b s1 rest1 where r: "tcp_read 4096 s = (Inr b, s1)" "b \<noteq> []" "length b \<le> 4096"
    "rest = b @ rest1" "stream_bytes s1 = Some rest1"
    using tcp_read_delivers [OF 1(2), of 4096] by auto
  then have fits: "\<not> max_header_bytes < length (buffer @ b)" using short 1(5) by simp
  show ?case
  proof (cases "find_header_end (buffer @ b)")
    case None
    with 1(1) [OF r(1)[symmetric] refl r(2) fits _ r(5)] 1(3,5) r(4)
    obtain b' rest' s' where "read_head (buffer @ b) s1 = (Inr ((buffer @ b) @ b'), s')"
      "rest1 = b' @ rest'" "stream_bytes s' = Some rest'" "find_header_end ((buffer @ b) @ b') = Some n"
      by auto
    with r fits None show ?thesis
      by (intro exI [of _ "b @ b'"] exI [of _ rest'] exI [of _ s']) (simp add: read_head.simps [of buffer])
  next
    case (Some m)
    then have "m = n" using find_header_end_append [OF Some, of rest1] 1(3) r(4) by simp
    with r fits Some show ?thesis
      by (intro exI [of _ b] exI [of _ rest1] exI [of _ s1]) (simp add: read_head.simps [of buffer])
  qed
qed

lemma memory_body_loop_delivers:
  assumes "stream_bytes s = Some rest" and "length body + length rest = n"
  shows "memory_body_loop n body s = (Inr (body @ rest), [])"
  using assms
proof (induction n body s arbitrary: rest rule: memory_body_loop.induct)
  case (1 n body s)
  show ?case
  proof (cases "rest = []")
    case True
    with 1 show ?thesis by (simp add: memory_body_loop.simps stream_bytes_Nil)
  next
    case False
    then have lt: "length body < n" using 1(3) by (cases rest) auto
    then have "0 < min (n - length body) 4096" by simp
    then obtain b s1 rest1 where r: "tcp_read (min (n - length body) 4096) s = (Inr b, s1)" "b \<noteq> []"
      "rest = b @ rest1" "stream_bytes s1 = Some rest1"
      by (rule tcp_read_delivers [OF 1(2) False])
    from 1(1) [OF lt r(1)[symmetric] refl r(2,4)] 1(3) r(3)
    have "memory_body_loop n (body @ b) s1 = (Inr (body @ rest), [])" by simp
    with lt r show ?thesis by (simp add: memory_body_loop.simps [of n body])
  qed
qed

definition no_spool_faults :: "spool_io \<Rightarrow> bool" where
  "no_spool_faults io \<longleftrightarrow> sp_create_dir io = None \<and> sp_create io = None \<and> sp_sync io = None
     \<and> (\<forall>k. sp_write io k = None)"

lemma file_body_loop_delivers:
  assumes "stream_bytes s = Some rest" and "unat written + length rest = unat len" and "no_spool_faults io"
  shows "file_body_loop io path len k written (s, content) = (Inr (), [], content @ rest)"
  using assms
proof (induction io path len k written "(s, content)" arbitrary: s content rest rule: file_body_loop.induct)
  case (1 io path len k written s content)
  show ?case
  proof (cases "rest = []")
    case True
    with 1 show ?thesis by (simp add: file_body_loop.simps stream_bytes_Nil word_less_nat_alt)
  next
    case False
    then have "0 < length rest" by simp
    then have nat_lt: "unat written < unat len" using 1(3) by linarith
    then have lt: "written < len" by (simp add: word_less_nat_alt)
    let ?n = "unat (min (saturating_sub len written) (64 * 1024))"
    have "0 < unat (saturating_sub len written)" using nat_lt by (simp add: u64_simps)
    then have "0 < ?n" by (simp add: min_def)
    then obtain b s1 rest1 where r: "tcp_read ?n s = (Inr b, s1)" "b \<noteq> []"
      "rest = b @ rest1" "stream_bytes s1 = Some rest1"
      using tcp_read_delivers [OF 1(2) False] by metis
    have w: "spool_write io path k b (s1, content) = (Inr (), s1, content @ b)"
      using 1(4) by (simp add: spool_write_def no_spool_faults_def)
    have "unat written + length b < 2 ^ 64" using 1(3) r(3) unat_u64_lt [of len] by simp
    then have "unat (saturating_add written (len_u64 b)) = unat written + length b"
      by (simp add: u64_simps)
    with 1(1) [OF lt r(1)[symmetric] refl r(2) w[symmetric] refl r(4)] 1(3,4) r(3)
    have "file_body_loop io path len (k + 1) (saturating_add written (len_u64 b)) (s1, content @ b)
        = (Inr (), [], content @ rest)" by simp
    with lt r w show ?thesis by (simp add: file_body_loop.simps [of io path len k])
  qed
qed

text \<open>A body that is complete is read the same from the start and from the connection.\<close>

lemma read_memory_body_whole:
  assumes "stream_bytes s = Some rest" and "length (start @ rest) = unat len"
  shows "fst (read_memory_body start len s) = fst (read_memory_body (start @ rest) len [])"
  using assms memory_body_loop_delivers [OF assms(1), of start "unat len"]
    memory_body_loop_delivers [of "[]" "[]" "start @ rest" "unat len"]
  by (simp add: read_memory_body_def bind_op_apply)

lemma spool_body_whole:
  assumes "stream_bytes s = Some rest" and "length (start @ rest) = unat len" and "no_spool_faults io"
  shows "spool_body io path start len (s, []) = (Inr (), [], start @ rest)"
proof -
  have "unat (len_u64 start) + length rest = unat len"
    using assms(2) unat_u64_lt [of len] by (simp add: u64_simps)
  from file_body_loop_delivers [OF assms(1) this assms(3), of path 1] assms(3) show ?thesis
    by (cases "start = []") (simp_all add: spool_body_def bind_op_apply spool_write_def no_spool_faults_def)
qed

lemma read_file_body_whole:
  assumes "stream_bytes s = Some rest" and "length (start @ rest) = unat len" and "no_spool_faults io"
  shows "\<exists>r d'. read_file_body x io folder uuid start len (s, d) = (r, [], d')
    \<and> read_file_body x io folder uuid (start @ rest) len ([], d) = (r, [], d')"
proof -
  note whole = spool_body_whole [OF assms]
    spool_body_whole [of "[]" "[]" "start @ rest" len, OF _ _ assms(3)]
  have "unat (len_u64 start) \<le> unat len" "unat (len_u64 (start @ rest)) = unat len"
    using assms(2) unat_u64_lt [of len] by (simp_all add: u64_simps)
  then have "\<not> len < len_u64 start" "\<not> len < len_u64 (start @ rest)"
    by (simp_all add: word_less_nat_alt)
  with whole assms(2,3) show ?thesis
    by (auto simp: read_file_body_def Let_def no_spool_faults_def)
qed

text \<open>What a connection leaves of a request: its result and the disk.\<close>

definition outcome :: "'r \<times> connection \<Rightarrow> 'r \<times> disk" where
  "outcome p = (fst p, snd (snd p))"

lemma outcome_bind:
  assumes "outcome (m c) = outcome (m' c')"
    and "\<And>a s t d. outcome (f a (s, d)) = outcome (f a (t, d))"
  shows "outcome (bind_op m f c) = outcome (bind_op m' f c')"
proof -
  obtain r s d where m: "m c = (r, s, d)" by (metis prod.collapse)
  obtain r' s' d' where m': "m' c' = (r', s', d')" by (metis prod.collapse)
  from assms(1) m m' have "r' = r" "d' = d" by (simp_all add: outcome_def)
  with m m' assms(2) show ?thesis by (cases r) (simp_all add: bind_op_def outcome_def)
qed

lemma outcome_lift: "outcome (lift_result r (s, d)) = (r, d)"
  by (simp add: outcome_def)

text \<open>Parsing from a complete header and what a connection still delivers.\<close>

lemma parse_request_whole:
  assumes "stream_bytes s = Some rest" and "find_header_end buffer = Some n"
    and "\<And>verb path headers. parse_head (take n buffer) = Inr (verb, path, headers) \<Longrightarrow>
      unat (declared_length headers) + n + 4 = length (buffer @ rest)"
    and "no_spool_faults io"
  shows "outcome (parse_request x io folder uuid buffer (s, d))
    = outcome (parse_request x io folder uuid (buffer @ rest) ([], d))"
proof -
  note whole = find_header_end_append [OF assms(2), of rest]
  have n: "n + 4 \<le> length buffer" by (rule find_header_end_bound [OF assms(2)])
  have head: "take n (buffer @ rest) = take n buffer"
    and start: "drop (n + 4) (buffer @ rest) = drop (n + 4) buffer @ rest" using n by simp_all
  show ?thesis
  proof (cases "parse_head (take n buffer)")
    case (Inl e)
    then show ?thesis
      by (simp only: parse_request_def assms(2) whole head ok_or_simps bind_op_lift outcome_def fst_conv snd_conv)
  next
    case (Inr h)
    obtain verb path headers where h: "h = (verb, path, headers)" by (metis prod.collapse)
    from assms(3) Inr h n
    have len: "length (drop (n + 4) buffer @ rest) = unat (declared_length headers)" by auto
    have body: "outcome ((if should_spool_body verb path (declared_length headers)
          then read_file_body x io folder uuid (drop (n + 4) buffer) (declared_length headers)
          else on_stream (read_memory_body (drop (n + 4) buffer) (declared_length headers))) (s, d))
      = outcome ((if should_spool_body verb path (declared_length headers)
          then read_file_body x io folder uuid (drop (n + 4) buffer @ rest) (declared_length headers)
          else on_stream (read_memory_body (drop (n + 4) buffer @ rest) (declared_length headers))) ([], d))"
      using read_file_body_whole [OF assms(1) len assms(4), of x folder uuid d]
        read_memory_body_whole [OF assms(1) len]
      by (auto simp: outcome_def on_stream_def split_beta)
    show ?thesis
      unfolding parse_request_def assms(2) whole head start Inr h ok_or_simps bind_op_lift Let_def split_conv
      by (rule outcome_bind, rule body) (simp add: outcome_def)
  qed
qed

lemma read_request_whole:
  assumes "stream_bytes s = Some bytes" and "find_header_end bytes = Some n"
    and "n + 4100 \<le> max_header_bytes"
    and "\<And>verb path headers. parse_head (take n bytes) = Inr (verb, path, headers) \<Longrightarrow>
      unat (declared_length headers) + n + 4 = length bytes"
    and "no_spool_faults io"
  shows "outcome (read_request x io folder uuid (s, d)) = outcome (parse_request x io folder uuid bytes ([], d))"
proof -
  from read_head_delivers [OF assms(1), of "[]" n] assms(2,3) obtain buffer rest s' where
    r: "read_head [] s = (Inr buffer, s')" "bytes = buffer @ rest" "stream_bytes s' = Some rest"
      "find_header_end buffer = Some n" by auto
  have head: "take n bytes = take n buffer" using find_header_end_bound [OF r(4)] r(2) by simp
  have len: "unat (declared_length headers) + n + 4 = length (buffer @ rest)"
    if "parse_head (take n buffer) = Inr (verb, path, headers)" for verb path headers
    by (rule assms(4) [unfolded head, unfolded r(2), OF that])
  have "outcome (parse_request x io folder uuid buffer (s', d))
    = outcome (parse_request x io folder uuid bytes ([], d))"
    unfolding r(2) by (rule parse_request_whole [OF r(3,4) len assms(5)])
  moreover have "read_request x io folder uuid (s, d) = parse_request x io folder uuid buffer (s', d)"
    by (simp add: read_request_def bind_op_def on_stream_def r(1))
  ultimately show ?thesis by simp
qed

section \<open>Properties\<close>



end
