(* ===== verification/Path_Codec.thy ===== *)
theory Path_Codec
  imports Relative_Paths
begin

unbundle bit_operations_syntax

text \<open>
  \<open>path_codec.rs\<close> of the agent: relative paths percent-encoded into request targets and
  back. The decoder is the index loop over the input's bytes; what it accepts goes through
  the path parser, so a decoded path is as safe as a parsed one.
\<close>

section \<open>Definitions\<close>

datatype path_decode_error =
    InvalidPercentEncoding
  | InvalidUtf8
  | DecodeCore core_error

text \<open>The pattern of the bytes that are pushed as they are.\<close>

definition unreserved :: "char \<Rightarrow> bool" where
  "unreserved c \<longleftrightarrow>
     (let b = byte_of c in
      65 \<le> b \<and> b \<le> 90 \<or> 97 \<le> b \<and> b \<le> 122 \<or> 48 \<le> b \<and> b \<le> 57
      \<or> c \<in> {CHR ''-'', CHR ''.'', CHR ''_'', CHR ''~'', CHR ''/''})"

text \<open>The format \<open>{:02X}\<close> of a byte.\<close>

definition upper_hex_digit :: "nat \<Rightarrow> char" where
  "upper_hex_digit n = (if n < 10 then char_of (48 + n) else char_of (55 + n))"

definition percent_byte :: "char \<Rightarrow> string" where
  "percent_byte c = CHR ''%'' # [upper_hex_digit (byte_of c div 16), upper_hex_digit (byte_of c mod 16)]"

definition encode_relative_path :: "relative_path \<Rightarrow> string" where
  "encode_relative_path p =
     concat (map (\<lambda>c. if unreserved c then [c] else percent_byte c) (path_str p))"

definition hex_value :: "char \<Rightarrow> u8 option" where
  "hex_value c =
     (let b = byte_of c in
      if 48 \<le> b \<and> b \<le> 57 then Some (of_nat (b - 48))
      else if 97 \<le> b \<and> b \<le> 102 then Some (of_nat (b - 97 + 10))
      else if 65 \<le> b \<and> b \<le> 70 then Some (of_nat (b - 65 + 10))
      else None)"

text \<open>\<open>slice.get(i).copied()\<close>.\<close>

definition get_byte :: "string \<Rightarrow> nat \<Rightarrow> char option" where
  "get_byte input i = (if i < length input then Some (input ! i) else None)"

definition decoded_byte :: "char \<Rightarrow> char \<Rightarrow> char option" where
  "decoded_byte high low =
     Option.bind (hex_value high) (\<lambda>h. map_option (\<lambda>l. char_of (unat (push_bit 4 h OR l)))
       (hex_value low))"

function decode_loop :: "string \<Rightarrow> nat \<Rightarrow> string \<Rightarrow> path_decode_error + string" where
  "decode_loop input index bytes =
     (if index < length input then
        (if input ! index = CHR ''%'' then
           and_then (ok_or InvalidPercentEncoding (get_byte input (index + 1))) (\<lambda>high.
           and_then (ok_or InvalidPercentEncoding (get_byte input (index + 2))) (\<lambda>low.
           and_then (ok_or InvalidPercentEncoding (decoded_byte high low)) (\<lambda>b.
             decode_loop input (index + 3) (bytes @ [b]))))
         else decode_loop input (index + 1) (bytes @ [input ! index]))
      else Inr bytes)"
  by pat_completeness auto
termination by (relation "measure (\<lambda>(input, index, bytes). length input - index)") auto

declare decode_loop.simps [simp del]

definition decode_relative_path :: "string \<Rightarrow> path_decode_error + relative_path" where
  "decode_relative_path value =
     and_then (decode_loop value 0 []) (\<lambda>bytes.
     and_then (ok_or InvalidUtf8 (from_utf8 bytes)) (\<lambda>decoded.
       map_err DecodeCore (relative_path_parse decoded)))"

section \<open>Bytes\<close>

lemma byte_of_digit: "n < 16 \<Longrightarrow> byte_of (upper_hex_digit n) = (if n < 10 then 48 + n else 55 + n)"
  by (simp add: byte_of_def upper_hex_digit_def)

lemma digit_facts:
  assumes "n < 16"
  shows "hex_value (upper_hex_digit n) = Some (of_nat n)" and "unreserved (upper_hex_digit n)"
  using assms by (auto simp: hex_value_def unreserved_def Let_def byte_of_digit)

lemma nibbles_combine:
  assumes "d < 16" and "e < 16"
  shows "unat (push_bit 4 (of_nat d :: u8) OR of_nat e) = 16 * d + e"
proof -
  have "list_all (\<lambda>d. list_all (\<lambda>e. unat (push_bit 4 (of_nat d :: u8) OR of_nat e) = 16 * d + e)
      [0..<16]) [0..<16]" by code_simp
  with assms show ?thesis by (simp add: list_all_iff)
qed

lemma byte_of_less: "byte_of c < 256"
  by (simp add: byte_of_def nat_of_char_less_256)

text \<open>Every byte survives its escape, and an escape is three unreserved characters.\<close>

lemma percent_byte_decodes:
  "decoded_byte (upper_hex_digit (byte_of c div 16)) (upper_hex_digit (byte_of c mod 16)) = Some c"
proof -
  have d: "byte_of c div 16 < 16" "byte_of c mod 16 < 16" using byte_of_less [of c] by auto
  have "char_of (16 * (byte_of c div 16) + byte_of c mod 16) = c" by (simp add: byte_of_def)
  with d show ?thesis by (simp add: decoded_byte_def digit_facts nibbles_combine)
qed

lemma percent_byteE:
  obtains h l where "percent_byte c = [CHR ''%'', h, l]" "decoded_byte h l = Some c"
    "unreserved h" "unreserved l"
proof -
  have "byte_of c div 16 < 16" "byte_of c mod 16 < 16" using byte_of_less [of c] by auto
  with percent_byte_decodes [of c] show ?thesis
    by (intro that) (auto simp: percent_byte_def digit_facts)
qed

lemma percent_not_unreserved [simp]: "\<not> unreserved CHR ''%''"
  by (simp add: unreserved_def byte_of_def)

section \<open>The loop on encoded input\<close>

lemma decode_loop_encoded:
  "decode_loop (pre @ concat (map (\<lambda>c. if unreserved c then [c] else percent_byte c) s)) (length pre) bytes
     = Inr (bytes @ s)"
proof (induction s arbitrary: pre bytes)
  case Nil
  show ?case by (subst decode_loop.simps) simp
next
  case (Cons c s)
  let ?enc = "\<lambda>s. concat (map (\<lambda>c. if unreserved c then [c] else percent_byte c) s)"
  show ?case
  proof (cases "unreserved c")
    case True
    then have "c \<noteq> CHR ''%''" by auto
    with True Cons.IH [of "pre @ [c]" "bytes @ [c]"] show ?thesis
      by (subst decode_loop.simps) (simp add: nth_append)
  next
    case False
    obtain h l where hl: "percent_byte c = [CHR ''%'', h, l]" "decoded_byte h l = Some c"
      by (rule percent_byteE)
    let ?input = "pre @ CHR ''%'' # h # l # ?enc s"
    have "get_byte ?input (length pre + 1) = Some h" "get_byte ?input (length pre + 2) = Some l"
      by (simp_all add: get_byte_def nth_append)
    with hl have "decode_loop ?input (length pre) bytes = decode_loop ?input (length pre + 3) (bytes @ [c])"
      by (subst decode_loop.simps) (simp add: nth_append)
    also have "\<dots> = Inr (bytes @ c # s)"
      using Cons.IH [of "pre @ [CHR ''%'', h, l]" "bytes @ [c]"] by (simp add: numeral_3_eq_3)
    finally show ?thesis using False hl by simp
  qed
qed

lemma decode_encode:
  "decode_loop (encode_relative_path p) 0 [] = Inr (path_str p)"
  using decode_loop_encoded [of "[]" "path_str p" "[]"] by (simp add: encode_relative_path_def)

lemma decode_encode_path:
  assumes "utf8_wf (map byte_of (path_str p))"
  shows "decode_relative_path (encode_relative_path p)
           = map_err DecodeCore (relative_path_parse (path_str p))"
  using assms by (simp add: decode_relative_path_def decode_encode from_utf8_def)

lemma decode_relative_path_parsed:
  assumes "decode_relative_path value = Inr p"
  shows "\<exists>decoded. decode_loop value 0 [] = Inr decoded \<and> utf8_wf (map byte_of decoded)
    \<and> relative_path_parse decoded = Inr p"
  using assms by (auto simp: decode_relative_path_def and_then_Inr_iff from_utf8_def split: if_splits)

section \<open>Properties\<close>

text \<open>
  C40: A safe path without outer white space survives the request line: encoding it and
  decoding the result gives the same path back, for every UTF-8 name.
\<close>

theorem path_codec_roundtrip:
  assumes "safe_path p" and "trim (path_str p) = path_str p" and "utf8_wf (map byte_of (path_str p))"
  shows "decode_relative_path (encode_relative_path p) = Inr p"
  using assms by (simp add: decode_encode_path relative_path_parse_normal)

theorem path_codec_roundtrip_witness:
  "decode_relative_path (encode_relative_path (RelativePath ''docs/space #1.txt''))
     = Inr (RelativePath ''docs/space #1.txt'')"
proof -
  have "safe_path (RelativePath ''docs/space #1.txt'')"
    "trim (path_str (RelativePath ''docs/space #1.txt'')) = path_str (RelativePath ''docs/space #1.txt'')"
    "utf8_wf (map byte_of (path_str (RelativePath ''docs/space #1.txt'')))" by code_simp+
  then show ?thesis by (rule path_codec_roundtrip)
qed

text \<open>
  The encoded path can be put into a request line: it consists of unreserved
  characters, slashes and percent signs only, so it contains no space, no line break and no
  query or fragment mark.
\<close>

theorem encoded_path_is_unreserved:
  "list_all (\<lambda>c. unreserved c \<or> c = CHR ''%'') (encode_relative_path p)"
proof -
  have "list_all (\<lambda>c. unreserved c \<or> c = CHR ''%'') (percent_byte c)" for c
    by (rule percent_byteE [of c]) simp
  then show ?thesis by (auto simp: encode_relative_path_def list_all_iff)
qed

text \<open>
  Whatever the peer sends, a decoded path stays inside the folder and outside
  \<open>.syncer\<close>: escapes are undone before the path is checked, so an escaped parent component
  is refused like a plain one.
\<close>

theorem decoded_path_stays_inside:
  assumes "decode_relative_path value = Inr p"
  shows "path_strip_prefix root (path_push root (path_str p)) = Some (path_str p)
    \<and> \<not> starts_with (path_components (path_push root syncer_dir_name))
          (path_components (path_push root (path_str p)))"
proof -
  from decode_relative_path_parsed [OF assms] obtain decoded where
    "relative_path_parse decoded = Inr p" by blast
  then have "safe_path p" by (rule relative_path_parse_safe)
  then show ?thesis by (simp add: safe_path_below_root safe_path_outside_syncer)
qed

theorem decoded_path_stays_inside_witness:
  "path_strip_prefix ''/srv'' (path_push ''/srv'' ''docs/a b'') = Some ''docs/a b''
   \<and> decode_relative_path ''docs/%2E%2E/secret'' = Inl (DecodeCore TraversalRelativePath)"
proof -
  have "decode_relative_path ''docs/a%20b'' = Inr (RelativePath ''docs/a b'')" by code_simp
  from decoded_path_stays_inside [OF this, of "''/srv''"]
  have "path_strip_prefix ''/srv'' (path_push ''/srv'' ''docs/a b'') = Some ''docs/a b''" by simp
  moreover have "decode_relative_path ''docs/%2E%2E/secret'' = Inl (DecodeCore TraversalRelativePath)"
    by code_simp
  ultimately show ?thesis by simp
qed

end
