(* ===== verification/Peer_Client.thy ===== *)
theory Peer_Client
  imports Http_Requests Path_Codec
begin

text \<open>
  The client side of the peer protocol, \<open>peer_client.rs\<close>: addresses, signed requests, the
  exchange over a connection, the reading of responses, and the five operations the agent
  calls. The peer at the other end is a state of any type and a function from the bytes a
  connection carried to the stream it answers with.
\<close>

section \<open>Errors and addresses\<close>

datatype peer_client_error =
    UnsupportedEndpoint
  | ClientIo string
  | ClientJson string
  | InvalidResponse
  | HttpStatus u16
  | UnexpectedContentLength u64 u64
  | PlaintextHashMismatch
  | ClientPeerCrypto peer_crypto_error
  | ClientSigning signing_error

record peer_address =
  pa_host :: string
  pa_port :: u16

text \<open>\<open>str::rsplit_once\<close> and \<open>parse::<u16>\<close>.\<close>

definition rsplit_once :: "'a \<Rightarrow> 'a list \<Rightarrow> ('a list \<times> 'a list) option" where
  "rsplit_once c s = map_option (\<lambda>(after, before). (rev before, rev after)) (split_once c (rev s))"

definition parse_u16 :: "string \<Rightarrow> u16 option" where
  "parse_u16 s = Option.bind (parse_digits (strip_plus s)) (\<lambda>n.
     if int n < 2 ^ 16 then Some (of_nat n) else None)"

definition peer_address_parse :: "string \<Rightarrow> peer_client_error + peer_address" where
  "peer_address_parse endpoint =
     and_then (ok_or UnsupportedEndpoint (strip_prefix ''http://'' endpoint)) (\<lambda>rest.
     and_then (ok_or UnsupportedEndpoint (rsplit_once CHR '':'' rest)) (\<lambda>(host, port_text).
     and_then (ok_or UnsupportedEndpoint (parse_u16 port_text)) (\<lambda>port.
       if host = [] then Inl UnsupportedEndpoint else Inr \<lparr>pa_host = host, pa_port = port\<rparr>)))"

section \<open>The client's world\<close>

text \<open>
  The local disk and the peer. The record is extended by the agent with its database, so the
  operations are stated on every extension.
\<close>

record 'p client_world =
  cw_disk :: disk
  cw_peer :: 'p

type_synonym ('p, 'z, 'a) client_op = "(('p, 'z) client_world_scheme, peer_client_error, 'a) stateful"

text \<open>
  What the outside answers during one request: the clock; the error of connecting or of
  setting the timeouts; the errors of the writes to the connection, by number, with how much
  of the data left before; the peer; the calls of the cipher, what a failed one leaves in
  its destination, how contents come out of \<open>read\<close>, and the random nonce prefix; an error
  while the ciphertext is read for its hash; the calls that store a download; the errors of
  removing a file; a fresh UUID.
\<close>

record 'p client_env =
  cl_now :: datetime
  cl_connect_fault :: "peer_address \<Rightarrow> string option"
  cl_send_fault :: "nat \<Rightarrow> (string \<times> nat) option"
  cl_answer :: "peer_address \<Rightarrow> 'p \<Rightarrow> string \<Rightarrow> tcp_stream \<times> 'p"
  cl_crypto_io :: crypto_io
  cl_partial :: "string option"
  cl_reads :: "string \<Rightarrow> (string + string) list"
  cl_nonce :: string
  cl_hash_fault :: "string option"
  cl_store_io :: spool_io
  cl_remove_fault :: "string \<Rightarrow> string option"
  cl_uuid :: string

definition on_local :: "(disk, peer_client_error, 'a) stateful \<Rightarrow> ('p, 'z, 'a) client_op" where
  "on_local m = (\<lambda>w. case m (cw_disk w) of (r, d) \<Rightarrow> (r, w\<lparr>cw_disk := d\<rparr>))"

section \<open>Requests\<close>

record peer_request =
  pq_method :: string
  pq_endpoint :: string
  pq_path :: string
  pq_device_id :: string
  pq_shared_secret_hex :: string
  pq_body :: string
  pq_extra_headers :: "(string \<times> string) list"
  pq_response_limit_bytes :: nat

definition response_limit_bytes :: nat where
  "response_limit_bytes = 4 * 1024 * 1024"

definition response_header_limit_bytes :: nat where
  "response_header_limit_bytes = 16 * 1024"

definition header_line :: "string \<Rightarrow> string \<Rightarrow> string" where
  "header_line name value = name @ '': '' @ value @ crlf"

definition signed_request_header ::
  "'x agent_externals_scheme \<Rightarrow> datetime \<Rightarrow> peer_request \<Rightarrow> peer_client_error + string" where
  "signed_request_header x now request =
     and_then (peer_address_parse (pq_endpoint request)) (\<lambda>address.
     (let timestamp = unix_timestamp x now in
     and_then (map_err ClientSigning (sign_request x (pq_method request) (pq_path request)
         (pq_device_id request) timestamp (pq_body request) (pq_shared_secret_hex request))) (\<lambda>signature.
       Inr (pq_method request @ '' '' @ pq_path request @ '' HTTP/1.1'' @ crlf
         @ header_line ''host'' (pa_host address)
         @ header_line ''x-syncer-device-id'' (pq_device_id request)
         @ header_line ''x-syncer-timestamp'' (show_int timestamp)
         @ header_line ''x-syncer-signature'' signature
         @ header_line ''content-type'' ''application/octet-stream''
         @ header_line ''content-length'' (show_nat (length (pq_body request)))
         @ concat (map (\<lambda>(name, value). header_line name value) (pq_extra_headers request))
         @ header_line ''connection'' ''close'' @ crlf))))"

section \<open>The exchange\<close>

text \<open>
  The writes of a request, in parts that may fail to be read from a file; the outcome
  carries what reached the connection.
\<close>

fun send_parts ::
  "'p client_env \<Rightarrow> nat \<Rightarrow> (string + string) list \<Rightarrow> string \<Rightarrow> (peer_client_error + unit) \<times> string" where
  "send_parts env k [] sent = (Inr (), sent)"
| "send_parts env k (Inl msg # parts) sent = (Inl (ClientIo msg), sent)"
| "send_parts env k (Inr bytes # parts) sent =
     (if bytes = [] then send_parts env (k + 1) parts sent
      else case cl_send_fault env k of
        None \<Rightarrow> send_parts env (k + 1) parts (sent @ bytes)
      | Some (msg, n) \<Rightarrow> (Inl (ClientIo msg), sent @ take n bytes))"

text \<open>Connecting, writing, and the stream the peer answers with; the peer sees what was sent.\<close>

definition exchange ::
  "'p client_env \<Rightarrow> peer_address \<Rightarrow> (string + string) list \<Rightarrow> ('p, 'z, tcp_stream) client_op" where
  "exchange env address parts w =
     (case cl_connect_fault env address of
        Some msg \<Rightarrow> (Inl (ClientIo msg), w)
      | None \<Rightarrow>
          (case send_parts env 0 parts [] of (r, sent) \<Rightarrow>
          (case cl_answer env address (cw_peer w) sent of (s, p) \<Rightarrow>
            (and_then r (\<lambda>_. Inr s), w\<lparr>cw_peer := p\<rparr>))))"

text \<open>
  A \<open>read\<close> of the client: the timeout is the socket's, and its error an I/O error.
\<close>

fun stream_error :: "peer_server_error \<Rightarrow> peer_client_error" where
  "stream_error (ServerIo msg) = ClientIo msg"
| "stream_error _ = ClientIo ''Resource temporarily unavailable (os error 11)''"

definition client_read :: "nat \<Rightarrow> (tcp_stream, peer_client_error, string) stateful" where
  "client_read n = map_op_err stream_error (tcp_read n)"

lemma client_read_weight:
  "client_read n s = (Inr bytes, s') \<Longrightarrow> bytes \<noteq> [] \<Longrightarrow> stream_weight s' < stream_weight s"
  by (auto simp: client_read_def map_op_err_def split: prod.splits intro: tcp_read_weight)

text \<open>\<open>stream.take(limit).read_to_end\<close>: to the limit or the end of the stream.\<close>

function read_to_end :: "nat \<Rightarrow> string \<Rightarrow> (tcp_stream, peer_client_error, string) stateful" where
  "read_to_end limit response s =
     (if limit = 0 then (Inr response, s)
      else (case client_read limit s of
          (Inl e, s') \<Rightarrow> (Inl e, s')
        | (Inr bytes, s') \<Rightarrow>
            if bytes = [] then (Inr response, s')
            else read_to_end (limit - length bytes) (response @ bytes) s'))"
  by pat_completeness auto
termination
  by (relation "measure (\<lambda>(n, response, s). stream_weight s)")
    (auto dest!: sym [of "(Inr _, _)"] intro: client_read_weight)

declare read_to_end.simps [simp del]

definition request_bytes ::
  "'x agent_externals_scheme \<Rightarrow> 'p client_env \<Rightarrow> peer_request \<Rightarrow> ('p, 'z, string) client_op" where
  "request_bytes x env request =
     bind_op (lift_result (peer_address_parse (pq_endpoint request))) (\<lambda>address.
     bind_op (lift_result (signed_request_header x (cl_now env) request)) (\<lambda>serialized_request.
     bind_op (exchange env address [Inr serialized_request, Inr (pq_body request)]) (\<lambda>s.
       lift_result (fst (read_to_end (pq_response_limit_bytes request) [] s)))))"

section \<open>Responses\<close>

text \<open>The status: the second word of the first line, as a \<open>u16\<close>.\<close>

definition response_status :: "string \<Rightarrow> peer_client_error + u16" where
  "response_status header =
     and_then (first_piece InvalidResponse (str_lines header)) (\<lambda>status_line.
     and_then (first_piece InvalidResponse (drop 1 (split_whitespace status_line))) (\<lambda>status.
       ok_or InvalidResponse (parse_u16 status)))"

definition parse_json_response ::
  "(string \<Rightarrow> string + 'a) \<Rightarrow> string \<Rightarrow> peer_client_error + 'a" where
  "parse_json_response decode response =
     and_then (ok_or InvalidResponse (find_header_end response)) (\<lambda>header_end.
     and_then (ok_or InvalidResponse (from_utf8 (take header_end response))) (\<lambda>header.
     and_then (response_status header) (\<lambda>status.
       if status \<noteq> 200 then Inl (HttpStatus status)
       else map_err ClientJson (decode (drop (header_end + 4) response)))))"

definition ends_with :: "'a list \<Rightarrow> 'a list \<Rightarrow> bool" where
  "ends_with p s \<longleftrightarrow> starts_with (rev p) (rev s)"

text \<open>The loop of \<open>read_response_head\<close>: a byte at a time up to the blank line.\<close>

function response_head_loop :: "string \<Rightarrow> (tcp_stream, peer_client_error, string) stateful" where
  "response_head_loop buffer s =
     (case client_read 1 s of
        (Inl e, s') \<Rightarrow> (Inl e, s')
      | (Inr bytes, s') \<Rightarrow>
          if bytes = [] then (Inl (ClientIo ''failed to fill whole buffer''), s')
          else if response_header_limit_bytes < length (buffer @ bytes) then (Inl InvalidResponse, s')
          else if ends_with (crlf @ crlf) (buffer @ bytes) then (Inr (buffer @ bytes), s')
          else response_head_loop (buffer @ bytes) s')"
  by pat_completeness auto
termination
  by (relation "measure (\<lambda>(buffer, s). stream_weight s)")
    (auto dest!: sym [of "(Inr _, _)"] intro: client_read_weight)

declare response_head_loop.simps [simp del]

record response_head =
  rh_status :: u16
  rh_content_length :: u64
  rh_headers :: http_headers

definition response_headers :: "string \<Rightarrow> http_headers" where
  "response_headers header = fold insert_header (drop 1 (str_lines header)) (\<lambda>_. None)"

definition parse_response_head :: "string \<Rightarrow> peer_client_error + response_head" where
  "parse_response_head bytes =
     and_then (ok_or InvalidResponse (find_header_end bytes)) (\<lambda>header_end.
     and_then (ok_or InvalidResponse (from_utf8 (take header_end bytes))) (\<lambda>header.
     and_then (response_status header) (\<lambda>status.
     (let headers = response_headers header in
     and_then (ok_or InvalidResponse (headers ''content-length'')) (\<lambda>length_text.
     and_then (ok_or InvalidResponse (parse_u64 length_text)) (\<lambda>content_length.
       Inr \<lparr>rh_status = status, rh_content_length = content_length, rh_headers = headers\<rparr>))))))"

definition read_response_head :: "(tcp_stream, peer_client_error, response_head) stateful" where
  "read_response_head =
     bind_op (response_head_loop []) (\<lambda>bytes. lift_result (parse_response_head bytes))"

section \<open>Downloads\<close>

record transferred_file =
  tf_size_bytes :: u64
  tf_content_hash :: string

text \<open>
  \<open>copy_exact\<close>: from the connection into the file until the announced length is there; the
  state is the connection and the contents of the file.
\<close>

definition store_write :: "spool_io \<Rightarrow> nat \<Rightarrow> string \<Rightarrow> (spool_state, peer_client_error, unit) stateful" where
  "store_write io k bytes st =
     (case sp_write io k of
        None \<Rightarrow> (Inr (), fst st, snd st @ bytes)
      | Some (msg, part) \<Rightarrow> (Inl (ClientIo msg), fst st, snd st @ part))"

lemma store_write_stream: "store_write io k bytes st = (r, st') \<Longrightarrow> fst st' = fst st"
  by (auto simp: store_write_def split: option.splits)

function copy_exact :: "spool_io \<Rightarrow> nat \<Rightarrow> u64 \<Rightarrow> (spool_state, peer_client_error, unit) stateful" where
  "copy_exact io k remaining (s, content) =
     (if 0 < remaining then
        (case client_read (unat (min remaining (64 * 1024))) s of
           (Inl e, s') \<Rightarrow> (Inl e, s', content)
         | (Inr bytes, s') \<Rightarrow>
             if bytes = [] then (Inl InvalidResponse, s', content)
             else (case store_write io k bytes (s', content) of
                (Inl e, st') \<Rightarrow> (Inl e, st')
              | (Inr _, st') \<Rightarrow> copy_exact io (k + 1) (saturating_sub remaining (len_u64 bytes)) st'))
      else (Inr (), s, content))"
  by pat_completeness auto
termination
  by (relation "measure (\<lambda>(io, k, r, s, content). stream_weight s)")
    (auto dest!: sym [of "(Inr _, _)"] store_write_stream client_read_weight)

declare copy_exact.simps [simp del]

definition encrypted_download_path :: "string \<Rightarrow> string \<Rightarrow> string" where
  "encrypted_download_path fresh_uuid path =
     path_with_extension path (''syncer-download-'' @ fresh_uuid @ ''.enc'')"

definition encrypted_upload_path :: "string \<Rightarrow> string \<Rightarrow> string" where
  "encrypted_upload_path fresh_uuid path =
     path_with_extension path (''syncer-upload-'' @ fresh_uuid @ ''.enc'')"

text \<open>What the answer must say before anything is stored; the nonce and the announced hash.\<close>

definition check_download_head ::
  "response_head \<Rightarrow> u64 \<Rightarrow> peer_client_error + (string \<times> string)" where
  "check_download_head head size_bytes =
     (if rh_status head \<noteq> 200 then Inl (HttpStatus (rh_status head))
      else
      and_then (ok_or InvalidResponse (rh_headers head ''x-syncer-encryption'')) (\<lambda>encryption.
      if encryption \<noteq> encryption_algorithm then Inl InvalidResponse
      else
      and_then (ok_or InvalidResponse (rh_headers head ''x-syncer-nonce'')) (\<lambda>nonce.
      and_then (ok_or InvalidResponse (rh_headers head ''x-syncer-content-hash'')) (\<lambda>content_hash.
      if rh_content_length head \<noteq> encrypted_len size_bytes
      then Inl (UnexpectedContentLength (encrypted_len size_bytes) (rh_content_length head))
      else Inr (nonce, content_hash)))))"

text \<open>\<open>File::create\<close>, \<open>copy_exact\<close> and \<open>sync_all\<close>: what an error leaves is in the file.\<close>

definition store_download ::
  "spool_io \<Rightarrow> string \<Rightarrow> u64 \<Rightarrow> tcp_stream \<Rightarrow> (disk, peer_client_error, unit) stateful" where
  "store_download io path content_length s d =
     (case sp_create io of
        Some msg \<Rightarrow> (Inl (ClientIo msg), d)
      | None \<Rightarrow>
          (case copy_exact io 0 content_length (s, []) of (r, s', content) \<Rightarrow>
            (and_then r (\<lambda>_. case sp_sync io of None \<Rightarrow> Inr () | Some msg \<Rightarrow> Inl (ClientIo msg)),
             set_file path (Some content) d)))"

definition remove_quietly :: "(string \<Rightarrow> string option) \<Rightarrow> string \<Rightarrow> (disk, peer_client_error, unit) stateful" where
  "remove_quietly remove_fault path d = (Inr (), snd (fs_remove_file remove_fault path d))"

definition received_head :: "tcp_stream \<Rightarrow> peer_client_error + response_head \<times> tcp_stream" where
  "received_head s =
     (case read_response_head s of (r, s') \<Rightarrow> and_then r (\<lambda>head. Inr (head, s')))"

definition fetch_file_to_path ::
  "'x agent_externals_scheme \<Rightarrow> 'p client_env \<Rightarrow> string \<Rightarrow> string \<Rightarrow> string \<Rightarrow> relative_path
     \<Rightarrow> u64 \<Rightarrow> string \<Rightarrow> ('p, 'z, transferred_file) client_op" where
  "fetch_file_to_path x env endpoint device shared_secret_hex p size_bytes destination =
     bind_op (lift_result (peer_address_parse endpoint)) (\<lambda>address.
     bind_op (lift_result (signed_request_header x (cl_now env)
        \<lparr>pq_method = ''GET'', pq_endpoint = endpoint, pq_path = ''/file/'' @ encode_relative_path p,
         pq_device_id = device, pq_shared_secret_hex = shared_secret_hex, pq_body = [],
         pq_extra_headers = [], pq_response_limit_bytes = response_limit_bytes\<rparr>)) (\<lambda>request.
     bind_op (exchange env address [Inr request]) (\<lambda>s.
     bind_op (lift_result (received_head s)) (\<lambda>(head, s').
     bind_op (lift_result (check_download_head head size_bytes)) (\<lambda>(nonce, content_hash).
     (let encrypted = encrypted_download_path (cl_uuid env) destination in
     bind_op (on_local (store_download (cl_store_io env) encrypted (rh_content_length head) s')) (\<lambda>_.
     bind_op (on_local (map_op_err ClientPeerCrypto (decrypt_path x (cl_crypto_io env) (cl_partial env)
        encrypted destination shared_secret_hex nonce
        \<lparr>cx_direction = ''download'', cx_path = p, cx_content_hash = content_hash,
         cx_plaintext_size = size_bytes\<rparr>))) (\<lambda>decrypted.
     bind_op (on_local (remove_quietly (cl_remove_fault env) encrypted)) (\<lambda>_.
       lift_result (Inr \<lparr>tf_size_bytes = cf_size_bytes decrypted,
         tf_content_hash = cf_content_hash decrypted\<rparr>))))))))))"

section \<open>Uploads\<close>

record upload_file_response =
  ur_accepted :: bool
  ur_path :: relative_path
  ur_size_bytes :: u64
  ur_content_hash :: string

record delete_file_response =
  dr_accepted :: bool
  dr_path :: relative_path
  dr_size_bytes :: u64
  dr_content_hash :: string

record presence_response =
  pr_accepted :: bool
  pr_received_from :: string
  pr_local_presence :: peer_presence

text \<open>The serialisers of the client.\<close>

record client_codecs =
  ck_presence :: "peer_presence \<Rightarrow> string + string"
  ck_presence_response :: "string \<Rightarrow> string + presence_response"
  ck_manifest :: "string \<Rightarrow> string + folder_manifest"
  ck_upload :: "string \<Rightarrow> string + upload_file_response"
  ck_delete :: "string \<Rightarrow> string + delete_file_response"

definition file_sha256_hex ::
  "'x agent_externals_scheme \<Rightarrow> string option \<Rightarrow> string \<Rightarrow> disk \<Rightarrow> peer_client_error + string" where
  "file_sha256_hex x hash_fault path d =
     (case hash_fault of
        Some msg \<Rightarrow> Inl (ClientIo msg)
      | None \<Rightarrow>
          (case dk_files d path of
             None \<Rightarrow> Inl (ClientIo ''No such file or directory (os error 2)'')
           | Some bytes \<Rightarrow> Inr (hex_encode x (sha256 x bytes))))"

text \<open>The parts of a request that sends a file: its header, then the file as it is read.\<close>

definition upload_parts :: "'p client_env \<Rightarrow> string \<Rightarrow> string \<Rightarrow> disk \<Rightarrow> (string + string) list" where
  "upload_parts env header path d =
     Inr header # (case dk_files d path of
        None \<Rightarrow> [Inl ''No such file or directory (os error 2)'']
      | Some bytes \<Rightarrow> cl_reads env bytes)"

definition upload_header ::
  "peer_address \<Rightarrow> string \<Rightarrow> string \<Rightarrow> int \<Rightarrow> string \<Rightarrow> cryptographic_file \<Rightarrow> string \<Rightarrow> u64 \<Rightarrow> string" where
  "upload_header address request_path device timestamp signature encrypted content_hash size_bytes =
     ''PUT '' @ request_path @ '' HTTP/1.1'' @ crlf
     @ header_line ''host'' (pa_host address)
     @ header_line ''x-syncer-device-id'' device
     @ header_line ''x-syncer-timestamp'' (show_int timestamp)
     @ header_line ''x-syncer-signature'' signature
     @ header_line ''content-type'' ''application/octet-stream''
     @ header_line ''content-length'' (show_nat (unat (cf_size_bytes encrypted)))
     @ header_line ''x-syncer-content-hash'' content_hash
     @ header_line ''x-syncer-file-size'' (show_nat (unat size_bytes))
     @ header_line ''x-syncer-encryption'' encryption_algorithm
     @ header_line ''x-syncer-nonce'' (cf_nonce_hex encrypted)
     @ header_line ''connection'' ''close'' @ crlf"

definition put_file_from_path ::
  "'x agent_externals_scheme \<Rightarrow> client_codecs \<Rightarrow> 'p client_env \<Rightarrow> string \<Rightarrow> string \<Rightarrow> string
     \<Rightarrow> relative_path \<Rightarrow> string \<Rightarrow> string \<Rightarrow> u64 \<Rightarrow> ('p, 'z, upload_file_response) client_op" where
  "put_file_from_path x ck env endpoint device shared_secret_hex p content_hash file_path size_bytes =
     (let request_path = ''/file/'' @ encode_relative_path p;
          encrypted = encrypted_upload_path (cl_uuid env) file_path
      in
      bind_op (on_local (map_op_err ClientPeerCrypto (encrypt_path x (cl_crypto_io env) (cl_partial env)
         (cl_reads env) (cl_nonce env) file_path encrypted shared_secret_hex
         \<lparr>cx_direction = ''upload'', cx_path = p, cx_content_hash = content_hash,
          cx_plaintext_size = size_bytes\<rparr>))) (\<lambda>encrypted_file.
      if cf_content_hash encrypted_file \<noteq> content_hash
      then bind_op (on_local (remove_quietly (cl_remove_fault env) encrypted)) (\<lambda>_.
        lift_result (Inl PlaintextHashMismatch))
      else
      bind_op (read_op (\<lambda>w. file_sha256_hex x (cl_hash_fault env) encrypted (cw_disk w))) (\<lambda>body_sha256_hex.
      (let timestamp = unix_timestamp x (cl_now env) in
      bind_op (lift_result (map_err ClientSigning (sign_request_with_body_hash_hex x ''PUT'' request_path
         device timestamp body_sha256_hex shared_secret_hex))) (\<lambda>signature.
      bind_op (lift_result (peer_address_parse endpoint)) (\<lambda>address.
      bind_op (\<lambda>w. exchange env address (upload_parts env (upload_header address request_path device
         timestamp signature encrypted_file content_hash size_bytes) encrypted (cw_disk w)) w) (\<lambda>s.
      bind_op (on_local (remove_quietly (cl_remove_fault env) encrypted)) (\<lambda>_.
        lift_result (and_then (fst (read_to_end response_limit_bytes [] s)) (parse_json_response (ck_upload ck)))))))))))"

section \<open>Requests with JSON answers\<close>

definition request_json ::
  "'x agent_externals_scheme \<Rightarrow> 'p client_env \<Rightarrow> (string \<Rightarrow> string + 'a) \<Rightarrow> string \<Rightarrow> string
     \<Rightarrow> string \<Rightarrow> string \<Rightarrow> string \<Rightarrow> (string + string) option \<Rightarrow> (string \<times> string) list
     \<Rightarrow> ('p, 'z, 'a) client_op" where
  "request_json x env decode verb endpoint path device shared_secret_hex body extra_headers =
     bind_op (lift_result (case body of
         Some serialized \<Rightarrow> map_err ClientJson serialized | None \<Rightarrow> Inr [])) (\<lambda>bytes.
     bind_op (request_bytes x env \<lparr>pq_method = verb, pq_endpoint = endpoint, pq_path = path,
        pq_device_id = device, pq_shared_secret_hex = shared_secret_hex, pq_body = bytes,
        pq_extra_headers = extra_headers, pq_response_limit_bytes = response_limit_bytes\<rparr>) (\<lambda>response.
       lift_result (parse_json_response decode response)))"

definition post_presence ::
  "'x agent_externals_scheme \<Rightarrow> client_codecs \<Rightarrow> 'p client_env \<Rightarrow> string \<Rightarrow> string \<Rightarrow> string
     \<Rightarrow> peer_presence \<Rightarrow> ('p, 'z, presence_response) client_op" where
  "post_presence x ck env endpoint device shared_secret_hex presence =
     request_json x env (ck_presence_response ck) ''POST'' endpoint ''/presence'' device
       shared_secret_hex (Some (ck_presence ck presence)) []"

definition fetch_manifest ::
  "'x agent_externals_scheme \<Rightarrow> client_codecs \<Rightarrow> 'p client_env \<Rightarrow> string \<Rightarrow> string \<Rightarrow> string
     \<Rightarrow> ('p, 'z, folder_manifest) client_op" where
  "fetch_manifest x ck env endpoint device shared_secret_hex =
     request_json x env (ck_manifest ck) ''GET'' endpoint ''/manifest'' device shared_secret_hex None []"

definition delete_file ::
  "'x agent_externals_scheme \<Rightarrow> client_codecs \<Rightarrow> 'p client_env \<Rightarrow> string \<Rightarrow> string \<Rightarrow> string
     \<Rightarrow> relative_path \<Rightarrow> string \<Rightarrow> u64 \<Rightarrow> ('p, 'z, delete_file_response) client_op" where
  "delete_file x ck env endpoint device shared_secret_hex p content_hash size_bytes =
     request_json x env (ck_delete ck) ''DELETE'' endpoint (''/file/'' @ encode_relative_path p) device
       shared_secret_hex None
       [(''x-syncer-content-hash'', content_hash), (''x-syncer-file-size'', show_nat (unat size_bytes))]"

section \<open>What the client changes on disk\<close>

definition disk_within ::
  "string set \<Rightarrow> ('p, 'z) client_world_scheme \<Rightarrow> ('p, 'z) client_world_scheme \<Rightarrow> bool" where
  "disk_within T w w' \<longleftrightarrow> (\<forall>q. q \<notin> T \<longrightarrow> dk_files (cw_disk w') q = dk_files (cw_disk w) q)"

text \<open>The operations of the client change nothing of what a larger world adds.\<close>

definition client_frame ::
  "string set \<Rightarrow> ('p, 'z) client_world_scheme \<Rightarrow> ('p, 'z) client_world_scheme \<Rightarrow> bool" where
  "client_frame T w w' \<longleftrightarrow> disk_within T w w' \<and> client_world.more w' = client_world.more w"

interpretation client: frame_condition "client_frame T" for T
  by unfold_locales (auto simp: client_frame_def disk_within_def)

named_theorems client_intros \<open>steps that change no other files\<close>

lemma within_on_local:
  assumes "\<And>q d. q \<notin> T \<Longrightarrow> dk_files (snd (m d)) q = dk_files d q"
  shows "within (client_frame T) (on_local m)"
  using assms by (auto simp: within_def client_frame_def disk_within_def on_local_def split_beta)

lemma within_exchange [client_intros]: "within (client_frame T) (exchange env address parts)"
  by (auto simp: within_def client_frame_def disk_within_def exchange_def split: option.split prod.split)

lemma within_exchange_state [client_intros]:
  "within (client_frame T) (\<lambda>w. exchange env address (parts w) w)"
  unfolding within_def by (intro allI, rule withinD [OF within_exchange])

lemma within_request_bytes [client_intros]: "within (client_frame T) (request_bytes x env request)"
  unfolding request_bytes_def by (intro client_intros client.within_intros)

lemma within_request_json [client_intros]:
  "within (client_frame T) (request_json x env decode verb endpoint path device secret_hex body extra)"
  unfolding request_json_def by (intro client_intros client.within_intros)

lemma within_json_requests [client_intros]:
  "within (client_frame T) (post_presence x ck env endpoint device secret_hex presence)"
  "within (client_frame T) (fetch_manifest x ck env endpoint device secret_hex)"
  "within (client_frame T) (delete_file x ck env endpoint device secret_hex p content_hash size_bytes)"
  unfolding post_presence_def fetch_manifest_def delete_file_def by (rule within_request_json)+

lemma within_store_download:
  "path \<in> T \<Longrightarrow> within (client_frame T) (on_local (store_download io path len s))"
  by (rule within_on_local) (auto simp: store_download_def split: option.split prod.split)

lemma within_encrypt:
  "target \<in> T \<Longrightarrow> within (client_frame T)
     (on_local (map_op_err g (encrypt_path x io partial reads pre source target secret_hex cx)))"
  by (rule within_on_local, simp add: map_op_err_def split_beta, rule encrypt_path_frame) auto

lemma within_decrypt:
  "target \<in> T \<Longrightarrow> within (client_frame T)
     (on_local (map_op_err g (decrypt_path x io partial source target secret_hex nonce_hex cx)))"
  by (rule within_on_local, simp add: map_op_err_def split_beta, rule decrypt_path_frame) auto

lemma within_remove: "path \<in> T \<Longrightarrow> within (client_frame T) (on_local (remove_quietly f path))"
  by (rule within_on_local) (auto simp: remove_quietly_def fs_remove_file_def split: option.split)

lemma fetch_file_within:
  assumes "destination \<in> T" and "encrypted_download_path (cl_uuid env) destination \<in> T"
  shows "within (client_frame T) (fetch_file_to_path x env endpoint device secret_hex p size_bytes destination)"
  unfolding fetch_file_to_path_def Let_def
  by (auto intro!: client_intros client.within_intros within_store_download within_decrypt within_remove
      assms split: prod.split sum.split)

lemma put_file_within:
  assumes "encrypted_upload_path (cl_uuid env) file_path \<in> T"
  shows "within (client_frame T)
    (put_file_from_path x ck env endpoint device secret_hex p content_hash file_path size_bytes)"
  unfolding put_file_from_path_def Let_def
  by (auto intro!: client_intros client.within_intros within_encrypt within_remove assms)

section \<open>A download that succeeds\<close>

lemma on_local_Inr:
  "on_local m w = (Inr a, w') \<longleftrightarrow> (\<exists>d. m (cw_disk w) = (Inr a, d) \<and> w' = w\<lparr>cw_disk := d\<rparr>)"
  by (auto simp: on_local_def split: prod.splits)

lemma remove_quietly_Inr:
  "remove_quietly f path d = (r, d') \<Longrightarrow> q \<noteq> path \<Longrightarrow> dk_files d' q = dk_files d q"
  by (auto simp: remove_quietly_def fs_remove_file_def split: option.splits if_splits)

lemma exchange_disk: "exchange env address parts w = (r, w') \<Longrightarrow> cw_disk w' = cw_disk w"
  by (auto simp: exchange_def split: option.splits prod.splits)

lemma fetched_file:
  assumes "fetch_file_to_path x env endpoint device secret_hex p size_bytes destination w = (Inr t, w')"
    and "aead_laws x" and "encrypted_download_path (cl_uuid env) destination \<noteq> destination"
  shows "\<exists>plain. dk_files (cw_disk w') destination = Some plain \<and> length plain = unat size_bytes
    \<and> tf_content_hash t = blake3_hex x plain \<and> tf_size_bytes t = size_bytes"
proof -
  from assms(1) obtain nonce content_hash d1 d2 d3 f where
    dec: "decrypt_path x (cl_crypto_io env) (cl_partial env)
        (encrypted_download_path (cl_uuid env) destination) destination secret_hex nonce
        \<lparr>cx_direction = ''download'', cx_path = p, cx_content_hash = content_hash,
         cx_plaintext_size = size_bytes\<rparr> d1 = (Inr f, d2)"
    and rem: "remove_quietly (cl_remove_fault env) (encrypted_download_path (cl_uuid env) destination) d2
        = (Inr (), d3)"
    and t: "tf_size_bytes t = cf_size_bytes f" "tf_content_hash t = cf_content_hash f"
    and d3: "cw_disk w' = d3"
    by (auto simp: fetch_file_to_path_def bind_op_Inr lift_result_Inr on_local_Inr map_op_err_Inr Let_def)
  from decrypt_path_Inr [OF dec assms(2)] obtain plain where
    "d2 = set_file destination (Some plain) d1" "length plain = unat size_bytes"
    "cf_content_hash f = blake3_hex x plain" "cf_size_bytes f = size_bytes" by auto
  moreover from remove_quietly_Inr [OF rem, of destination] assms(3)
  have "dk_files d3 destination = dk_files d2 destination" by metis
  ultimately show ?thesis using t d3 by auto
qed

lemma removed_quietly:
  "f path = None \<Longrightarrow> on_local (remove_quietly f path) w = (r, w') \<Longrightarrow> dk_files (cw_disk w') path = None"
  by (auto simp: on_local_def remove_quietly_def fs_remove_file_def split: if_splits)

lemma uploaded_ciphertext_removed:
  assumes "put_file_from_path x ck env endpoint device secret_hex p content_hash file_path size_bytes w
      = (Inr r, w')"
    and "cl_remove_fault env (encrypted_upload_path (cl_uuid env) file_path) = None"
  shows "dk_files (cw_disk w') (encrypted_upload_path (cl_uuid env) file_path) = None"
proof -
  from assms(1) obtain t where
    "on_local (remove_quietly (cl_remove_fault env) (encrypted_upload_path (cl_uuid env) file_path)) t = (Inr (), w')"
    by (auto simp: put_file_from_path_def bind_op_Inr lift_result_Inr Let_def split: if_splits)
  with assms(2) show ?thesis by (rule removed_quietly)
qed

section \<open>Answers that arrive\<close>

text \<open>A stream that delivers its bytes is read the same however it is cut into segments.\<close>

lemma client_read_delivers:
  assumes "stream_bytes s = Some rest" and "rest \<noteq> []" and "0 < n"
  obtains b s' rest' where "client_read n s = (Inr b, s')" "b \<noteq> []" "length b \<le> n"
    "rest = b @ rest'" "stream_bytes s' = Some rest'"
  using tcp_read_delivers [OF assms] by (metis client_read_def map_op_err_def map_err_simps(2) split_conv)

lemma client_read_end: "client_read n [] = (Inr [], [])"
  by (simp add: client_read_def map_op_err_def)

lemma read_to_end_delivers:
  assumes "stream_bytes s = Some rest" and "length rest \<le> limit"
  shows "fst (read_to_end limit response s) = Inr (response @ rest)"
  using assms
proof (induction limit response s arbitrary: rest rule: read_to_end.induct)
  case (1 limit response s)
  show ?case
  proof (cases "rest = []")
    case True
    with 1(2) show ?thesis by (simp add: read_to_end.simps stream_bytes_Nil client_read_end)
  next
    case False
    with 1(3) have limit: "limit \<noteq> 0" by (cases rest) auto
    then have "0 < limit" by simp
    then obtain b s1 rest1 where r: "client_read limit s = (Inr b, s1)" "b \<noteq> []"
      "rest = b @ rest1" "stream_bytes s1 = Some rest1"
      using client_read_delivers [OF 1(2) False] by metis
    from 1(1) [OF limit r(1)[symmetric] refl r(2,4)] 1(3) r(3) limit r(1,2) show ?thesis
      by (simp add: read_to_end.simps [of limit])
  qed
qed

lemma ends_with_append: "ends_with p (s @ p)"
  by (simp add: ends_with_def)

lemma ends_with_split: "ends_with p s \<Longrightarrow> \<exists>t. s = t @ p"
  by (metis ends_with_def starts_with_def append_take_drop_id rev_append rev_rev_ident)

text \<open>The head ends with the first blank line, so that is where the loop stops.\<close>

lemma find_header_end_last:
  assumes "find_header_end buf = Some n" and "length buf = n + 4"
  shows "ends_with (crlf @ crlf) buf"
  using assms
proof (induction buf arbitrary: n)
  case (Cons c cs)
  show ?case
  proof (cases "starts_with (crlf @ crlf) (c # cs)")
    case True
    with Cons.prems have "length (c # cs) = 4" by simp
    with True have "c # cs = crlf @ crlf" by (simp add: starts_with_def crlf_def)
    then show ?thesis using ends_with_append [of "crlf @ crlf" "[]"] by simp
  next
    case False
    with Cons.prems obtain m where "find_header_end cs = Some m" "length cs = m + 4" by auto
    with Cons.IH obtain t where "cs = t @ crlf @ crlf" using ends_with_split by metis
    then show ?thesis using ends_with_append [of "crlf @ crlf" "c # t"] by simp
  qed
qed simp

lemma find_header_end_exists: "find_header_end (t @ crlf @ crlf) \<noteq> None"
  by (induction t) (auto simp: crlf_def starts_with_def)

lemma not_ended_before:
  assumes "find_header_end (buf @ rest) = Some n" and "length buf < n + 4"
  shows "\<not> ends_with (crlf @ crlf) buf"
proof
  assume "ends_with (crlf @ crlf) buf"
  then obtain t where "buf = t @ crlf @ crlf" using ends_with_split by blast
  then obtain m where m: "find_header_end buf = Some m" using find_header_end_exists [of t] by auto
  with find_header_end_append [OF m, of rest] find_header_end_bound [OF m] assms show False by simp
qed

lemma response_head_loop_delivers:
  assumes "stream_bytes s = Some (missing @ rest)" and "find_header_end (buffer @ missing) = Some n"
    and "length (buffer @ missing) = n + 4" and "missing \<noteq> []" and "n + 4 \<le> response_header_limit_bytes"
  shows "\<exists>s'. response_head_loop buffer s = (Inr (buffer @ missing), s') \<and> stream_bytes s' = Some rest"
  using assms
proof (induction buffer s arbitrary: missing rule: response_head_loop.induct)
  case (1 buffer s)
  from 1(5) have "missing @ rest \<noteq> []" by simp
  with 1(2) obtain b s1 rest1 where r: "client_read 1 s = (Inr b, s1)" "b \<noteq> []" "length b \<le> 1"
    "missing @ rest = b @ rest1" "stream_bytes s1 = Some rest1"
    using client_read_delivers [of s "missing @ rest" 1] by auto
  from r(2,3) obtain c where b: "b = [c]" by (cases b) auto
  with r(4) 1(5) obtain m where m: "missing = c # m" "rest1 = m @ rest" by (cases missing) auto
  have fits: "\<not> response_header_limit_bytes < length (buffer @ b)" using 1(4,6) b m by simp
  show ?case
  proof (cases "m = []")
    case True
    with m b 1(3,4) find_header_end_last [of "buffer @ b" n]
    have "ends_with (crlf @ crlf) (buffer @ b)" by simp
    with r m True b fits show ?thesis by (simp add: response_head_loop.simps [of buffer])
  next
    case False
    have full: "(buffer @ b) @ m = buffer @ missing" using m b by simp
    have "\<not> ends_with (crlf @ crlf) (buffer @ b)"
      by (rule not_ended_before [of _ m n]) (use 1(3,4) m b False full in \<open>auto simp: neq_Nil_conv\<close>)
    with 1(1) [OF r(1)[symmetric] refl r(2) fits] r(1,2,5) m 1(3,4,6) fits False full show ?thesis
      by (simp add: response_head_loop.simps [of buffer])
  qed
qed

lemma copy_exact_delivers:
  assumes "stream_bytes s = Some rest" and "length rest = unat len" and "no_spool_faults io"
  shows "copy_exact io k len (s, content) = (Inr (), [], content @ rest)"
  using assms
proof (induction io k len "(s, content)" arbitrary: s content rest rule: copy_exact.induct)
  case (1 io k len s content)
  show ?case
  proof (cases "rest = []")
    case True
    then have "len = 0" using 1(3) by (simp add: unat_eq_0)
    with True 1(2) show ?thesis by (simp add: copy_exact.simps stream_bytes_Nil)
  next
    case False
    then have "0 < unat len" using 1(3) by (cases rest) auto
    then have lt: "0 < len" by (simp add: word_less_nat_alt)
    let ?n = "unat (min len (64 * 1024))"
    have "0 < ?n" using lt by (simp add: min_def word_less_nat_alt)
    then obtain b s1 rest1 where r: "client_read ?n s = (Inr b, s1)" "b \<noteq> []"
      "rest = b @ rest1" "stream_bytes s1 = Some rest1"
      using client_read_delivers [OF 1(2) False] by metis
    have w: "store_write io k b (s1, content) = (Inr (), s1, content @ b)"
      using 1(4) by (simp add: store_write_def no_spool_faults_def)
    have "length b < 2 ^ 64" using 1(3) r(3) unat_u64_lt [of len] by simp
    then have "length rest1 = unat (saturating_sub len (len_u64 b))"
      using 1(3) r(3) by (simp add: u64_simps)
    from 1(1) [OF lt r(1)[symmetric] refl r(2) w[symmetric] refl r(4) this 1(4)] lt r w show ?thesis
      by (simp add: copy_exact.simps [of io k len])
  qed
qed

text \<open>An answer that says 200, the algorithm, nonce and hash, and has the expected length.\<close>

lemma fetch_completes:
  assumes "peer_address_parse endpoint = Inr address" and "cl_connect_fault env address = None"
    and "\<And>k. cl_send_fault env k = None"
    and "signed_request_header x (cl_now env)
        \<lparr>pq_method = ''GET'', pq_endpoint = endpoint, pq_path = ''/file/'' @ encode_relative_path p,
         pq_device_id = device, pq_shared_secret_hex = secret_hex, pq_body = [],
         pq_extra_headers = [], pq_response_limit_bytes = response_limit_bytes\<rparr> = Inr request"
    and "cl_answer env address (cw_peer w) request = (s, peer')"
    and "stream_bytes s = Some (head @ cipher)" and "find_header_end head = Some n"
    and "length head = n + 4" and "n + 4 \<le> response_header_limit_bytes"
    and "parse_response_head head = Inr h" and "check_download_head h size_bytes = Inr (nonce, hash)"
    and "length cipher = unat (encrypted_len size_bytes)" and "no_spool_faults (cl_store_io env)"
    and "no_io_faults (cl_crypto_io env)"
    and "decrypt_file_to_path x (cl_crypto_io env) cipher secret_hex nonce
        \<lparr>cx_direction = ''download'', cx_path = p, cx_content_hash = hash,
         cx_plaintext_size = size_bytes\<rparr> = Inr (f, plain)"
  shows "\<exists>w'. fetch_file_to_path x env endpoint device secret_hex p size_bytes destination w
    = (Inr \<lparr>tf_size_bytes = cf_size_bytes f, tf_content_hash = cf_content_hash f\<rparr>, w') \<and> cw_peer w' = peer'"
proof -
  let ?enc = "encrypted_download_path (cl_uuid env) destination"
  have "head \<noteq> []" using assms(8) by auto
  with response_head_loop_delivers [of s head cipher "[]" n] assms(6-9) obtain s' where
    loop: "response_head_loop [] s = (Inr head, s')" "stream_bytes s' = Some cipher" by auto
  have head: "received_head s = Inr (h, s')"
    using loop(1) assms(10) by (simp add: received_head_def read_response_head_def bind_op_def)
  have len: "rh_content_length h = encrypted_len size_bytes"
    using assms(11) by (auto simp: check_download_head_def and_then_Inr_iff split: if_splits)
  have stored: "store_download (cl_store_io env) ?enc (rh_content_length h) s' d
      = (Inr (), set_file ?enc (Some cipher) d)" for d
    using copy_exact_delivers [OF loop(2) _ assms(13), of "rh_content_length h" 0 "[]"] len assms(12,13)
    by (simp add: store_download_def no_spool_faults_def)
  have "request \<noteq> []" using assms(4) by (auto simp: signed_request_header_def and_then_Inr_iff Let_def)
  then have sent: "exchange env address [Inr request] w = (Inr s, w\<lparr>cw_peer := peer'\<rparr>)"
    using assms(2,3,5) by (simp add: exchange_def)
  show ?thesis
    using assms(1,4,11,15) sent head stored
    by (auto simp: fetch_file_to_path_def bind_op_def on_local_def map_op_err_def Let_def
        decrypt_path_def cipher_source_def cipher_into_def remove_quietly_def split: prod.split)
qed

text \<open>A request with a JSON answer: what the peer answered, if it is not too long, is decoded.\<close>

lemma request_json_completes:
  assumes "(case body of Some serialized \<Rightarrow> map_err ClientJson serialized | None \<Rightarrow> Inr []) = Inr bytes"
    and "peer_address_parse endpoint = Inr address" and "cl_connect_fault env address = None"
    and "\<And>k. cl_send_fault env k = None"
    and "signed_request_header x (cl_now env) \<lparr>pq_method = verb, pq_endpoint = endpoint, pq_path = path,
        pq_device_id = device, pq_shared_secret_hex = secret_hex, pq_body = bytes,
        pq_extra_headers = extra_headers, pq_response_limit_bytes = response_limit_bytes\<rparr> = Inr header"
    and "cl_answer env address (cw_peer w) (header @ bytes) = (s, peer')"
    and "stream_bytes s = Some response" and "length response \<le> response_limit_bytes"
  shows "request_json x env decode verb endpoint path device secret_hex body extra_headers w
    = (parse_json_response decode response, w\<lparr>cw_peer := peer'\<rparr>)"
proof -
  have "header \<noteq> []" using assms(5) by (auto simp: signed_request_header_def and_then_Inr_iff Let_def header_line_def)
  then have "exchange env address [Inr header, Inr bytes] w = (Inr s, w\<lparr>cw_peer := peer'\<rparr>)"
    using assms(3,4,6) by (cases "bytes = []") (simp_all add: exchange_def)
  with assms(1,2,5) read_to_end_delivers [OF assms(7,8), of "[]"] show ?thesis
    by (simp add: request_json_def request_bytes_def bind_op_def)
qed

section \<open>Properties\<close>


definition sample_answer :: string where
  "sample_answer = ''HTTP/1.1 200 OK'' @ crlf
     @ header_line ''content-length'' ''21''
     @ header_line ''X-Syncer-Encryption'' encryption_algorithm
     @ header_line ''x-syncer-nonce'' (replicate 16 CHR ''n'')
     @ header_line ''x-syncer-content-hash'' ''hello'' @ crlf"

definition sample_client_env :: "unit client_env" where
  "sample_client_env = \<lparr>cl_now = 1000, cl_connect_fault = \<lambda>_. None, cl_send_fault = \<lambda>_. None,
     cl_answer = (\<lambda>_ peer sent. ([Segment (sample_answer @ ''hello''), Segment (replicate 16 CHR ''t'')], peer)), cl_crypto_io = sample_io,
     cl_partial = None, cl_reads = (\<lambda>bytes. [Inr bytes]), cl_nonce = replicate 16 CHR ''n'',
     cl_hash_fault = None, cl_store_io = \<lparr>sp_create_dir = None, sp_create = None, sp_write = \<lambda>_. None,
       sp_sync = None\<rparr>, cl_remove_fault = \<lambda>_. None, cl_uuid = ''u''\<rparr>"

definition sample_client_world :: "unit client_world" where
  "sample_client_world = \<lparr>cw_disk = \<lparr>dk_files = (\<lambda>_. None)(''/d/kept'' \<mapsto> ''x'')\<rparr>, cw_peer = ()\<rparr>"

lemma sample_fetch_completes:
  fixes w :: "(unit, 'z) client_world_scheme"
  shows "\<exists>w'. fetch_file_to_path sample_agent_externals sample_client_env ''http://10.0.0.2:80'' device
    (replicate 32 CHR ''k'') (RelativePath ''a'') 5 destination w
    = (Inr \<lparr>tf_size_bytes = 5, tf_content_hash = ''hello''\<rparr>, w')"
proof -
  have "is_ok (peer_address_parse ''http://10.0.0.2:80'')" by code_simp
  then obtain address where address: "peer_address_parse ''http://10.0.0.2:80'' = Inr address"
    by (auto simp: is_ok_iff)
  then obtain request where request: "signed_request_header sample_agent_externals (cl_now sample_client_env)
      \<lparr>pq_method = ''GET'', pq_endpoint = ''http://10.0.0.2:80'',
       pq_path = ''/file/'' @ encode_relative_path (RelativePath ''a''), pq_device_id = device,
       pq_shared_secret_hex = replicate 32 CHR ''k'', pq_body = [], pq_extra_headers = [],
       pq_response_limit_bytes = response_limit_bytes\<rparr> = Inr request"
    by (auto simp: signed_request_header_def sign_request_def sign_request_with_body_hash_hex_def
        sample_agent_externals_def Let_def)
  have "case and_then (parse_response_head sample_answer) (\<lambda>h. check_download_head h 5) of
      Inr (nonce, hash) \<Rightarrow> nonce = replicate 16 CHR ''n'' \<and> hash = ''hello'' | _ \<Rightarrow> False" by code_simp
  then obtain h where h: "parse_response_head sample_answer = Inr h"
    "check_download_head h 5 = Inr (replicate 16 CHR ''n'', ''hello'')"
    by (auto simp: and_then_def split: sum.splits)
  have "case decrypt_file_to_path sample_agent_externals sample_io (''hello'' @ replicate 16 CHR ''t'')
      (replicate 32 CHR ''k'') (replicate 16 CHR ''n'')
      \<lparr>cx_direction = ''download'', cx_path = RelativePath ''a'', cx_content_hash = ''hello'', cx_plaintext_size = 5\<rparr>
      of Inr (f, plain) \<Rightarrow> cf_size_bytes f = 5 \<and> cf_content_hash f = ''hello'' | _ \<Rightarrow> False" by code_simp
  then obtain f plain where dec: "decrypt_file_to_path sample_agent_externals sample_io
      (''hello'' @ replicate 16 CHR ''t'') (replicate 32 CHR ''k'') (replicate 16 CHR ''n'')
      \<lparr>cx_direction = ''download'', cx_path = RelativePath ''a'', cx_content_hash = ''hello'', cx_plaintext_size = 5\<rparr>
      = Inr (f, plain)" and f: "cf_size_bytes f = 5" "cf_content_hash f = ''hello''"
    by (auto split: sum.splits)
  have head: "find_header_end sample_answer = Some (length sample_answer - 4)"
    "length sample_answer = (length sample_answer - 4) + 4" "length sample_answer < 200" by code_simp+
  let ?s = "[Segment (sample_answer @ ''hello''), Segment (replicate 16 CHR ''t'')]"
  have "sample_answer \<noteq> []" using head(2) by (metis add_is_0 list.size(3) zero_neq_numeral)
  then have bytes: "stream_bytes ?s = Some (sample_answer @ ''hello'' @ replicate 16 CHR ''t'')" by simp
  have limit: "length sample_answer - 4 + 4 \<le> response_header_limit_bytes"
    using head(3) by (simp add: response_header_limit_bytes_def)
  have len: "length (''hello'' @ replicate 16 CHR ''t'') = unat (encrypted_len 5)" by code_simp
  have env: "cl_connect_fault sample_client_env address = None"
    "\<And>k. cl_send_fault sample_client_env k = None"
    "cl_answer sample_client_env address (cw_peer w) request = (?s, ())"
    "no_spool_faults (cl_store_io sample_client_env)" "no_io_faults (cl_crypto_io sample_client_env)"
    "cl_crypto_io sample_client_env = sample_io"
    by (simp_all add: sample_client_env_def no_spool_faults_def no_io_faults_def sample_io_def)
  show ?thesis
    using fetch_completes [OF address env(1,2) request env(3) bytes head(1,2) limit h len env(4,5)
      dec [folded env(6)]] f by auto
qed

definition sample_fetch :: "(peer_client_error + transferred_file) \<times> unit client_world" where
  "sample_fetch = fetch_file_to_path sample_agent_externals sample_client_env ''http://10.0.0.2:80'' ''dev''
     (replicate 32 CHR ''k'') (RelativePath ''a'') 5 ''/d/a.part'' sample_client_world"


text \<open>
  When the connection is refused the ciphertext stays beside the user's file, inside the
  folder, where the next scan finds it.
\<close>

lemma failed_upload_leaves_ciphertext:
  assumes "peer_address_parse endpoint = Inr address" and "cl_connect_fault env address = Some msg"
    and "cl_hash_fault env = None" and "is_ok (hex_decode x secret_hex)"
    and "\<And>key payload. hmac_sha256 x key payload \<noteq> None"
    and "encrypt_path x (cl_crypto_io env) (cl_partial env) (cl_reads env) (cl_nonce env) file_path
      (encrypted_upload_path (cl_uuid env) file_path) secret_hex
      \<lparr>cx_direction = ''upload'', cx_path = p, cx_content_hash = cf_content_hash f,
       cx_plaintext_size = size_bytes\<rparr> (cw_disk w) = (Inr f, d)"
  shows "put_file_from_path x ck env endpoint device secret_hex p (cf_content_hash f) file_path size_bytes w
      = (Inl (ClientIo msg), w\<lparr>cw_disk := d\<rparr>)
    \<and> dk_files d (encrypted_upload_path (cl_uuid env) file_path) \<noteq> None"
proof -
  from encrypt_path_Inr [OF assms(6)] obtain cipher where
    "d = set_file (encrypted_upload_path (cl_uuid env) file_path) (Some cipher) (cw_disk w)" by blast
  moreover obtain key where "hex_decode x secret_hex = Inr key" using assms(4) by (auto simp: is_ok_iff)
  moreover have "\<exists>mac. hmac_sha256 x k payload = Some mac" for k payload using assms(5) by blast
  ultimately show ?thesis
    using assms(1-3,6)
    by (auto simp: put_file_from_path_def bind_op_def on_local_def map_op_err_def Let_def file_sha256_hex_def
        sign_request_with_body_hash_hex_def exchange_def and_then_def ok_or_def split: option.split)
qed

end
