(* ===== verification/Sync_Planning.thy ===== *)
theory Sync_Planning
  imports State_Files
begin

text \<open>
  \<open>planning.rs\<close>: the comparison of two manifests. The plan walks the union of the paths in
  order, decides one action per path from the two records, lets the folder's mode block
  one direction, and counts the actions. The lemmas give the plan as a map over the sorted
  paths, the meaning of every action, and the counters as exact numbers.
\<close>

section \<open>Presence classification\<close>

datatype file_presence = Present file_entry | MissingKnown | UnknownPresence

datatype change_classification =
    ClsInSync
  | ClsLocalOnlyDelete
  | ClsRemoteOnlyDelete
  | ClsLocalNeedsDownload
  | ClsRemoteNeedsUpload
  | ClsConflict
  | ClsUnknown

fun classify_file_presence ::
  "file_presence \<Rightarrow> file_presence \<Rightarrow> file_entry option \<Rightarrow> change_classification" where
  "classify_file_presence (Present left) (Present right) common_base =
     (if fe_content_hash left = fe_content_hash right \<and> fe_size_bytes left = fe_size_bytes right
      then ClsInSync
      else (case common_base of
        Some base \<Rightarrow>
          (let local_changed = (fe_content_hash left \<noteq> fe_content_hash base);
               remote_changed = (fe_content_hash right \<noteq> fe_content_hash base)
           in case (local_changed, remote_changed) of
                (True, True) \<Rightarrow> ClsConflict
              | (True, False) \<Rightarrow> ClsRemoteNeedsUpload
              | (False, True) \<Rightarrow> ClsLocalNeedsDownload
              | (False, False) \<Rightarrow> ClsInSync)
      | None \<Rightarrow> ClsConflict))"
| "classify_file_presence MissingKnown (Present _) _ = ClsLocalOnlyDelete"
| "classify_file_presence (Present _) MissingKnown _ = ClsRemoteOnlyDelete"
| "classify_file_presence UnknownPresence _ _ = ClsUnknown"
| "classify_file_presence _ UnknownPresence _ = ClsUnknown"
| "classify_file_presence MissingKnown MissingKnown _ = ClsInSync"

section \<open>Plans\<close>

datatype sync_action =
    InSync
  | UploadToRemote
  | DownloadFromRemote
  | Conflict
  | LocalMissingUnsynchronized
  | RemoteMissingUnsynchronized
  | ModeBlocked

record sync_plan_entry =
  sp_path :: string
  sp_action :: sync_action
  sp_local_size_bytes :: "u64 option"
  sp_remote_size_bytes :: "u64 option"
  sp_local_content_hash :: "string option"
  sp_remote_content_hash :: "string option"
  sp_reason :: string

record sync_plan_summary =
  ss_in_sync :: u64
  ss_upload_to_remote :: u64
  ss_download_from_remote :: u64
  ss_conflicts :: u64
  ss_local_missing_unsynchronized :: u64
  ss_remote_missing_unsynchronized :: u64
  ss_mode_blocked :: u64

record sync_plan =
  pl_local_device_id :: string
  pl_remote_device_id :: string
  pl_entries :: "sync_plan_entry list"
  pl_summary :: sync_plan_summary

definition default_summary :: sync_plan_summary where
  "default_summary = \<lparr>ss_in_sync = 0, ss_upload_to_remote = 0, ss_download_from_remote = 0,
     ss_conflicts = 0, ss_local_missing_unsynchronized = 0,
     ss_remote_missing_unsynchronized = 0, ss_mode_blocked = 0\<rparr>"

definition entry ::
  "string \<Rightarrow> sync_action \<Rightarrow> u64 option \<Rightarrow> u64 option \<Rightarrow> string option \<Rightarrow> string option
     \<Rightarrow> string \<Rightarrow> sync_plan_entry" where
  "entry path action lsize rsize lhash rhash reason =
     \<lparr>sp_path = path, sp_action = action, sp_local_size_bytes = lsize,
      sp_remote_size_bytes = rsize, sp_local_content_hash = lhash,
      sp_remote_content_hash = rhash, sp_reason = reason\<rparr>"

definition plan_existing_path :: "string \<Rightarrow> file_record \<Rightarrow> file_record \<Rightarrow> sync_plan_entry" where
  "plan_existing_path path local remote =
     (if rec_sync_state local = UnsynchronizedLocalMissing
      then entry path LocalMissingUnsynchronized
             (Some (rec_size_bytes local)) (Some (rec_size_bytes remote))
             (rec_content_hash local) (rec_content_hash remote)
             ''local side is missing a previously known file''
      else if rec_sync_state remote = UnsynchronizedLocalMissing
      then entry path RemoteMissingUnsynchronized
             (Some (rec_size_bytes local)) (Some (rec_size_bytes remote))
             (rec_content_hash local) (rec_content_hash remote)
             ''remote side is missing a previously known file''
      else if rec_content_hash local = rec_content_hash remote
              \<and> rec_size_bytes local = rec_size_bytes remote
      then entry path InSync
             (Some (rec_size_bytes local)) (Some (rec_size_bytes remote))
             (rec_content_hash local) (rec_content_hash remote)
             ''content hash and size match''
      else entry path Conflict
             (Some (rec_size_bytes local)) (Some (rec_size_bytes remote))
             (rec_content_hash local) (rec_content_hash remote)
             ''both sides have different content and no common base version is known'')"

fun plan_path ::
  "string \<Rightarrow> file_record option \<Rightarrow> file_record option \<Rightarrow> sync_plan_entry" where
  "plan_path path (Some local) (Some remote) = plan_existing_path path local remote"
| "plan_path path (Some local) None =
     (if rec_sync_state local = UnsynchronizedLocalMissing
      then entry path LocalMissingUnsynchronized (Some (rec_size_bytes local)) None
             (rec_content_hash local) None ''local side is missing a previously known file''
      else entry path UploadToRemote (Some (rec_size_bytes local)) None
             (rec_content_hash local) None ''remote side does not have this file'')"
| "plan_path path None (Some remote) =
     (if rec_sync_state remote = UnsynchronizedLocalMissing
      then entry path RemoteMissingUnsynchronized None (Some (rec_size_bytes remote))
             None (rec_content_hash remote) ''remote side is missing a previously known file''
      else entry path DownloadFromRemote None (Some (rec_size_bytes remote))
             None (rec_content_hash remote) ''local side does not have this file'')"
| "plan_path path None None =
     entry path InSync None None None None ''file absent on both sides''"

definition apply_folder_mode :: "sync_plan_entry \<Rightarrow> folder_mode \<Rightarrow> sync_plan_entry" where
  "apply_folder_mode e mode =
     (let blocked = (case (mode, sp_action e) of
            (UploadOnly, DownloadFromRemote) \<Rightarrow> Some ''folder is upload-only''
          | (DownloadOnly, UploadToRemote) \<Rightarrow> Some ''folder is download-only''
          | _ \<Rightarrow> None)
      in case blocked of
           Some reason \<Rightarrow> e\<lparr>sp_action := ModeBlocked, sp_reason := reason\<rparr>
         | None \<Rightarrow> e)"

fun increment_summary :: "sync_plan_summary \<Rightarrow> sync_action \<Rightarrow> sync_plan_summary" where
  "increment_summary s InSync = s\<lparr>ss_in_sync := saturating_add (ss_in_sync s) 1\<rparr>"
| "increment_summary s UploadToRemote =
     s\<lparr>ss_upload_to_remote := saturating_add (ss_upload_to_remote s) 1\<rparr>"
| "increment_summary s DownloadFromRemote =
     s\<lparr>ss_download_from_remote := saturating_add (ss_download_from_remote s) 1\<rparr>"
| "increment_summary s Conflict = s\<lparr>ss_conflicts := saturating_add (ss_conflicts s) 1\<rparr>"
| "increment_summary s LocalMissingUnsynchronized =
     s\<lparr>ss_local_missing_unsynchronized :=
         saturating_add (ss_local_missing_unsynchronized s) 1\<rparr>"
| "increment_summary s RemoteMissingUnsynchronized =
     s\<lparr>ss_remote_missing_unsynchronized :=
         saturating_add (ss_remote_missing_unsynchronized s) 1\<rparr>"
| "increment_summary s ModeBlocked =
     s\<lparr>ss_mode_blocked := saturating_add (ss_mode_blocked s) 1\<rparr>"

text \<open>
  \<open>collect::<BTreeMap<String, _>>()\<close>: a later record of a path replaces an earlier one;
  iteration is in key order.
\<close>

definition files_by_path :: "file_record list \<Rightarrow> string \<Rightarrow> file_record option" where
  "files_by_path files = map_of (rev (map (\<lambda>f. (path_str (rec_path f), f)) files))"

definition manifest_keys :: "file_record list \<Rightarrow> string list" where
  "manifest_keys files = map (\<lambda>f. path_str (rec_path f)) files"

definition union_paths :: "file_record list \<Rightarrow> file_record list \<Rightarrow> string list" where
  "union_paths local remote = sort (remdups (manifest_keys local @ manifest_keys remote))"

definition plan_step ::
  "(string \<Rightarrow> file_record option) \<Rightarrow> (string \<Rightarrow> file_record option) \<Rightarrow> folder_mode
     \<Rightarrow> sync_plan \<Rightarrow> string \<Rightarrow> sync_plan" where
  "plan_step local_by_path remote_by_path mode plan path =
     (let e = apply_folder_mode (plan_path path (local_by_path path) (remote_by_path path)) mode
      in plan\<lparr>pl_summary := increment_summary (pl_summary plan) (sp_action e),
              pl_entries := pl_entries plan @ [e]\<rparr>)"

definition plan_manifest_sync_for_mode ::
  "folder_manifest \<Rightarrow> folder_manifest \<Rightarrow> folder_mode \<Rightarrow> sync_plan" where
  "plan_manifest_sync_for_mode local remote mode =
     foldl (plan_step (files_by_path (fm_files local)) (files_by_path (fm_files remote)) mode)
       \<lparr>pl_local_device_id = device_id_text (fm_device_id local),
        pl_remote_device_id = device_id_text (fm_device_id remote),
        pl_entries = [], pl_summary = default_summary\<rparr>
       (union_paths (fm_files local) (fm_files remote))"

definition plan_manifest_sync :: "folder_manifest \<Rightarrow> folder_manifest \<Rightarrow> sync_plan" where
  "plan_manifest_sync local remote = plan_manifest_sync_for_mode local remote Bidirectional"

section \<open>The plan as a map over the sorted paths\<close>

definition planned_entry ::
  "folder_manifest \<Rightarrow> folder_manifest \<Rightarrow> folder_mode \<Rightarrow> string \<Rightarrow> sync_plan_entry" where
  "planned_entry local remote mode p =
     apply_folder_mode (plan_path p (files_by_path (fm_files local) p)
       (files_by_path (fm_files remote) p)) mode"

lemma plan_steps:
  "pl_entries (foldl (plan_step l r mode) plan ps) =
     pl_entries plan @ map (\<lambda>p. apply_folder_mode (plan_path p (l p) (r p)) mode) ps"
  "pl_summary (foldl (plan_step l r mode) plan ps) =
     foldl increment_summary (pl_summary plan)
       (map (\<lambda>p. sp_action (apply_folder_mode (plan_path p (l p) (r p)) mode)) ps)"
  by (induction ps arbitrary: plan) (simp_all add: plan_step_def Let_def)

lemma plan_entries_eq:
  "pl_entries (plan_manifest_sync_for_mode local remote mode) =
     map (planned_entry local remote mode) (union_paths (fm_files local) (fm_files remote))"
  by (simp add: plan_manifest_sync_for_mode_def plan_steps planned_entry_def comp_def)

lemma plan_summary_eq:
  "pl_summary (plan_manifest_sync_for_mode local remote mode) =
     foldl increment_summary default_summary
       (map sp_action (pl_entries (plan_manifest_sync_for_mode local remote mode)))"
  by (simp add: plan_entries_eq)
    (simp add: plan_manifest_sync_for_mode_def plan_steps planned_entry_def comp_def)

lemma plan_devices:
  "pl_remote_device_id (plan_manifest_sync_for_mode local remote mode)
     = device_id_text (fm_device_id remote)"
proof -
  have "pl_remote_device_id (foldl (plan_step l r mode) plan ps) = pl_remote_device_id plan"
    for l r plan ps
    by (induction ps arbitrary: plan) (simp_all add: plan_step_def Let_def)
  then show ?thesis by (simp add: plan_manifest_sync_for_mode_def)
qed

lemma entry_simps [simp]:
  "sp_path (entry p a ls rs lh rh why) = p"
  "sp_action (entry p a ls rs lh rh why) = a"
  "sp_local_size_bytes (entry p a ls rs lh rh why) = ls"
  "sp_remote_size_bytes (entry p a ls rs lh rh why) = rs"
  "sp_local_content_hash (entry p a ls rs lh rh why) = lh"
  "sp_remote_content_hash (entry p a ls rs lh rh why) = rh"
  by (simp_all add: entry_def)

lemma plan_path_path [simp]: "sp_path (plan_path p l r) = p"
  by (cases "(p, l, r)" rule: plan_path.cases) (simp_all add: plan_existing_path_def)

lemma apply_folder_mode_frame [simp]:
  "sp_path (apply_folder_mode e m) = sp_path e"
  "sp_local_size_bytes (apply_folder_mode e m) = sp_local_size_bytes e"
  "sp_remote_size_bytes (apply_folder_mode e m) = sp_remote_size_bytes e"
  "sp_local_content_hash (apply_folder_mode e m) = sp_local_content_hash e"
  "sp_remote_content_hash (apply_folder_mode e m) = sp_remote_content_hash e"
  by (auto simp: apply_folder_mode_def Let_def split: option.splits)

lemma planned_entry_path [simp]: "sp_path (planned_entry local remote mode p) = p"
  by (simp add: planned_entry_def)

lemma apply_folder_mode_action:
  "sp_action (apply_folder_mode e m) =
     (if m = UploadOnly \<and> sp_action e = DownloadFromRemote
         \<or> m = DownloadOnly \<and> sp_action e = UploadToRemote
      then ModeBlocked else sp_action e)"
  by (cases m; cases "sp_action e") (simp_all add: apply_folder_mode_def)

lemma set_union_paths [simp]:
  "set (union_paths l r) = set (manifest_keys l) \<union> set (manifest_keys r)"
  by (simp add: union_paths_def)

lemma union_paths_sorted: "sorted (union_paths l r)" "distinct (union_paths l r)"
  by (simp_all add: union_paths_def)

lemma plan_paths:
  "map sp_path (pl_entries (plan_manifest_sync_for_mode local remote mode))
     = union_paths (fm_files local) (fm_files remote)"
  by (simp add: plan_entries_eq comp_def)

lemma files_by_path_None_iff: "files_by_path fs p = None \<longleftrightarrow> p \<notin> set (manifest_keys fs)"
  by (auto simp: files_by_path_def manifest_keys_def map_of_eq_None_iff image_iff)

lemma files_by_path_Some:
  "files_by_path fs p = Some f \<Longrightarrow> f \<in> set fs \<and> path_str (rec_path f) = p"
  by (auto simp: files_by_path_def dest: map_of_SomeD)

lemma union_paths_commute: "union_paths l r = union_paths r l"
proof -
  have "set (union_paths l r) = set (union_paths r l)" by auto
  then show ?thesis
    by (intro sorted_distinct_set_unique union_paths_sorted)
qed

text \<open>The entry for a path, if it is in the plan.\<close>

definition action_at :: "sync_plan \<Rightarrow> string \<Rightarrow> sync_action option" where
  "action_at plan p = map_option sp_action (find_row sp_path p (pl_entries plan))"

lemma find_planned:
  "find_row sp_path p (map (planned_entry l r m) ps) =
     (if p \<in> set ps then Some (planned_entry l r m p) else None)"
  by (induction ps) (auto simp: find_row_Cons)

lemma action_at_eq:
  "action_at (plan_manifest_sync_for_mode local remote mode) p =
     (if p \<in> set (manifest_keys (fm_files local)) \<union> set (manifest_keys (fm_files remote))
      then Some (sp_action (planned_entry local remote mode p)) else None)"
  by (simp add: action_at_def plan_entries_eq find_planned)

lemma entry_in_plan:
  assumes "e \<in> set (pl_entries (plan_manifest_sync_for_mode local remote mode))"
  shows "e = planned_entry local remote mode (sp_path e)"
    and "sp_path e \<in> set (manifest_keys (fm_files local)) \<union> set (manifest_keys (fm_files remote))"
  using assms by (auto simp: plan_entries_eq)

section \<open>Exact counters\<close>

lemma increment_summary_counters:
  "ss_in_sync (increment_summary s a) =
     (if a = InSync then saturating_add (ss_in_sync s) 1 else ss_in_sync s)"
  "ss_upload_to_remote (increment_summary s a) =
     (if a = UploadToRemote then saturating_add (ss_upload_to_remote s) 1
      else ss_upload_to_remote s)"
  "ss_download_from_remote (increment_summary s a) =
     (if a = DownloadFromRemote then saturating_add (ss_download_from_remote s) 1
      else ss_download_from_remote s)"
  "ss_conflicts (increment_summary s a) =
     (if a = Conflict then saturating_add (ss_conflicts s) 1 else ss_conflicts s)"
  "ss_local_missing_unsynchronized (increment_summary s a) =
     (if a = LocalMissingUnsynchronized then saturating_add (ss_local_missing_unsynchronized s) 1
      else ss_local_missing_unsynchronized s)"
  "ss_remote_missing_unsynchronized (increment_summary s a) =
     (if a = RemoteMissingUnsynchronized then saturating_add (ss_remote_missing_unsynchronized s) 1
      else ss_remote_missing_unsynchronized s)"
  "ss_mode_blocked (increment_summary s a) =
     (if a = ModeBlocked then saturating_add (ss_mode_blocked s) 1 else ss_mode_blocked s)"
  by (cases a; simp)+

interpretation sum_in_sync: saturating_counter increment_summary ss_in_sync "\<lambda>a. a = InSync"
  by unfold_locales (rule increment_summary_counters)

interpretation sum_upload: saturating_counter increment_summary ss_upload_to_remote
    "\<lambda>a. a = UploadToRemote"
  by unfold_locales (rule increment_summary_counters)

interpretation sum_download: saturating_counter increment_summary ss_download_from_remote
    "\<lambda>a. a = DownloadFromRemote"
  by unfold_locales (rule increment_summary_counters)

interpretation sum_conflict: saturating_counter increment_summary ss_conflicts
    "\<lambda>a. a = Conflict"
  by unfold_locales (rule increment_summary_counters)

interpretation sum_local_missing: saturating_counter increment_summary
    ss_local_missing_unsynchronized "\<lambda>a. a = LocalMissingUnsynchronized"
  by unfold_locales (rule increment_summary_counters)

interpretation sum_remote_missing: saturating_counter increment_summary
    ss_remote_missing_unsynchronized "\<lambda>a. a = RemoteMissingUnsynchronized"
  by unfold_locales (rule increment_summary_counters)

interpretation sum_blocked: saturating_counter increment_summary ss_mode_blocked
    "\<lambda>a. a = ModeBlocked"
  by unfold_locales (rule increment_summary_counters)

lemmas summary_counts =
  sum_in_sync.counter_from_zero sum_upload.counter_from_zero sum_download.counter_from_zero
  sum_conflict.counter_from_zero sum_local_missing.counter_from_zero
  sum_remote_missing.counter_from_zero sum_blocked.counter_from_zero

text \<open>The number of planned entries with a given action.\<close>

definition action_count :: "sync_plan \<Rightarrow> sync_action \<Rightarrow> nat" where
  "action_count plan a = length (filter (\<lambda>e. sp_action e = a) (pl_entries plan))"

lemma action_count_filter:
  "length (filter (\<lambda>b. b = a) (map sp_action (pl_entries plan))) = action_count plan a"
  by (simp add: action_count_def filter_map comp_def)

lemma default_summary_zero [simp]:
  "ss_in_sync default_summary = 0" "ss_upload_to_remote default_summary = 0"
  "ss_download_from_remote default_summary = 0" "ss_conflicts default_summary = 0"
  "ss_local_missing_unsynchronized default_summary = 0"
  "ss_remote_missing_unsynchronized default_summary = 0" "ss_mode_blocked default_summary = 0"
  by (simp_all add: default_summary_def)

lemma sum_action_counts:
  "length (pl_entries plan) =
     action_count plan InSync + action_count plan UploadToRemote
     + action_count plan DownloadFromRemote + action_count plan Conflict
     + action_count plan LocalMissingUnsynchronized
     + action_count plan RemoteMissingUnsynchronized + action_count plan ModeBlocked"
proof -
  let ?as = "map sp_action (pl_entries plan)"
  let ?all = "{InSync, UploadToRemote, DownloadFromRemote, Conflict, LocalMissingUnsynchronized,
    RemoteMissingUnsynchronized, ModeBlocked}"
  have "a \<in> ?all" for a by (cases a) simp_all
  then have "set ?as \<subseteq> ?all" by blast
  then have "sum (count_list ?as) ?all = length ?as" by (rule sum_count_set) simp
  moreover have "count_list ?as a = action_count plan a" for a
    by (simp add: count_list_eq_length_filter action_count_def filter_map comp_def eq_commute)
  ultimately show ?thesis by simp
qed

section \<open>The two sides of a plan\<close>

fun mirror_action :: "sync_action \<Rightarrow> sync_action" where
  "mirror_action UploadToRemote = DownloadFromRemote"
| "mirror_action DownloadFromRemote = UploadToRemote"
| "mirror_action LocalMissingUnsynchronized = RemoteMissingUnsynchronized"
| "mirror_action RemoteMissingUnsynchronized = LocalMissingUnsynchronized"
| "mirror_action a = a"

fun mirror_mode :: "folder_mode \<Rightarrow> folder_mode" where
  "mirror_mode UploadOnly = DownloadOnly"
| "mirror_mode DownloadOnly = UploadOnly"
| "mirror_mode Bidirectional = Bidirectional"

fun mirror_classification :: "change_classification \<Rightarrow> change_classification" where
  "mirror_classification ClsLocalOnlyDelete = ClsRemoteOnlyDelete"
| "mirror_classification ClsRemoteOnlyDelete = ClsLocalOnlyDelete"
| "mirror_classification ClsLocalNeedsDownload = ClsRemoteNeedsUpload"
| "mirror_classification ClsRemoteNeedsUpload = ClsLocalNeedsDownload"
| "mirror_classification c = c"

definition known_missing :: "file_record option \<Rightarrow> bool" where
  "known_missing f = (case f of None \<Rightarrow> False
     | Some r \<Rightarrow> rec_sync_state r = UnsynchronizedLocalMissing)"

text \<open>The action of a path, before the folder mode, in terms of the two records.\<close>

lemma plan_path_action:
  "sp_action (plan_path p l r) =
     (if known_missing l then LocalMissingUnsynchronized
      else if known_missing r then RemoteMissingUnsynchronized
      else case (l, r) of
        (Some a, Some b) \<Rightarrow>
          if rec_content_hash a = rec_content_hash b \<and> rec_size_bytes a = rec_size_bytes b
          then InSync else Conflict
      | (Some _, None) \<Rightarrow> UploadToRemote
      | (None, Some _) \<Rightarrow> DownloadFromRemote
      | (None, None) \<Rightarrow> InSync)"
  by (cases l; cases r) (simp_all add: known_missing_def plan_existing_path_def)

lemma plan_path_mirror:
  assumes "\<not> (known_missing l \<and> known_missing r)"
  shows "sp_action (plan_path p r l) = mirror_action (sp_action (plan_path p l r))"
  unfolding plan_path_action using assms by (cases l; cases r) (auto simp: known_missing_def)

lemma planned_entry_mirror:
  assumes "\<not> (known_missing (files_by_path (fm_files local) p)
             \<and> known_missing (files_by_path (fm_files remote) p))"
  shows "sp_action (planned_entry remote local (mirror_mode mode) p)
           = mirror_action (sp_action (planned_entry local remote mode p))"
  using plan_path_mirror [OF assms, of p]
  by (cases mode; cases "sp_action (plan_path p (files_by_path (fm_files local) p)
        (files_by_path (fm_files remote) p))")
    (simp_all add: planned_entry_def apply_folder_mode_action)

lemma classify_mirror:
  "classify_file_presence r l base = mirror_classification (classify_file_presence l r base)"
  by (cases l; cases r; cases base) (simp_all add: Let_def split: bool.split)

section \<open>Properties\<close>

text \<open>
  C38: A plan has exactly one entry for every path of either manifest and no other, in
  strictly increasing byte order of the paths, whatever the order and the duplicates of
  the manifests.
\<close>

theorem plan_covers_paths_once:
  "set (map sp_path (pl_entries (plan_manifest_sync_for_mode local remote mode)))
     = set (manifest_keys (fm_files local)) \<union> set (manifest_keys (fm_files remote))
   \<and> sorted_wrt (<) (map sp_path (pl_entries (plan_manifest_sync_for_mode local remote mode)))"
  using union_paths_sorted [of "fm_files local" "fm_files remote"]
  unfolding plan_paths by (simp add: strict_sorted_iff)

text \<open>
  C22: Transfers are planned only where nothing can be lost. A file is uploaded exactly if
  the local record is not missing, the remote manifest does not know the path and the mode
  allows uploads, and symmetrically for downloads; so a path both sides know is never
  overwritten by a planned transfer, and a file known to be missing never turns into one.
\<close>

theorem planned_transfers:
  "(action_at (plan_manifest_sync_for_mode local remote mode) p = Some UploadToRemote
      \<longleftrightarrow> mode \<noteq> DownloadOnly \<and> files_by_path (fm_files remote) p = None
          \<and> files_by_path (fm_files local) p \<noteq> None
          \<and> \<not> known_missing (files_by_path (fm_files local) p))
   \<and> (action_at (plan_manifest_sync_for_mode local remote mode) p = Some DownloadFromRemote
      \<longleftrightarrow> mode \<noteq> UploadOnly \<and> files_by_path (fm_files local) p = None
          \<and> files_by_path (fm_files remote) p \<noteq> None
          \<and> \<not> known_missing (files_by_path (fm_files remote) p))"
  unfolding action_at_eq planned_entry_def apply_folder_mode_action plan_path_action
  using files_by_path_None_iff [of "fm_files local" p] files_by_path_None_iff [of "fm_files remote" p]
  by (cases "files_by_path (fm_files local) p"; cases "files_by_path (fm_files remote) p"; cases mode)
    (auto simp: known_missing_def)

text \<open>
  On a path both manifests have, the plan says in sync exactly if neither side is
  missing and hash and size agree, reports a missing side as such, the local one first,
  and calls every other difference a conflict, in every mode.
\<close>

theorem planned_common_paths:
  assumes "files_by_path (fm_files local) p = Some l" and "files_by_path (fm_files remote) p = Some r"
  shows "action_at (plan_manifest_sync_for_mode local remote mode) p = Some
    (if rec_sync_state l = UnsynchronizedLocalMissing then LocalMissingUnsynchronized
     else if rec_sync_state r = UnsynchronizedLocalMissing then RemoteMissingUnsynchronized
     else if rec_content_hash l = rec_content_hash r \<and> rec_size_bytes l = rec_size_bytes r
     then InSync else Conflict)"
proof -
  have "p \<in> set (manifest_keys (fm_files local))"
    using assms(1) files_by_path_None_iff [of "fm_files local" p] by fastforce
  with assms show ?thesis
    unfolding action_at_eq planned_entry_def apply_folder_mode_action plan_path_action
    by (simp add: known_missing_def)
qed

definition sample_record :: "string \<Rightarrow> string \<Rightarrow> file_sync_state \<Rightarrow> file_record" where
  "sample_record path hash st = \<lparr>rec_path = RelativePath path, rec_kind = FileK,
     rec_size_bytes = 4, rec_modified_at = 7, rec_content_hash = Some hash,
     rec_generation = 1, rec_device_id = ''dev'', rec_sync_state = st\<rparr>"

definition sample_manifest :: "string \<Rightarrow> file_record list \<Rightarrow> folder_manifest" where
  "sample_manifest dev files = \<lparr>fm_folder_id = FolderId ''f'', fm_device_id = DeviceId dev,
     fm_generated_at = 0, fm_files = files\<rparr>"

definition sample_local :: folder_manifest where
  "sample_local = sample_manifest ''here'' [sample_record ''same'' ''h1'' LocalAvailable,
     sample_record ''both'' ''h2'' LocalAvailable, sample_record ''mine'' ''h3'' LocalAvailable]"

definition sample_remote :: folder_manifest where
  "sample_remote = sample_manifest ''there'' [sample_record ''both'' ''h4'' LocalAvailable,
     sample_record ''same'' ''h1'' LocalAvailable, sample_record ''theirs'' ''h5'' LocalAvailable]"

theorem planned_common_paths_witness:
  "action_at (plan_manifest_sync_for_mode sample_local sample_remote UploadOnly) ''both'' = Some Conflict"
proof -
  have "files_by_path (fm_files sample_local) ''both'' = Some (sample_record ''both'' ''h2'' LocalAvailable)"
    "files_by_path (fm_files sample_remote) ''both'' = Some (sample_record ''both'' ''h4'' LocalAvailable)"
    by code_simp+
  from planned_common_paths [OF this, of UploadOnly] show ?thesis by (simp add: sample_record_def)
qed

text \<open>
  The summary of a plan counts its entries exactly: every counter is the number of
  entries with its action, and together they are all entries.
\<close>

theorem plan_summary_exact:
  assumes "length (pl_entries (plan_manifest_sync_for_mode local remote mode)) < 2 ^ 64"
  shows "let plan = plan_manifest_sync_for_mode local remote mode; s = pl_summary plan in
    unat (ss_in_sync s) = action_count plan InSync
    \<and> unat (ss_upload_to_remote s) = action_count plan UploadToRemote
    \<and> unat (ss_download_from_remote s) = action_count plan DownloadFromRemote
    \<and> unat (ss_conflicts s) = action_count plan Conflict
    \<and> unat (ss_local_missing_unsynchronized s) = action_count plan LocalMissingUnsynchronized
    \<and> unat (ss_remote_missing_unsynchronized s) = action_count plan RemoteMissingUnsynchronized
    \<and> unat (ss_mode_blocked s) = action_count plan ModeBlocked
    \<and> unat (ss_in_sync s) + unat (ss_upload_to_remote s) + unat (ss_download_from_remote s)
        + unat (ss_conflicts s) + unat (ss_local_missing_unsynchronized s)
        + unat (ss_remote_missing_unsynchronized s) + unat (ss_mode_blocked s)
        = length (pl_entries plan)"
proof -
  let ?plan = "plan_manifest_sync_for_mode local remote mode"
  let ?as = "map sp_action (pl_entries ?plan)"
  have lt: "length ?as < 2 ^ 64" using assms by (simp only: length_map)
  note counts = summary_counts [OF _ lt, of default_summary, folded plan_summary_eq,
      unfolded action_count_filter, simplified]
  show ?thesis unfolding Let_def counts sum_action_counts [of ?plan] by simp
qed

theorem plan_summary_exact_witness:
  "unat (ss_conflicts (pl_summary (plan_manifest_sync_for_mode sample_local sample_remote Bidirectional))) = 1
   \<and> unat (ss_in_sync (pl_summary (plan_manifest_sync_for_mode sample_local sample_remote Bidirectional))) = 1"
proof -
  let ?plan = "plan_manifest_sync_for_mode sample_local sample_remote Bidirectional"
  have "length (pl_entries ?plan) = 4" "action_count ?plan Conflict = 1" "action_count ?plan InSync = 1"
    by code_simp+
  with plan_summary_exact [of sample_local sample_remote Bidirectional] show ?thesis
    by (simp add: Let_def)
qed

text \<open>
  C39: The two devices plan the same thing from their own side: with the modes mirrored,
  the other device's action for a path is the mirror image, unless both sides have the
  path as missing, where each side reports only its own loss.
\<close>

theorem plans_mirror_each_other:
  assumes "\<not> (known_missing (files_by_path (fm_files local) p)
             \<and> known_missing (files_by_path (fm_files remote) p))"
  shows "action_at (plan_manifest_sync_for_mode remote local (mirror_mode mode)) p
    = map_option mirror_action (action_at (plan_manifest_sync_for_mode local remote mode) p)"
  using planned_entry_mirror [OF assms, of mode] by (auto simp: action_at_eq)

theorem plans_mirror_each_other_witness:
  "action_at (plan_manifest_sync_for_mode sample_remote sample_local DownloadOnly) ''mine''
     = Some DownloadFromRemote"
proof -
  have "\<not> (known_missing (files_by_path (fm_files sample_local) ''mine'')
         \<and> known_missing (files_by_path (fm_files sample_remote) ''mine''))"
    "action_at (plan_manifest_sync_for_mode sample_local sample_remote UploadOnly) ''mine''
       = Some UploadToRemote" by code_simp+
  with plans_mirror_each_other [of sample_local "''mine''" sample_remote UploadOnly] show ?thesis by simp
qed

text \<open>
  The classification of a path is the same question from either device: exchanging the
  two presences mirrors it, with or without a common base.
\<close>

theorem classification_is_symmetric:
  "classify_file_presence right left base
     = mirror_classification (classify_file_presence left right base)"
  by (rule classify_mirror)

end
