(* ===== verification/Sync_Queue.thy ===== *)
theory Sync_Queue
  imports Sync_Planning
begin

text \<open>
  \<open>state_db.rs\<close>, the table \<open>sync_operations\<close>: operations queued from a plan, listed for
  execution, marked started, done or failed, retried, and resolved by the user. A plan is
  enqueued in a transaction. The lemmas give the life cycle of an operation and the
  invariant that a pending operation is always a transfer and a blocked one never is.
\<close>

section \<open>Operations\<close>

datatype sync_operation_kind =
    OpUploadToRemote
  | OpDownloadFromRemote
  | OpResolveConflict
  | OpRepairLocalMissing
  | OpRepairRemoteMissing
  | OpModeBlocked

datatype sync_operation_status = Pending | Blocked | Done | Failed

datatype blocked_operation_resolution = ResolveDownloadFromRemote | ResolveUploadToRemote

fun kind_as_str :: "sync_operation_kind \<Rightarrow> string" where
  "kind_as_str OpUploadToRemote = ''upload_to_remote''"
| "kind_as_str OpDownloadFromRemote = ''download_from_remote''"
| "kind_as_str OpResolveConflict = ''resolve_conflict''"
| "kind_as_str OpRepairLocalMissing = ''repair_local_missing''"
| "kind_as_str OpRepairRemoteMissing = ''repair_remote_missing''"
| "kind_as_str OpModeBlocked = ''mode_blocked''"

definition kind_parse :: "string \<Rightarrow> sync_operation_kind core_result" where
  "kind_parse value =
     (if value = ''upload_to_remote'' then Inr OpUploadToRemote
      else if value = ''download_from_remote'' then Inr OpDownloadFromRemote
      else if value = ''resolve_conflict'' then Inr OpResolveConflict
      else if value = ''repair_local_missing'' then Inr OpRepairLocalMissing
      else if value = ''repair_remote_missing'' then Inr OpRepairRemoteMissing
      else if value = ''mode_blocked'' then Inr OpModeBlocked
      else Inl (StateDatabaseError (''unknown sync operation kind '' @ value)))"

fun status_as_str :: "sync_operation_status \<Rightarrow> string" where
  "status_as_str Pending = ''pending''"
| "status_as_str Blocked = ''blocked''"
| "status_as_str Done = ''done''"
| "status_as_str Failed = ''failed''"

definition status_parse :: "string \<Rightarrow> sync_operation_status core_result" where
  "status_parse value =
     (if value = ''pending'' then Inr Pending
      else if value = ''blocked'' then Inr Blocked
      else if value = ''done'' then Inr Done
      else if value = ''failed'' then Inr Failed
      else Inl (StateDatabaseError (''unknown sync operation status '' @ value)))"

fun resolution_reason :: "blocked_operation_resolution \<Rightarrow> string" where
  "resolution_reason ResolveDownloadFromRemote = ''user selected remote version''"
| "resolution_reason ResolveUploadToRemote = ''user selected local version''"

record sync_operation_record =
  op_id :: string
  op_path :: relative_path
  op_kind :: sync_operation_kind
  op_status :: sync_operation_status
  op_reason :: string
  op_local_size_bytes :: "u64 option"
  op_remote_size_bytes :: "u64 option"
  op_local_content_hash :: "string option"
  op_remote_content_hash :: "string option"
  op_remote_device_id :: string
  op_last_error :: "string option"
  op_retry_count :: u64
  op_started_at :: "datetime option"
  op_finished_at :: "datetime option"
  op_created_at :: datetime
  op_updated_at :: datetime

record queue_status_record =
  qs_total :: u64
  qs_pending :: u64
  qs_blocked :: u64
  qs_done :: u64
  qs_failed :: u64
  qs_upload_to_remote :: u64
  qs_download_from_remote :: u64
  qs_resolve_conflict :: u64
  qs_repair_local_missing :: u64
  qs_repair_remote_missing :: u64
  qs_mode_blocked :: u64

record retry_failed_summary =
  rf_retried :: u64
  rf_queue :: queue_status_record

record resolve_operation_summary =
  ro_operation :: sync_operation_record
  ro_queue :: queue_status_record

text \<open>The \<open>CHECK\<close> constraints of the table.\<close>

definition operations_check :: "operation_row \<Rightarrow> bool" where
  "operations_check r \<longleftrightarrow>
     or_kind r \<in> set [''upload_to_remote'', ''download_from_remote'', ''resolve_conflict'',
       ''repair_local_missing'', ''repair_remote_missing'', ''mode_blocked'']
     \<and> or_status r \<in> set [''pending'', ''blocked'', ''done'', ''failed'']
     \<and> (case or_local_size_bytes r of None \<Rightarrow> True | Some n \<Rightarrow> 0 \<le> n)
     \<and> (case or_remote_size_bytes r of None \<Rightarrow> True | Some n \<Rightarrow> 0 \<le> n)
     \<and> 0 \<le> or_retry_count r"

section \<open>Decoding rows\<close>

definition optional_i64 :: "u64 option \<Rightarrow> int option core_result" where
  "optional_i64 value =
     (case value of None \<Rightarrow> Inr None
      | Some w \<Rightarrow> and_then (ok_or FileSizeOverflow (i64_of_u64 w)) (\<lambda>n. Inr (Some n)))"

definition optional_u64 :: "int option \<Rightarrow> u64 option core_result" where
  "optional_u64 value =
     (case value of None \<Rightarrow> Inr None
      | Some n \<Rightarrow> and_then (ok_or FileSizeOverflow (u64_of_i64 n)) (\<lambda>w. Inr (Some w)))"

definition optional_unix_timestamp ::
  "'x externals_scheme \<Rightarrow> int option \<Rightarrow> datetime option core_result" where
  "optional_unix_timestamp x t =
     (case t of None \<Rightarrow> Inr None
      | Some s \<Rightarrow> and_then (unix_timestamp_result x s) (\<lambda>d. Inr (Some d)))"

definition row_to_sync_operation ::
  "'x externals_scheme \<Rightarrow> operation_row \<Rightarrow> sync_operation_record core_result" where
  "row_to_sync_operation x row =
     and_then (relative_path_parse (or_path row)) (\<lambda>path.
     and_then (kind_parse (or_kind row)) (\<lambda>kind.
     and_then (status_parse (or_status row)) (\<lambda>status.
     and_then (optional_u64 (or_local_size_bytes row)) (\<lambda>lsize.
     and_then (optional_u64 (or_remote_size_bytes row)) (\<lambda>rsize.
     and_then (ok_or (StateDatabaseError ''negative retry count'')
                     (u64_of_i64 (or_retry_count row))) (\<lambda>retries.
     and_then (optional_unix_timestamp x (or_started_at_unix row)) (\<lambda>started.
     and_then (optional_unix_timestamp x (or_finished_at_unix row)) (\<lambda>finished.
     and_then (unix_timestamp_result x (or_created_at_unix row)) (\<lambda>created.
     and_then (unix_timestamp_result x (or_updated_at_unix row)) (\<lambda>updated.
       Inr \<lparr>op_id = or_id row, op_path = path, op_kind = kind, op_status = status,
            op_reason = or_reason row, op_local_size_bytes = lsize,
            op_remote_size_bytes = rsize,
            op_local_content_hash = or_local_content_hash row,
            op_remote_content_hash = or_remote_content_hash row,
            op_remote_device_id = or_remote_device_id row,
            op_last_error = or_last_error row, op_retry_count = retries,
            op_started_at = started, op_finished_at = finished,
            op_created_at = created, op_updated_at = updated\<rparr>))))))))))"

section \<open>Reading the queue\<close>

definition list_sync_operations ::
  "'x externals_scheme \<Rightarrow> state_database \<Rightarrow> sync_operation_record list core_result" where
  "list_sync_operations x db =
     collect_results (row_to_sync_operation x)
       (sort_key or_created_at_unix (sort_key or_path (db_operations db)))"

definition list_pending_operations ::
  "'x externals_scheme \<Rightarrow> string \<Rightarrow> sync_operation_kind \<Rightarrow> u64 \<Rightarrow> state_database
     \<Rightarrow> sync_operation_record list core_result" where
  "list_pending_operations x remote_device_id kind limit db =
     and_then (ok_or FileSizeOverflow (i64_of_u64 limit)) (\<lambda>n.
       collect_results (row_to_sync_operation x)
         (take (nat n) (sort_key or_created_at_unix (sort_key or_path
           (filter (\<lambda>r. or_remote_device_id r = remote_device_id
                       \<and> or_kind r = kind_as_str kind \<and> or_status r = ''pending'')
             (db_operations db))))))"

definition list_pending_download_operations ::
  "'x externals_scheme \<Rightarrow> string \<Rightarrow> u64 \<Rightarrow> state_database
     \<Rightarrow> sync_operation_record list core_result" where
  "list_pending_download_operations x remote_device_id limit db =
     list_pending_operations x remote_device_id OpDownloadFromRemote limit db"

definition list_pending_upload_operations ::
  "'x externals_scheme \<Rightarrow> string \<Rightarrow> u64 \<Rightarrow> state_database
     \<Rightarrow> sync_operation_record list core_result" where
  "list_pending_upload_operations x remote_device_id limit db =
     list_pending_operations x remote_device_id OpUploadToRemote limit db"

definition get_sync_operation ::
  "'x externals_scheme \<Rightarrow> string \<Rightarrow> state_database \<Rightarrow> sync_operation_record core_result" where
  "get_sync_operation x operation_id db =
     and_then (ok_or (StateDatabaseError ''sync operation not found'')
                     (find_row or_id operation_id (db_operations db)))
       (row_to_sync_operation x)"

fun count_status :: "queue_status_record \<Rightarrow> sync_operation_status \<Rightarrow> queue_status_record" where
  "count_status s Pending = s\<lparr>qs_pending := saturating_add (qs_pending s) 1\<rparr>"
| "count_status s Blocked = s\<lparr>qs_blocked := saturating_add (qs_blocked s) 1\<rparr>"
| "count_status s Done = s\<lparr>qs_done := saturating_add (qs_done s) 1\<rparr>"
| "count_status s Failed = s\<lparr>qs_failed := saturating_add (qs_failed s) 1\<rparr>"

fun count_kind :: "queue_status_record \<Rightarrow> sync_operation_kind \<Rightarrow> queue_status_record" where
  "count_kind s OpUploadToRemote =
     s\<lparr>qs_upload_to_remote := saturating_add (qs_upload_to_remote s) 1\<rparr>"
| "count_kind s OpDownloadFromRemote =
     s\<lparr>qs_download_from_remote := saturating_add (qs_download_from_remote s) 1\<rparr>"
| "count_kind s OpResolveConflict =
     s\<lparr>qs_resolve_conflict := saturating_add (qs_resolve_conflict s) 1\<rparr>"
| "count_kind s OpRepairLocalMissing =
     s\<lparr>qs_repair_local_missing := saturating_add (qs_repair_local_missing s) 1\<rparr>"
| "count_kind s OpRepairRemoteMissing =
     s\<lparr>qs_repair_remote_missing := saturating_add (qs_repair_remote_missing s) 1\<rparr>"
| "count_kind s OpModeBlocked =
     s\<lparr>qs_mode_blocked := saturating_add (qs_mode_blocked s) 1\<rparr>"

definition count_operation ::
  "queue_status_record \<Rightarrow> sync_operation_record \<Rightarrow> queue_status_record" where
  "count_operation s operation = count_kind (count_status s (op_status operation)) (op_kind operation)"

definition empty_queue_status :: queue_status_record where
  "empty_queue_status = \<lparr>qs_total = 0, qs_pending = 0, qs_blocked = 0, qs_done = 0,
     qs_failed = 0, qs_upload_to_remote = 0, qs_download_from_remote = 0,
     qs_resolve_conflict = 0, qs_repair_local_missing = 0, qs_repair_remote_missing = 0,
     qs_mode_blocked = 0\<rparr>"

definition queue_status ::
  "'x externals_scheme \<Rightarrow> state_database \<Rightarrow> queue_status_record core_result" where
  "queue_status x db =
     and_then (list_sync_operations x db) (\<lambda>operations.
       Inr (foldl count_operation (empty_queue_status\<lparr>qs_total := len_u64 operations\<rparr>) operations))"

section \<open>Enqueueing a plan\<close>

fun operation_for_action ::
  "sync_action \<Rightarrow> (sync_operation_kind \<times> sync_operation_status) option" where
  "operation_for_action InSync = None"
| "operation_for_action UploadToRemote = Some (OpUploadToRemote, Pending)"
| "operation_for_action DownloadFromRemote = Some (OpDownloadFromRemote, Pending)"
| "operation_for_action Conflict = Some (OpResolveConflict, Blocked)"
| "operation_for_action LocalMissingUnsynchronized = Some (OpRepairLocalMissing, Blocked)"
| "operation_for_action RemoteMissingUnsynchronized = Some (OpRepairRemoteMissing, Blocked)"
| "operation_for_action ModeBlocked = Some (OpModeBlocked, Blocked)"

text \<open>\<open>INSERT\<close> fails on a primary key that is taken.\<close>

definition insert_operation :: "operation_row \<Rightarrow> operation_row list \<Rightarrow> operation_row list core_result" where
  "insert_operation row rows =
     (if or_id row \<in> set (map or_id rows)
      then Inl (StateDatabaseError ''UNIQUE constraint failed: sync_operations.id'')
      else Inr (rows @ [row]))"

text \<open>
  The values bound by the \<open>INSERT\<close>; the remaining columns take their defaults. The fresh
  UUID and the clock of each statement are arguments.
\<close>

definition operation_row_of ::
  "string \<Rightarrow> int \<Rightarrow> string \<Rightarrow> sync_plan_entry \<Rightarrow> sync_operation_kind \<Rightarrow> sync_operation_status
     \<Rightarrow> operation_row core_result" where
  "operation_row_of fresh_id now remote e kind status =
     and_then (optional_i64 (sp_local_size_bytes e)) (\<lambda>lsize.
     and_then (optional_i64 (sp_remote_size_bytes e)) (\<lambda>rsize.
       Inr \<lparr>or_id = fresh_id, or_path = sp_path e, or_kind = kind_as_str kind,
            or_status = status_as_str status, or_reason = sp_reason e,
            or_local_size_bytes = lsize, or_remote_size_bytes = rsize,
            or_local_content_hash = sp_local_content_hash e,
            or_remote_content_hash = sp_remote_content_hash e,
            or_remote_device_id = remote, or_last_error = None, or_retry_count = 0,
            or_started_at_unix = None, or_finished_at_unix = None,
            or_created_at_unix = now, or_updated_at_unix = now\<rparr>))"

text \<open>The loop over the entries; \<open>supply n\<close> is the UUID and the clock of the n-th insert.\<close>

fun enqueue_loop ::
  "(nat \<Rightarrow> string \<times> int) \<Rightarrow> string \<Rightarrow> nat \<Rightarrow> sync_plan_entry list \<Rightarrow> operation_row list
     \<Rightarrow> operation_row list core_result" where
  "enqueue_loop supply remote n [] rows = Inr rows"
| "enqueue_loop supply remote n (e # es) rows =
     (case operation_for_action (sp_action e) of
        None \<Rightarrow> enqueue_loop supply remote n es rows
      | Some (kind, status) \<Rightarrow>
          and_then (operation_row_of (fst (supply n)) (snd (supply n)) remote e kind status) (\<lambda>row.
          and_then (insert_operation row rows)
            (enqueue_loop supply remote (Suc n) es)))"

definition clear_queue :: "string \<Rightarrow> operation_row list \<Rightarrow> operation_row list" where
  "clear_queue remote rows =
     delete_where (\<lambda>r. or_remote_device_id r = remote
                     \<and> or_status r \<in> set [''pending'', ''blocked'']) rows"

text \<open>
  An error inside the transaction rolls it back; after the commit the queue is read again,
  and an error of that read is returned although the rows are stored.
\<close>

definition enqueue_sync_plan ::
  "'x externals_scheme \<Rightarrow> (nat \<Rightarrow> string \<times> int) \<Rightarrow> sync_plan \<Rightarrow> queue_status_record db_op" where
  "enqueue_sync_plan x supply plan db =
     (case enqueue_loop supply (pl_remote_device_id plan) 0 (pl_entries plan)
             (clear_queue (pl_remote_device_id plan) (db_operations db)) of
        Inl e \<Rightarrow> (Inl e, db)
      | Inr rows \<Rightarrow>
          (let db' = db\<lparr>db_operations := rows\<rparr> in (queue_status x db', db')))"

section \<open>Updating operations\<close>

definition update_operations ::
  "(operation_row \<Rightarrow> bool) \<Rightarrow> (operation_row \<Rightarrow> operation_row) \<Rightarrow> state_database \<Rightarrow> state_database" where
  "update_operations p f db = db\<lparr>db_operations := update_where p f (db_operations db)\<rparr>"

definition mark_sync_operation_started :: "int \<Rightarrow> string \<Rightarrow> state_database \<Rightarrow> state_database" where
  "mark_sync_operation_started now operation_id db =
     update_operations (\<lambda>r. or_id r = operation_id)
       (\<lambda>r. r\<lparr>or_last_error := None, or_started_at_unix := Some now,
              or_finished_at_unix := None, or_updated_at_unix := now\<rparr>) db"

definition update_sync_operation_status ::
  "int \<Rightarrow> string \<Rightarrow> sync_operation_status \<Rightarrow> string option \<Rightarrow> state_database \<Rightarrow> state_database" where
  "update_sync_operation_status now operation_id status err db =
     update_operations (\<lambda>r. or_id r = operation_id)
       (\<lambda>r. r\<lparr>or_status := status_as_str status, or_last_error := err,
              or_finished_at_unix := Some now, or_updated_at_unix := now\<rparr>) db"

definition mark_sync_operation_done :: "int \<Rightarrow> string \<Rightarrow> state_database \<Rightarrow> state_database" where
  "mark_sync_operation_done now operation_id db =
     update_sync_operation_status now operation_id Done None db"

definition mark_sync_operation_failed ::
  "int \<Rightarrow> string \<Rightarrow> string \<Rightarrow> state_database \<Rightarrow> state_database" where
  "mark_sync_operation_failed now operation_id err db =
     update_sync_operation_status now operation_id Failed (Some err) db"

definition retryable :: "string option \<Rightarrow> operation_row \<Rightarrow> bool" where
  "retryable remote r \<longleftrightarrow>
     or_status r = ''failed'' \<and> or_kind r \<in> set [''upload_to_remote'', ''download_from_remote'']
     \<and> (case remote of None \<Rightarrow> True | Some d \<Rightarrow> or_remote_device_id r = d)"

definition retry_row :: "int \<Rightarrow> operation_row \<Rightarrow> operation_row" where
  "retry_row now r = r\<lparr>or_status := ''pending'', or_last_error := None,
     or_retry_count := or_retry_count r + 1, or_started_at_unix := None,
     or_finished_at_unix := None, or_updated_at_unix := now\<rparr>"

definition retry_failed_sync_operations ::
  "'x externals_scheme \<Rightarrow> int \<Rightarrow> string option \<Rightarrow> retry_failed_summary db_op" where
  "retry_failed_sync_operations x now remote db =
     (let affected = rows_affected (retryable remote) (db_operations db);
          db' = update_operations (retryable remote) (retry_row now) db
      in (and_then (queue_status x db') (\<lambda>q.
            Inr \<lparr>rf_retried = of_nat affected, rf_queue = q\<rparr>), db'))"

text \<open>The \<open>match\<close> on the blocked operation's kind and the chosen resolution.\<close>

fun resolution_target ::
  "sync_operation_kind \<Rightarrow> blocked_operation_resolution \<Rightarrow> sync_operation_kind option" where
  "resolution_target OpResolveConflict ResolveDownloadFromRemote = Some OpDownloadFromRemote"
| "resolution_target OpRepairLocalMissing ResolveDownloadFromRemote = Some OpDownloadFromRemote"
| "resolution_target OpResolveConflict ResolveUploadToRemote = Some OpUploadToRemote"
| "resolution_target OpRepairRemoteMissing ResolveUploadToRemote = Some OpUploadToRemote"
| "resolution_target _ _ = None"

fun kind_debug :: "sync_operation_kind \<Rightarrow> string" where
  "kind_debug OpUploadToRemote = ''UploadToRemote''"
| "kind_debug OpDownloadFromRemote = ''DownloadFromRemote''"
| "kind_debug OpResolveConflict = ''ResolveConflict''"
| "kind_debug OpRepairLocalMissing = ''RepairLocalMissing''"
| "kind_debug OpRepairRemoteMissing = ''RepairRemoteMissing''"
| "kind_debug OpModeBlocked = ''ModeBlocked''"

fun resolution_debug :: "blocked_operation_resolution \<Rightarrow> string" where
  "resolution_debug ResolveDownloadFromRemote = ''DownloadFromRemote''"
| "resolution_debug ResolveUploadToRemote = ''UploadToRemote''"

definition resolve_row ::
  "int \<Rightarrow> sync_operation_kind \<Rightarrow> blocked_operation_resolution \<Rightarrow> operation_row \<Rightarrow> operation_row" where
  "resolve_row now target resolution r = r\<lparr>or_kind := kind_as_str target,
     or_status := ''pending'', or_reason := resolution_reason resolution,
     or_last_error := None, or_started_at_unix := None, or_finished_at_unix := None,
     or_updated_at_unix := now\<rparr>"

definition resolve_blocked_sync_operation ::
  "'x externals_scheme \<Rightarrow> int \<Rightarrow> string \<Rightarrow> blocked_operation_resolution
     \<Rightarrow> resolve_operation_summary db_op" where
  "resolve_blocked_sync_operation x now operation_id resolution db =
     (case get_sync_operation x operation_id db of
        Inl e \<Rightarrow> (Inl e, db)
      | Inr operation \<Rightarrow>
          if op_status operation \<noteq> Blocked
          then (Inl (StateDatabaseError ''only blocked operations can be resolved''), db)
          else (case resolution_target (op_kind operation) resolution of
            None \<Rightarrow> (Inl (StateDatabaseError (''resolution '' @ resolution_debug resolution
                      @ '' is not valid for '' @ kind_debug (op_kind operation))), db)
          | Some target \<Rightarrow>
              (let db' = update_operations (\<lambda>r. or_id r = operation_id)
                           (resolve_row now target resolution) db
               in (and_then (get_sync_operation x operation_id db') (\<lambda>operation'.
                   and_then (queue_status x db') (\<lambda>q.
                     Inr \<lparr>ro_operation = operation', ro_queue = q\<rparr>)), db'))))"

section \<open>The life cycle of an operation\<close>

lemma kind_roundtrip [simp]: "kind_parse (kind_as_str k) = Inr k"
  by (cases k) (simp_all add: kind_parse_def)

lemma status_roundtrip [simp]: "status_parse (status_as_str s) = Inr s"
  by (cases s) (simp_all add: status_parse_def)

definition transfer_kind :: "string \<Rightarrow> bool" where
  "transfer_kind k \<longleftrightarrow> k = ''upload_to_remote'' \<or> k = ''download_from_remote''"

text \<open>A pending operation is a transfer; a blocked one is a question to the user.\<close>

definition operation_row_ok :: "operation_row \<Rightarrow> bool" where
  "operation_row_ok r \<longleftrightarrow> operations_check r
     \<and> (or_status r = ''pending'' \<longrightarrow> transfer_kind (or_kind r))
     \<and> (or_status r = ''blocked'' \<longrightarrow> \<not> transfer_kind (or_kind r))"

definition operations_ok :: "operation_row list \<Rightarrow> bool" where
  "operations_ok rows \<longleftrightarrow> distinct_keys or_id rows \<and> list_all operation_row_ok rows"

lemma operations_ok_update_where:
  assumes "operations_ok rows" and "\<And>r. or_id (f r) = or_id r"
    and "\<And>r. operation_row_ok r \<Longrightarrow> p r \<Longrightarrow> operation_row_ok (f r)"
  shows "operations_ok (update_where p f rows)"
  using assms
  by (auto simp: operations_ok_def distinct_keys_update_where list_all_iff table_simps)

lemma operations_ok_delete_where:
  "operations_ok rows \<Longrightarrow> operations_ok (delete_where p rows)"
  by (auto simp: operations_ok_def distinct_keys_delete_where list_all_iff table_simps)

lemma operations_ok_insert:
  "insert_operation row rows = Inr rows' \<Longrightarrow> operations_ok rows \<Longrightarrow> operation_row_ok row
     \<Longrightarrow> operations_ok rows'"
  by (auto simp: insert_operation_def operations_ok_def distinct_keys_def split: if_splits)

lemma optional_i64_nonneg:
  "optional_i64 v = Inr n \<Longrightarrow> (case n of None \<Rightarrow> True | Some m \<Rightarrow> 0 \<le> m)"
  by (auto simp: optional_i64_def and_then_Inr_iff i64_of_u64_range split: option.splits)

lemma optional_i64_roundtrip:
  "optional_i64 v = Inr n \<Longrightarrow> optional_u64 n = Inr v"
  by (auto simp: optional_i64_def optional_u64_def and_then_Inr_iff u64_i64_roundtrip
      split: option.splits)

lemma operation_for_action_pending:
  "operation_for_action a = Some (k, s) \<Longrightarrow>
     (s = Pending \<longleftrightarrow> transfer_kind (kind_as_str k)) \<and> (s = Pending \<or> s = Blocked)"
  by (cases a) (auto simp: transfer_kind_def)

lemma kind_in_check: "kind_as_str k \<in> set [''upload_to_remote'', ''download_from_remote'',
    ''resolve_conflict'', ''repair_local_missing'', ''repair_remote_missing'', ''mode_blocked'']"
  by (cases k) simp_all

lemma operation_row_of_fields:
  assumes "operation_row_of fid now remote e k s = Inr row"
  shows "or_id row = fid" "or_path row = sp_path e" "or_kind row = kind_as_str k"
    "or_status row = status_as_str s" "or_remote_device_id row = remote"
    "optional_u64 (or_local_size_bytes row) = Inr (sp_local_size_bytes e)"
    "optional_u64 (or_remote_size_bytes row) = Inr (sp_remote_size_bytes e)"
    "or_local_content_hash row = sp_local_content_hash e"
    "or_remote_content_hash row = sp_remote_content_hash e"
    "or_retry_count row = 0" "or_created_at_unix row = now"
  using assms by (auto simp: operation_row_of_def and_then_Inr_iff optional_i64_roundtrip)

lemma operation_row_of_ok:
  assumes "operation_row_of fid now remote e k s = Inr row"
    and "operation_for_action (sp_action e) = Some (k, s)"
  shows "operation_row_ok row"
proof -
  have "(case or_local_size_bytes row of None \<Rightarrow> True | Some n \<Rightarrow> 0 \<le> n)"
    and "(case or_remote_size_bytes row of None \<Rightarrow> True | Some n \<Rightarrow> 0 \<le> n)"
    using assms(1) by (auto simp: operation_row_of_def and_then_Inr_iff dest: optional_i64_nonneg)
  moreover note operation_for_action_pending [OF assms(2)] kind_in_check [of k]
    operation_row_of_fields [OF assms(1)]
  ultimately show ?thesis
    by (cases s) (simp_all add: operation_row_ok_def operations_check_def)
qed

subsection \<open>Enqueueing\<close>

definition actionable :: "sync_plan_entry \<Rightarrow> bool" where
  "actionable e \<longleftrightarrow> sp_action e \<noteq> InSync"

lemma actionable_iff: "actionable e \<longleftrightarrow> (\<exists>k s. operation_for_action (sp_action e) = Some (k, s))"
  by (cases "sp_action e") (simp_all add: actionable_def)

text \<open>How a queued row stands for its plan entry.\<close>

definition queued_for :: "string \<Rightarrow> sync_plan_entry \<Rightarrow> operation_row \<Rightarrow> bool" where
  "queued_for remote e row \<longleftrightarrow>
     or_path row = sp_path e
     \<and> operation_for_action (sp_action e) \<noteq> None
     \<and> map_option (\<lambda>(k, s). (kind_as_str k, status_as_str s)) (operation_for_action (sp_action e))
         = Some (or_kind row, or_status row)
     \<and> or_remote_device_id row = remote
     \<and> optional_u64 (or_local_size_bytes row) = Inr (sp_local_size_bytes e)
     \<and> optional_u64 (or_remote_size_bytes row) = Inr (sp_remote_size_bytes e)
     \<and> or_local_content_hash row = sp_local_content_hash e
     \<and> or_remote_content_hash row = sp_remote_content_hash e
     \<and> or_retry_count row = 0"

lemma enqueue_loop_rows:
  assumes "enqueue_loop supply remote n es rows = Inr rows'"
  shows "\<exists>new. rows' = rows @ new \<and> list_all2 (queued_for remote) (filter actionable es) new"
  using assms
proof (induction es arbitrary: n rows)
  case Nil
  then show ?case by simp
next
  case (Cons e es)
  show ?case
  proof (cases "operation_for_action (sp_action e)")
    case None
    then have "\<not> actionable e" by (simp add: actionable_iff)
    with None Cons show ?thesis by simp
  next
    case (Some ks)
    then obtain k s where ks: "operation_for_action (sp_action e) = Some (k, s)" by (cases ks) auto
    with Cons.prems obtain row rows1 where
      row: "operation_row_of (fst (supply n)) (snd (supply n)) remote e k s = Inr row"
      and ins: "insert_operation row rows = Inr rows1"
      and rest: "enqueue_loop supply remote (Suc n) es rows1 = Inr rows'"
      by (auto simp: and_then_Inr_iff)
    from ins have "rows1 = rows @ [row]" by (auto simp: insert_operation_def split: if_splits)
    moreover from Cons.IH [OF rest] obtain new where
      "rows' = rows1 @ new" "list_all2 (queued_for remote) (filter actionable es) new" by blast
    moreover have "queued_for remote e row"
      using operation_row_of_fields [OF row] ks by (simp add: queued_for_def)
    moreover have "actionable e" using ks by (simp add: actionable_iff)
    ultimately show ?thesis by (intro exI [of _ "row # new"]) simp
  qed
qed

lemma enqueue_loop_ok:
  assumes "enqueue_loop supply remote n es rows = Inr rows'" and "operations_ok rows"
  shows "operations_ok rows'"
  using assms
proof (induction es arbitrary: n rows)
  case (Cons e es)
  show ?case
  proof (cases "operation_for_action (sp_action e)")
    case None
    with Cons show ?thesis by simp
  next
    case (Some ks)
    then obtain k s where "operation_for_action (sp_action e) = Some (k, s)" by (cases ks) auto
    with Cons show ?thesis
      by (auto simp: and_then_Inr_iff dest: operation_row_of_ok operations_ok_insert)
  qed
qed simp

text \<open>Sizes that fit and fresh identifiers are all the transaction needs.\<close>

definition sizes_fit :: "sync_plan_entry \<Rightarrow> bool" where
  "sizes_fit e \<longleftrightarrow> is_ok (optional_i64 (sp_local_size_bytes e)) \<and> is_ok (optional_i64 (sp_remote_size_bytes e))"

lemma enqueue_loop_succeeds:
  assumes "list_all sizes_fit es" and "inj_on (\<lambda>m. fst (supply m)) {n..}"
    and "\<And>m. n \<le> m \<Longrightarrow> fst (supply m) \<notin> or_id ` set rows"
  shows "\<exists>rows'. enqueue_loop supply remote n es rows = Inr rows'"
  using assms
proof (induction es arbitrary: n rows)
  case (Cons e es)
  show ?case
  proof (cases "operation_for_action (sp_action e)")
    case None
    with Cons show ?thesis by simp
  next
    case (Some ks)
    then obtain k s where ks: "operation_for_action (sp_action e) = Some (k, s)" by (cases ks) auto
    from Cons.prems(1) obtain row where
      row: "operation_row_of (fst (supply n)) (snd (supply n)) remote e k s = Inr row"
      by (auto simp: sizes_fit_def operation_row_of_def is_ok_iff)
    then have rid: "or_id row = fst (supply n)" by (rule operation_row_of_fields)
    with Cons.prems(3) [of n] have ins: "insert_operation row rows = Inr (rows @ [row])"
      by (auto simp: insert_operation_def)
    have "fst (supply m) \<noteq> fst (supply n)" if "Suc n \<le> m" for m
      using that inj_onD [OF Cons.prems(2), of m n] by auto
    then have "fst (supply m) \<notin> or_id ` set (rows @ [row])" if "Suc n \<le> m" for m
      using that Cons.prems(3) [of m] rid by auto
    moreover have "inj_on (\<lambda>m. fst (supply m)) {Suc n..}"
      using Cons.prems(2) by (rule inj_on_subset) auto
    ultimately obtain rows' where "enqueue_loop supply remote (Suc n) es (rows @ [row]) = Inr rows'"
      using Cons.IH [of "Suc n" "rows @ [row]"] Cons.prems(1) by auto
    with ks row ins show ?thesis by simp
  qed
qed simp

lemma clear_queue_mem:
  "r \<in> set (clear_queue remote rows) \<longleftrightarrow>
     r \<in> set rows \<and> \<not> (or_remote_device_id r = remote
                          \<and> (or_status r = ''pending'' \<or> or_status r = ''blocked''))"
  by (auto simp: clear_queue_def table_simps)
subsection \<open>Every statement keeps the constraints\<close>

definition database_ok :: "state_database \<Rightarrow> bool" where
  "database_ok db \<longleftrightarrow> files_ok (db_files db) \<and> skipped_ok (db_skipped db)
     \<and> operations_ok (db_operations db)"

lemma database_ok_empty: "database_ok empty_database"
  by (simp add: database_ok_def empty_database_def files_ok_def skipped_ok_def operations_ok_def
      distinct_keys_def)

lemma operation_row_ok_started:
  "operation_row_ok r \<Longrightarrow> operation_row_ok (r\<lparr>or_last_error := e, or_started_at_unix := s,
     or_finished_at_unix := f, or_updated_at_unix := u\<rparr>)"
  by (simp add: operation_row_ok_def operations_check_def)

lemma operation_row_ok_closed:
  "operation_row_ok r \<Longrightarrow> s = Done \<or> s = Failed \<Longrightarrow>
     operation_row_ok (r\<lparr>or_status := status_as_str s, or_last_error := e,
       or_finished_at_unix := f, or_updated_at_unix := u\<rparr>)"
  by (auto simp: operation_row_ok_def operations_check_def)

lemma operation_row_ok_retry:
  "operation_row_ok r \<Longrightarrow> retryable remote r \<Longrightarrow> operation_row_ok (retry_row now r)"
  by (auto simp: operation_row_ok_def operations_check_def retryable_def retry_row_def
      transfer_kind_def)

lemma resolution_target_transfer:
  "resolution_target k res = Some t \<Longrightarrow> transfer_kind (kind_as_str t)"
  by (cases "(k, res)" rule: resolution_target.cases) (auto simp: transfer_kind_def)

lemma operation_row_ok_resolve:
  "operation_row_ok r \<Longrightarrow> resolution_target k res = Some t \<Longrightarrow>
     operation_row_ok (resolve_row now t res r)"
  using kind_in_check [of t] resolution_target_transfer [of k res t]
  by (simp add: operation_row_ok_def operations_check_def resolve_row_def)

lemma update_operations_simps [simp]:
  "db_files (update_operations p f db) = db_files db"
  "db_skipped (update_operations p f db) = db_skipped db"
  "db_operations (update_operations p f db) = update_where p f (db_operations db)"
  by (simp_all add: update_operations_def)

lemma database_ok_update_operations:
  assumes "database_ok db" and "\<And>r. or_id (f r) = or_id r"
    and "\<And>r. operation_row_ok r \<Longrightarrow> p r \<Longrightarrow> operation_row_ok (f r)"
  shows "database_ok (update_operations p f db)"
  using assms by (auto simp: database_ok_def intro: operations_ok_update_where)

lemma database_ok_upsert_file:
  "database_ok db \<Longrightarrow> database_ok (snd (upsert_file x now e db))"
  by (cases "file_row_of_entry x now e")
    (auto simp: upsert_file_def database_ok_def files_upsert_def
      dest: file_row_of_entry_check intro: files_ok_upsert)

lemma database_ok_files_statements:
  assumes "database_ok db"
  shows "database_ok (mark_scan_started db)" and "database_ok (finalize_scan now db)"
    and "database_ok (mark_file_deleted_locally now p db)" and "database_ok (forget_file p db)"
  using assms files_ok_mark [of db] files_ok_finalize [of db now]
    files_ok_delete_locally [of db now p]
  by (auto simp: database_ok_def mark_scan_started_def finalize_scan_def
      mark_file_deleted_locally_def forget_file_def intro: files_ok_delete)

lemma database_ok_record_skipped:
  "database_ok db \<Longrightarrow> database_ok (snd (record_skipped_folder_limit x now t db))"
  by (cases "i64_of_u64 (pt_size_bytes t)")
    (auto simp: record_skipped_folder_limit_def database_ok_def skipped_check_def
      i64_of_u64_range intro: skipped_ok_upsert)

lemma database_ok_enqueue:
  "database_ok db \<Longrightarrow> database_ok (snd (enqueue_sync_plan x supply plan db))"
  by (auto simp: enqueue_sync_plan_def database_ok_def Let_def clear_queue_def
      split: sum.split intro: enqueue_loop_ok operations_ok_delete_where)

lemma database_ok_marks:
  assumes "database_ok db"
  shows "database_ok (mark_sync_operation_started now i db)"
    and "database_ok (mark_sync_operation_done now i db)"
    and "database_ok (mark_sync_operation_failed now i err db)"
  unfolding mark_sync_operation_started_def mark_sync_operation_done_def
    mark_sync_operation_failed_def update_sync_operation_status_def
  using assms by (auto intro!: database_ok_update_operations operation_row_ok_started
      operation_row_ok_closed simp del: status_as_str.simps)

lemma database_ok_retry:
  assumes "database_ok db"
  shows "database_ok (snd (retry_failed_sync_operations x now remote db))"
proof -
  have "database_ok (update_operations (retryable remote) (retry_row now) db)"
    using assms by (rule database_ok_update_operations)
      (auto simp: retry_row_def [of now] intro: operation_row_ok_retry [unfolded retry_row_def])
  then show ?thesis by (simp add: retry_failed_sync_operations_def Let_def)
qed

lemma database_ok_resolve:
  assumes "database_ok db"
  shows "database_ok (snd (resolve_blocked_sync_operation x now i res db))"
proof -
  have "database_ok (update_operations (\<lambda>r. or_id r = i) (resolve_row now t res) db)"
    if "resolution_target k res = Some t" for k t
    using assms that by (intro database_ok_update_operations operation_row_ok_resolve)
      (auto simp: resolve_row_def)
  with assms show ?thesis
    by (auto simp: resolve_blocked_sync_operation_def Let_def split: sum.split option.split)
qed

subsection \<open>The state database as a state machine\<close>

text \<open>One step is one call of the database's interface, whatever it returns.\<close>

inductive db_step :: "'x externals_scheme \<Rightarrow> state_database \<Rightarrow> state_database \<Rightarrow> bool"
  for x where
  upsert: "db_step x db (snd (upsert_file x now e db))"
| mark: "db_step x db (mark_scan_started db)"
| finalize: "db_step x db (finalize_scan now db)"
| delete_locally: "db_step x db (mark_file_deleted_locally now p db)"
| forget: "db_step x db (forget_file p db)"
| skip: "db_step x db (snd (record_skipped_folder_limit x now t db))"
| enqueue: "db_step x db (snd (enqueue_sync_plan x supply plan db))"
| started: "db_step x db (mark_sync_operation_started now i db)"
| completed: "db_step x db (mark_sync_operation_done now i db)"
| failed: "db_step x db (mark_sync_operation_failed now i err db)"
| retry: "db_step x db (snd (retry_failed_sync_operations x now remote db))"
| resolve: "db_step x db (snd (resolve_blocked_sync_operation x now i res db))"

inductive db_reachable :: "'x externals_scheme \<Rightarrow> state_database \<Rightarrow> bool" for x where
  initial: "db_reachable x empty_database"
| next_state: "db_reachable x db \<Longrightarrow> db_step x db db' \<Longrightarrow> db_reachable x db'"

lemmas database_ok_statements =
  database_ok_upsert_file database_ok_files_statements database_ok_record_skipped
  database_ok_enqueue database_ok_marks database_ok_retry database_ok_resolve

lemma db_step_ok: "db_step x db db' \<Longrightarrow> database_ok db \<Longrightarrow> database_ok db'"
  by (induction rule: db_step.induct) (rule database_ok_statements; assumption)+

lemma db_reachable_ok: "db_reachable x db \<Longrightarrow> database_ok db"
  by (induction rule: db_reachable.induct) (auto intro: database_ok_empty db_step_ok)

subsection \<open>Retrying and resolving\<close>

lemma retry_db:
  "db_operations (snd (retry_failed_sync_operations x now remote db)) =
     update_where (retryable remote) (retry_row now) (db_operations db)"
  by (simp add: retry_failed_sync_operations_def Let_def)

lemma retry_result:
  assumes "fst (retry_failed_sync_operations x now remote db) = Inr out"
  shows "rf_retried out = of_nat (rows_affected (retryable remote) (db_operations db))"
  using assms by (auto simp: retry_failed_sync_operations_def Let_def and_then_Inr_iff)

lemma retry_row_id [simp]: "or_id (retry_row now r) = or_id r"
  by (simp add: retry_row_def)

lemma resolve_row_id [simp]: "or_id (resolve_row now t res r) = or_id r"
  by (simp add: resolve_row_def)

lemma find_updated_operation:
  assumes "\<And>r. or_id (f r) = or_id r"
  shows "find_row or_id i (update_where (\<lambda>r. or_id r = i) f rows) = map_option f (find_row or_id i rows)"
  using assms by (cases "find_row or_id i rows")
    (auto simp: find_row_update_where dest: find_row_key)

lemma find_other_operation:
  assumes "\<And>r. or_id (f r) = or_id r" and "j \<noteq> i"
  shows "find_row or_id j (update_where (\<lambda>r. or_id r = i) f rows) = find_row or_id j rows"
  using assms by (cases "find_row or_id j rows")
    (auto simp: find_row_update_where dest: find_row_key)

lemma get_sync_operation_Inr:
  "get_sync_operation x i db = Inr op \<longleftrightarrow>
     (\<exists>r. find_row or_id i (db_operations db) = Some r \<and> row_to_sync_operation x r = Inr op)"
  by (auto simp: get_sync_operation_def and_then_Inr_iff)

lemma row_to_sync_operation_fields:
  assumes "row_to_sync_operation x r = Inr op"
  shows "op_id op = or_id r" "relative_path_parse (or_path r) = Inr (op_path op)"
    "kind_parse (or_kind r) = Inr (op_kind op)" "status_parse (or_status r) = Inr (op_status op)"
    "op_reason op = or_reason r" "op_last_error op = or_last_error r"
    "op_remote_device_id op = or_remote_device_id r"
    "optional_u64 (or_local_size_bytes r) = Inr (op_local_size_bytes op)"
    "optional_u64 (or_remote_size_bytes r) = Inr (op_remote_size_bytes op)"
    "op_local_content_hash op = or_local_content_hash r"
    "op_remote_content_hash op = or_remote_content_hash r"
    "optional_unix_timestamp x (or_started_at_unix r) = Inr (op_started_at op)"
    "optional_unix_timestamp x (or_finished_at_unix r) = Inr (op_finished_at op)"
    "u64_of_i64 (or_retry_count r) = Some (op_retry_count op)"
  using assms by (auto simp: row_to_sync_operation_def and_then_Inr_iff)

text \<open>A refused resolution changes nothing; an accepted one makes the operation a transfer.\<close>

lemma resolve_cases:
  fixes x now i res db
  defines "out \<equiv> resolve_blocked_sync_operation x now i res db"
  obtains (missing) e where "get_sync_operation x i db = Inl e" "out = (Inl e, db)"
  | (not_blocked) op where "get_sync_operation x i db = Inr op" "op_status op \<noteq> Blocked"
      "out = (Inl (StateDatabaseError ''only blocked operations can be resolved''), db)"
  | (invalid) op e where "get_sync_operation x i db = Inr op" "op_status op = Blocked"
      "resolution_target (op_kind op) res = None" "out = (Inl e, db)"
  | (accepted) op t where "get_sync_operation x i db = Inr op" "op_status op = Blocked"
      "resolution_target (op_kind op) res = Some t"
      "snd out = update_operations (\<lambda>r. or_id r = i) (resolve_row now t res) db"
      "\<And>s. fst out = Inr s \<Longrightarrow> get_sync_operation x i (snd out) = Inr (ro_operation s)"
proof (cases "get_sync_operation x i db")
  case (Inl e)
  then show ?thesis by (intro missing [of e]) (simp_all add: out_def resolve_blocked_sync_operation_def)
next
  case (Inr op)
  show ?thesis
  proof (cases "op_status op = Blocked")
    case False
    with Inr show ?thesis
      by (intro not_blocked [of op]) (simp_all add: out_def resolve_blocked_sync_operation_def)
  next
    case True
    show ?thesis
    proof (cases "resolution_target (op_kind op) res")
      case None
      with Inr True show ?thesis
        by (intro invalid [of op]) (simp_all add: out_def resolve_blocked_sync_operation_def)
    next
      case (Some t)
      with Inr True show ?thesis
        by (intro accepted [of op t])
          (auto simp: out_def resolve_blocked_sync_operation_def Let_def and_then_Inr_iff)
    qed
  qed
qed

lemma resolved_operation:
  assumes "get_sync_operation x i db = Inr op"
    and "get_sync_operation x i
           (update_operations (\<lambda>r. or_id r = i) (resolve_row now t res) db) = Inr op'"
  shows "op_id op' = op_id op \<and> op_path op' = op_path op \<and> op_kind op' = t
    \<and> op_status op' = Pending \<and> op_reason op' = resolution_reason res
    \<and> op_last_error op' = None \<and> op_started_at op' = None \<and> op_finished_at op' = None
    \<and> op_local_content_hash op' = op_local_content_hash op
    \<and> op_remote_content_hash op' = op_remote_content_hash op
    \<and> op_retry_count op' = op_retry_count op"
proof -
  from assms obtain r where r: "row_to_sync_operation x r = Inr op"
    "row_to_sync_operation x (resolve_row now t res r) = Inr op'"
    by (auto simp: get_sync_operation_Inr find_updated_operation)
  have "status_parse ''pending'' = Inr Pending" by (simp add: status_parse_def)
  with row_to_sync_operation_fields [OF r(1)] row_to_sync_operation_fields [OF r(2)]
  show ?thesis by (simp add: resolve_row_def optional_unix_timestamp_def)
qed

section \<open>Queue counters\<close>

lemma count_status_counters:
  "qs_pending (count_status s st) = (if st = Pending then saturating_add (qs_pending s) 1 else qs_pending s)"
  "qs_blocked (count_status s st) = (if st = Blocked then saturating_add (qs_blocked s) 1 else qs_blocked s)"
  "qs_done (count_status s st) = (if st = Done then saturating_add (qs_done s) 1 else qs_done s)"
  "qs_failed (count_status s st) = (if st = Failed then saturating_add (qs_failed s) 1 else qs_failed s)"
  "qs_total (count_status s st) = qs_total s"
  by (cases st; simp)+

lemma count_kind_frame:
  "qs_pending (count_kind s k) = qs_pending s" "qs_blocked (count_kind s k) = qs_blocked s"
  "qs_done (count_kind s k) = qs_done s" "qs_failed (count_kind s k) = qs_failed s"
  "qs_total (count_kind s k) = qs_total s"
  by (cases k; simp)+

interpretation q_pending: saturating_counter count_operation qs_pending "\<lambda>p. op_status p = Pending"
  by unfold_locales (simp add: count_operation_def count_kind_frame count_status_counters)

interpretation q_blocked: saturating_counter count_operation qs_blocked "\<lambda>p. op_status p = Blocked"
  by unfold_locales (simp add: count_operation_def count_kind_frame count_status_counters)

interpretation q_done: saturating_counter count_operation qs_done "\<lambda>p. op_status p = Done"
  by unfold_locales (simp add: count_operation_def count_kind_frame count_status_counters)

interpretation q_failed: saturating_counter count_operation qs_failed "\<lambda>p. op_status p = Failed"
  by unfold_locales (simp add: count_operation_def count_kind_frame count_status_counters)

lemma queue_total_frame: "qs_total (foldl count_operation s ops) = qs_total s"
  by (induction ops arbitrary: s)
    (simp_all add: count_operation_def count_kind_frame count_status_counters)

text \<open>How many rows have a given status.\<close>

definition status_count :: "operation_row list \<Rightarrow> string \<Rightarrow> nat" where
  "status_count rows st = length (filter (\<lambda>r. or_status r = st) rows)"

lemma status_parse_inj: "status_parse v = Inr s \<longleftrightarrow> v = status_as_str s"
  by (cases s) (auto simp: status_parse_def split: if_splits)

lemma decoded_status_count:
  assumes "list_all2 (\<lambda>r op. row_to_sync_operation x r = Inr op) rows ops"
  shows "length (filter (\<lambda>p. op_status p = s) ops) = status_count rows (status_as_str s)"
  using assms unfolding status_count_def
proof (induction rule: list_all2_induct)
  case (Cons r rows op ops)
  then have "status_parse (or_status r) = Inr (op_status op)"
    by (simp add: row_to_sync_operation_fields)
  then have "or_status r = status_as_str s \<longleftrightarrow> op_status op = s"
    by (metis status_parse_inj status_roundtrip sum.inject(2))
  with Cons show ?case by simp
qed simp

lemma queue_status_Inr:
  assumes "queue_status x db = Inr q"
  obtains ops where
    "list_all2 (\<lambda>r op. row_to_sync_operation x r = Inr op)
       (sort_key or_created_at_unix (sort_key or_path (db_operations db))) ops"
    "q = foldl count_operation (empty_queue_status\<lparr>qs_total := len_u64 ops\<rparr>) ops"
    "length ops = length (db_operations db)"
proof -
  from assms obtain ops where ops: "list_sync_operations x db = Inr ops"
    "q = foldl count_operation (empty_queue_status\<lparr>qs_total := len_u64 ops\<rparr>) ops"
    by (auto simp: queue_status_def and_then_Inr_iff)
  then have "length ops = length (db_operations db)"
    by (auto simp: list_sync_operations_def dest: collect_results_length)
  with ops show ?thesis
    by (intro that [of ops]) (simp_all add: list_sync_operations_def collect_results_Inr_iff)
qed

lemma queue_status_counts:
  assumes "queue_status x db = Inr q" and "length (db_operations db) < 2 ^ 64"
  shows "unat (qs_total q) = length (db_operations db)"
    and "unat (qs_pending q) = status_count (db_operations db) ''pending''"
    and "unat (qs_blocked q) = status_count (db_operations db) ''blocked''"
    and "unat (qs_done q) = status_count (db_operations db) ''done''"
    and "unat (qs_failed q) = status_count (db_operations db) ''failed''"
proof -
  obtain ops where ops: "list_all2 (\<lambda>r op. row_to_sync_operation x r = Inr op)
       (sort_key or_created_at_unix (sort_key or_path (db_operations db))) ops"
    and q: "q = foldl count_operation (empty_queue_status\<lparr>qs_total := len_u64 ops\<rparr>) ops"
    and len: "length ops = length (db_operations db)"
    using assms(1) by (rule queue_status_Inr)
  have zero: "qs_pending (empty_queue_status\<lparr>qs_total := t\<rparr>) = 0"
    "qs_blocked (empty_queue_status\<lparr>qs_total := t\<rparr>) = 0"
    "qs_done (empty_queue_status\<lparr>qs_total := t\<rparr>) = 0"
    "qs_failed (empty_queue_status\<lparr>qs_total := t\<rparr>) = 0" for t
    by (simp_all add: empty_queue_status_def)
  have cnt: "length (filter (\<lambda>p. op_status p = s) ops) = status_count (db_operations db) (status_as_str s)" for s
    using decoded_status_count [OF ops, of s] by (simp add: status_count_def)
  have lt: "length ops < 2 ^ 64" using len assms(2) by simp
  show "unat (qs_total q) = length (db_operations db)"
    using lt len by (simp add: q queue_total_frame unat_len_u64)
  show "unat (qs_pending q) = status_count (db_operations db) ''pending''"
    using q_pending.counter_from_zero [OF zero(1) lt] cnt [of Pending] by (simp add: q)
  show "unat (qs_blocked q) = status_count (db_operations db) ''blocked''"
    using q_blocked.counter_from_zero [OF zero(2) lt] cnt [of Blocked] by (simp add: q)
  show "unat (qs_done q) = status_count (db_operations db) ''done''"
    using q_done.counter_from_zero [OF zero(3) lt] cnt [of Done] by (simp add: q)
  show "unat (qs_failed q) = status_count (db_operations db) ''failed''"
    using q_failed.counter_from_zero [OF zero(4) lt] cnt [of Failed] by (simp add: q)
qed

section \<open>Unreadable operations\<close>

text \<open>
  A row whose path does not parse makes every listing that includes it fail; the plan's
  paths come from the peer's manifest and are stored unchecked.
\<close>

lemma list_sync_operations_unreadable:
  assumes "r \<in> set (db_operations db)" and "relative_path_parse (or_path r) = Inl e"
  shows "\<exists>e'. list_sync_operations x db = Inl e'"
proof -
  have "row_to_sync_operation x r = Inl e"
    using assms(2) by (simp add: row_to_sync_operation_def)
  with assms(1) show ?thesis
    by (auto simp: list_sync_operations_def intro: collect_results_error)
qed

lemma queue_status_unreadable:
  assumes "r \<in> set (db_operations db)" and "relative_path_parse (or_path r) = Inl e"
  shows "\<exists>e'. queue_status x db = Inl e'"
  using list_sync_operations_unreadable [OF assms, of x] by (auto simp: queue_status_def)

section \<open>Listing pending operations\<close>

lemma list_pending_operations_Inr:
  assumes "list_pending_operations x remote kind limit db = Inr ops"
  shows "length ops \<le> unat limit"
    and "\<And>op. op \<in> set ops \<Longrightarrow> op_status op = Pending \<and> op_kind op = kind
            \<and> op_remote_device_id op = remote
            \<and> (\<exists>r \<in> set (db_operations db). or_id r = op_id op \<and> row_to_sync_operation x r = Inr op)"
proof -
  let ?rows = "sort_key or_created_at_unix (sort_key or_path
      (filter (\<lambda>r. or_remote_device_id r = remote \<and> or_kind r = kind_as_str kind
                  \<and> or_status r = ''pending'') (db_operations db)))"
  from assms obtain n where n: "i64_of_u64 limit = Some n"
    and all: "list_all2 (\<lambda>r op. row_to_sync_operation x r = Inr op) (take (nat n) ?rows) ops"
    by (auto simp: list_pending_operations_def and_then_Inr_iff collect_results_Inr_iff)
  from n have "n = uint limit" by (simp add: i64_of_u64_Some_iff)
  then have "nat n = unat limit" by simp
  moreover from all have "length ops = length (take (nat n) ?rows)"
    by (rule list_all2_lengthD [symmetric])
  ultimately show "length ops \<le> unat limit" by (simp only: length_take min.cobounded2)
  fix op
  assume "op \<in> set ops"
  with all obtain r where r: "r \<in> set (take (nat n) ?rows)" "row_to_sync_operation x r = Inr op"
    by (auto dest: list_all2_mem2)
  then have "r \<in> set ?rows" by (blast dest: in_set_takeD)
  then have mem: "r \<in> set (db_operations db)" "or_remote_device_id r = remote"
    "or_kind r = kind_as_str kind" "or_status r = status_as_str Pending"
    by simp_all
  with row_to_sync_operation_fields [OF r(2)] have "op_kind op = kind" "op_status op = Pending"
    by (metis kind_roundtrip sum.inject(2)) (metis mem(4) row_to_sync_operation_fields(4) [OF r(2)]
        status_roundtrip sum.inject(2))
  with mem r(2) row_to_sync_operation_fields [OF r(2)]
  show "op_status op = Pending \<and> op_kind op = kind \<and> op_remote_device_id op = remote
      \<and> (\<exists>r \<in> set (db_operations db). or_id r = op_id op \<and> row_to_sync_operation x r = Inr op)"
    by auto
qed

section \<open>Properties\<close>

text \<open>
  C26: Whatever sequence of statements is run on a new database, with whatever arguments and
  errors, all \<open>CHECK\<close> constraints hold, primary keys are unique, a pending operation is a
  transfer and a blocked one is not.
\<close>

theorem reachable_database_ok:
  assumes "db_reachable x db"
  shows "distinct_keys fr_path (db_files db) \<and> list_all files_check (db_files db)
    \<and> distinct_keys sk_path (db_skipped db) \<and> list_all skipped_check (db_skipped db)
    \<and> distinct_keys or_id (db_operations db) \<and> list_all operations_check (db_operations db)
    \<and> list_all (\<lambda>r. (or_status r = ''pending'' \<longrightarrow> transfer_kind (or_kind r))
        \<and> (or_status r = ''blocked'' \<longrightarrow> \<not> transfer_kind (or_kind r))) (db_operations db)"
  using db_reachable_ok [OF assms]
  by (auto simp: database_ok_def files_ok_def skipped_ok_def operations_ok_def
      operation_row_ok_def list_all_iff)

definition sample_plan :: sync_plan where
  "sample_plan = plan_manifest_sync_for_mode sample_local sample_remote Bidirectional"

definition sample_supply :: "nat \<Rightarrow> string \<times> int" where
  "sample_supply n = (replicate (Suc n) (CHR ''u''), int n)"

definition sample_queue :: state_database where
  "sample_queue = snd (enqueue_sync_plan sample_externals sample_supply sample_plan empty_database)"

theorem reachable_database_ok_witness:
  "db_reachable sample_externals sample_queue \<and> distinct_keys or_id (db_operations sample_queue)
   \<and> length (db_operations sample_queue) = 3"
proof -
  have "db_reachable sample_externals sample_queue"
    unfolding sample_queue_def by (rule next_state [OF initial enqueue])
  moreover have "length (db_operations sample_queue) = 3" by code_simp
  ultimately show ?thesis using reachable_database_ok [of sample_externals sample_queue] by simp
qed

text \<open>
  C23: Enqueueing a plan is a transaction: either nothing changes, or exactly the pending and
  blocked operations of this peer are replaced, by one operation per entry that is not in
  sync, in the plan's order, with the entry's path, kind, status, sizes and hashes. Done
  and failed operations, other peers and the other tables are untouched.
\<close>

theorem enqueue_replaces_or_rolls_back:
  "snd (enqueue_sync_plan x supply plan db) = db
   \<or> (\<exists>new. snd (enqueue_sync_plan x supply plan db)
              = db\<lparr>db_operations := clear_queue (pl_remote_device_id plan) (db_operations db) @ new\<rparr>
          \<and> list_all2 (queued_for (pl_remote_device_id plan)) (filter actionable (pl_entries plan)) new)"
proof (cases "enqueue_loop supply (pl_remote_device_id plan) 0 (pl_entries plan)
    (clear_queue (pl_remote_device_id plan) (db_operations db))")
  case (Inl e)
  then show ?thesis by (simp add: enqueue_sync_plan_def)
next
  case (Inr rows)
  with enqueue_loop_rows [OF Inr] show ?thesis by (auto simp: enqueue_sync_plan_def Let_def)
qed

text \<open>
  The transaction commits whenever the sizes of the plan fit SQLite's integers and the
  generated identifiers are new and distinct.
\<close>

theorem enqueue_commits:
  assumes "list_all sizes_fit (pl_entries plan)" and "inj (\<lambda>n. fst (supply n))"
    and "\<And>n. fst (supply n) \<notin> or_id ` set (db_operations db)"
  shows "\<exists>new. snd (enqueue_sync_plan x supply plan db)
              = db\<lparr>db_operations := clear_queue (pl_remote_device_id plan) (db_operations db) @ new\<rparr>
          \<and> length new = length (filter actionable (pl_entries plan))"
proof -
  let ?remote = "pl_remote_device_id plan"
  have "or_id ` set (clear_queue ?remote (db_operations db)) \<subseteq> or_id ` set (db_operations db)"
    by (auto simp: clear_queue_mem)
  with assms(3) have "fst (supply m) \<notin> or_id ` set (clear_queue ?remote (db_operations db))" for m
    by blast
  moreover have "inj_on (\<lambda>m. fst (supply m)) {0..}" using assms(2) by (rule inj_on_subset) simp
  ultimately obtain rows where
    rows: "enqueue_loop supply ?remote 0 (pl_entries plan) (clear_queue ?remote (db_operations db)) = Inr rows"
    using enqueue_loop_succeeds [OF assms(1), of "supply" 0] by metis
  from enqueue_loop_rows [OF rows] obtain new where
    "rows = clear_queue ?remote (db_operations db) @ new"
    "list_all2 (queued_for ?remote) (filter actionable (pl_entries plan)) new" by blast
  with rows list_all2_lengthD [OF this(2)] show ?thesis
    by (intro exI [of _ new]) (simp add: enqueue_sync_plan_def Let_def)
qed

theorem enqueue_commits_witness:
  "\<exists>new. snd (enqueue_sync_plan sample_externals sample_supply sample_plan empty_database)
      = empty_database\<lparr>db_operations := clear_queue (pl_remote_device_id sample_plan)
          (db_operations empty_database) @ new\<rparr> \<and> length new = 3"
proof -
  have "list_all sizes_fit (pl_entries sample_plan)"
    "length (filter actionable (pl_entries sample_plan)) = 3" by code_simp+
  moreover have "inj (\<lambda>n. fst (sample_supply n))"
    by (simp add: inj_def sample_supply_def replicate_eq_replicate)
  ultimately show ?thesis
    using enqueue_commits [of sample_plan sample_supply empty_database sample_externals]
    by (simp add: empty_database_def)
qed

text \<open>
  C25: Resolving an operation either changes nothing, or the operation was blocked, the
  choice fits its kind, and the same operation is now a pending transfer in the chosen
  direction with its error and times cleared, while every other operation is unchanged. An
  operation blocked by the folder mode can never be resolved.
\<close>

theorem resolve_makes_a_transfer:
  assumes "get_sync_operation x i db = Inr op"
    and "fst (resolve_blocked_sync_operation x now i res db) = Inr s"
  shows "op_status op = Blocked \<and> resolution_target (op_kind op) res = Some (op_kind (ro_operation s))
    \<and> op_kind op \<noteq> OpModeBlocked
    \<and> get_sync_operation x i (snd (resolve_blocked_sync_operation x now i res db)) = Inr (ro_operation s)
    \<and> op_status (ro_operation s) = Pending \<and> op_path (ro_operation s) = op_path op
    \<and> op_remote_content_hash (ro_operation s) = op_remote_content_hash op
    \<and> op_last_error (ro_operation s) = None \<and> op_started_at (ro_operation s) = None
    \<and> (j \<noteq> i \<longrightarrow> find_row or_id j (db_operations (snd (resolve_blocked_sync_operation x now i res db)))
                   = find_row or_id j (db_operations db))"
proof (cases rule: resolve_cases [of x i db now res])
  case (accepted op' t)
  with assms have op: "op' = op" and
    get: "get_sync_operation x i (update_operations (\<lambda>r. or_id r = i) (resolve_row now t res) db)
            = Inr (ro_operation s)" by simp_all
  have "j \<noteq> i \<Longrightarrow> find_row or_id j (db_operations (snd (resolve_blocked_sync_operation x now i res db)))
      = find_row or_id j (db_operations db)"
    by (simp add: accepted(4) find_other_operation)
  moreover have "op_kind op \<noteq> OpModeBlocked" using accepted(3) op by auto
  ultimately show ?thesis
    using accepted resolved_operation [OF assms(1) get] op get by simp
qed (use assms in auto)

theorem resolve_makes_a_transfer_witness:
  "\<exists>s. fst (resolve_blocked_sync_operation sample_externals 9 ''u'' ResolveUploadToRemote sample_queue) = Inr s
     \<and> op_kind (ro_operation s) = OpUploadToRemote \<and> op_status (ro_operation s) = Pending"
proof -
  have "is_ok (fst (resolve_blocked_sync_operation sample_externals 9 ''u'' ResolveUploadToRemote sample_queue))"
    "is_ok (map_err (\<lambda>e. e) (get_sync_operation sample_externals ''u'' sample_queue))" by code_simp+
  then obtain s op where s: "fst (resolve_blocked_sync_operation sample_externals 9 ''u''
      ResolveUploadToRemote sample_queue) = Inr s"
    and op: "get_sync_operation sample_externals ''u'' sample_queue = Inr op"
    by (auto simp: is_ok_iff)
  have "(case get_sync_operation sample_externals ''u'' sample_queue of Inl _ \<Rightarrow> None
      | Inr op \<Rightarrow> Some (op_kind op)) = Some OpResolveConflict" by code_simp
  then have "op_kind op = OpResolveConflict" by (simp add: op)
  with resolve_makes_a_transfer [OF op s, of "''v''"] s show ?thesis by auto
qed

text \<open>A resolution that is refused, for whatever reason, leaves the database as it was.\<close>

theorem refused_resolution_changes_nothing:
  assumes "get_sync_operation x i db = Inl e \<or> get_sync_operation x i db = Inr op
      \<and> (op_status op \<noteq> Blocked \<or> resolution_target (op_kind op) res = None)"
  shows "snd (resolve_blocked_sync_operation x now i res db) = db
    \<and> \<not> is_ok (fst (resolve_blocked_sync_operation x now i res db))"
  using assms by (cases rule: resolve_cases [of x i db now res]) auto

theorem refused_resolution_changes_nothing_witness:
  "snd (resolve_blocked_sync_operation sample_externals 9 ''u'' ResolveUploadToRemote empty_database)
     = empty_database"
proof -
  have "get_sync_operation sample_externals ''u'' empty_database
      = Inl (StateDatabaseError ''sync operation not found'')" by code_simp
  with refused_resolution_changes_nothing [of sample_externals "''u''" empty_database
      "StateDatabaseError ''sync operation not found''"] show ?thesis by blast
qed

text \<open>
  A retry touches exactly the failed transfers, of one peer or of all, makes them
  pending with one more retry and no error, and reports how many there were.
\<close>

theorem retry_restarts_failed_transfers:
  "db_operations (snd (retry_failed_sync_operations x now remote db)) =
     map (\<lambda>r. if retryable remote r
              then r\<lparr>or_status := ''pending'', or_last_error := None,
                     or_retry_count := or_retry_count r + 1, or_started_at_unix := None,
                     or_finished_at_unix := None, or_updated_at_unix := now\<rparr> else r) (db_operations db)
   \<and> (case fst (retry_failed_sync_operations x now remote db) of
        Inl e \<Rightarrow> queue_status x (snd (retry_failed_sync_operations x now remote db)) = Inl e
      | Inr out \<Rightarrow> rf_retried out = of_nat (length (filter (retryable remote) (db_operations db))))"
  using retry_result [of x now remote db]
  by (auto simp: retry_db update_where_def retry_row_def [of now] rows_affected_def
      retry_failed_sync_operations_def Let_def and_then_Inl_iff split: sum.split)

text \<open>
  The queue status counts the stored operations exactly: in total, and by each of the
  four states, which together are all of them when the constraints hold.
\<close>

theorem queue_status_exact:
  assumes "queue_status x db = Inr q" and "length (db_operations db) < 2 ^ 64"
  shows "unat (qs_total q) = length (db_operations db)
    \<and> unat (qs_pending q) = status_count (db_operations db) ''pending''
    \<and> unat (qs_blocked q) = status_count (db_operations db) ''blocked''
    \<and> unat (qs_done q) = status_count (db_operations db) ''done''
    \<and> unat (qs_failed q) = status_count (db_operations db) ''failed''"
  using queue_status_counts [OF assms] by simp

theorem queue_status_exact_witness:
  "\<exists>q. queue_status sample_externals sample_queue = Inr q \<and> unat (qs_blocked q) = 1 \<and> unat (qs_pending q) = 2"
proof -
  have "is_ok (queue_status sample_externals sample_queue)" by code_simp
  then obtain q where q: "queue_status sample_externals sample_queue = Inr q" by (auto simp: is_ok_iff)
  have "length (db_operations sample_queue) = 3" "status_count (db_operations sample_queue) ''blocked'' = 1"
    "status_count (db_operations sample_queue) ''pending'' = 2" by code_simp+
  with queue_status_exact [OF q] show ?thesis by (intro exI [of _ q]) (simp add: q)
qed

text \<open>
  A listing of pending transfers for a peer returns at most the requested number, and
  only operations that are stored, pending, of the asked direction and for that peer.
\<close>

theorem pending_listing_is_sound:
  assumes "list_pending_operations x remote kind limit db = Inr ops" and "op \<in> set ops"
  shows "length ops \<le> unat limit \<and> op_status op = Pending \<and> op_kind op = kind
    \<and> op_remote_device_id op = remote
    \<and> (\<exists>r. r \<in> set (db_operations db) \<and> or_id r = op_id op \<and> row_to_sync_operation x r = Inr op)"
  using list_pending_operations_Inr [OF assms(1)] assms(2) by blast

theorem pending_listing_is_sound_witness:
  "\<exists>op. list_pending_operations sample_externals ''there'' OpDownloadFromRemote 5 sample_queue = Inr [op]
     \<and> op_kind op = OpDownloadFromRemote \<and> op_status op = Pending
     \<and> op_remote_device_id op = ''there''"
proof -
  have "(case list_pending_operations sample_externals ''there'' OpDownloadFromRemote 5 sample_queue of
      Inl _ \<Rightarrow> False | Inr ops \<Rightarrow> length ops = 1)" by code_simp
  then obtain op where o: "list_pending_operations sample_externals ''there''
      OpDownloadFromRemote 5 sample_queue = Inr [op]"
    by (auto simp: length_Suc_conv split: sum.splits)
  then have "op_kind op = OpDownloadFromRemote \<and> op_status op = Pending
      \<and> op_remote_device_id op = ''there''"
    using pending_listing_is_sound [of sample_externals "''there''" OpDownloadFromRemote 5 sample_queue "[op]" op]
    by simp
  with o show ?thesis by blast
qed

text \<open>
  An entry whose path does not parse, as a peer's manifest can contain, is stored all
  the same, and from then on the queue cannot be read: its status and its listing are
  errors until the row is gone.
\<close>

theorem unparsable_path_blocks_queue:
  assumes "e \<in> set (pl_entries plan)" and "actionable e"
    and "relative_path_parse (sp_path e) = Inl err"
    and "snd (enqueue_sync_plan x supply plan db) \<noteq> db"
  shows "\<not> is_ok (queue_status x (snd (enqueue_sync_plan x supply plan db)))
    \<and> \<not> is_ok (list_sync_operations x (snd (enqueue_sync_plan x supply plan db)))
    \<and> \<not> is_ok (fst (enqueue_sync_plan x supply plan db))"
proof -
  let ?out = "enqueue_sync_plan x supply plan db"
  from assms(4) obtain rows where
    rows: "enqueue_loop supply (pl_remote_device_id plan) 0 (pl_entries plan)
       (clear_queue (pl_remote_device_id plan) (db_operations db)) = Inr rows"
    and out: "snd ?out = db\<lparr>db_operations := rows\<rparr>" "fst ?out = queue_status x (snd ?out)"
    by (auto simp: enqueue_sync_plan_def Let_def split: sum.splits)
  from enqueue_loop_rows [OF rows] obtain new where
    new: "rows = clear_queue (pl_remote_device_id plan) (db_operations db) @ new"
    "list_all2 (queued_for (pl_remote_device_id plan)) (filter actionable (pl_entries plan)) new" by blast
  with assms(1,2) obtain r where "r \<in> set new" "queued_for (pl_remote_device_id plan) e r"
    by (auto dest!: list_all2_mem1 [where x = e])
  with new(1) out(1) assms(3) have "r \<in> set (db_operations (snd ?out))"
    "relative_path_parse (or_path r) = Inl err" by (auto simp: queued_for_def)
  from queue_status_unreadable [OF this, of x] list_sync_operations_unreadable [OF this, of x] out(2)
  show ?thesis by auto
qed

definition sample_evil_plan :: sync_plan where
  "sample_evil_plan = plan_manifest_sync_for_mode sample_local
     (sample_manifest ''there'' [sample_record ''../x'' ''h'' LocalAvailable]) Bidirectional"

theorem unparsable_path_blocks_queue_witness:
  "\<not> is_ok (queue_status sample_externals
      (snd (enqueue_sync_plan sample_externals sample_supply sample_evil_plan empty_database)))"
proof -
  let ?e = "hd (pl_entries sample_evil_plan)"
  have "?e \<in> set (pl_entries sample_evil_plan)" by (rule hd_in_set) code_simp
  moreover have "actionable ?e" "relative_path_parse (sp_path ?e) = Inl TraversalRelativePath" by code_simp+
  moreover have "length (db_operations (snd (enqueue_sync_plan sample_externals sample_supply
      sample_evil_plan empty_database))) = 4" by code_simp
  then have "snd (enqueue_sync_plan sample_externals sample_supply sample_evil_plan empty_database) \<noteq> empty_database"
    by (auto simp: empty_database_def)
  ultimately show ?thesis using unparsable_path_blocks_queue by blast
qed

end
