(* ===== verification/Folder_Scanner.thy ===== *)
theory Folder_Scanner
  imports Sync_Queue
begin

text \<open>
  \<open>scanner.rs\<close>: the walk over a folder that brings the file index up to date. The disk is a
  finite snapshot with an answer, possibly an error, for every call the scan makes; the two
  loops of \<open>scan_into\<close> are the recursion over a directory's entries and the one over the
  stack of directories. The lemmas show that the walk ends, which rows it upserts, that a
  readable tree is scanned to the end, and that a walk that fails has only upserted.
\<close>

section \<open>The disk as a snapshot\<close>

text \<open>
  What the scan reads from the operating system: for every directory its entries in the
  order \<open>read_dir\<close> yields them, for every entry what \<open>metadata\<close>, \<open>modified\<close> and
  \<open>fs::read\<close> answer. A symbolic link, a socket or a device is \<open>OtherNode\<close>; every way an
  answer can be an error is a constructor of its own.
\<close>

datatype fs_node =
    FileNode "u64 option" string
  | UnreadableFile string
  | DirNode "dir_item list"
  | UnreadableDir string
  | OtherNode
and dir_item =
    NextEntryError string
  | NonUtf8Entry string
  | MetadataError string string
  | DirItem string fs_node

fun node_weight :: "fs_node \<Rightarrow> nat" and item_weight :: "dir_item \<Rightarrow> nat" where
  "node_weight (DirNode items) = Suc (sum_list (map item_weight items))"
| "node_weight _ = 1"
| "item_weight (DirItem name node) = node_weight node"
| "item_weight _ = 0"

text \<open>\<open>fs::read_dir\<close>.\<close>

fun read_dir :: "fs_node \<Rightarrow> string + dir_item list" where
  "read_dir (DirNode items) = Inr items"
| "read_dir (UnreadableDir msg) = Inl msg"
| "read_dir _ = Inl ''Not a directory (os error 20)''"

section \<open>The scanner\<close>

record scanner =
  sn_root :: string
  sn_device_id :: device_id

record scan_summary =
  sc_files_seen :: u64
  sc_directories_seen :: u64
  sc_bytes_seen :: u64
  sc_unsupported_entries :: u64
  sc_local_missing :: u64

definition default_scan_summary :: scan_summary where
  "default_scan_summary = \<lparr>sc_files_seen = 0, sc_directories_seen = 0, sc_bytes_seen = 0,
     sc_unsupported_entries = 0, sc_local_missing = 0\<rparr>"

text \<open>The directories still to be read, the last one pushed first.\<close>

type_synonym scan_stack = "(string \<times> fs_node) list"

text \<open>
  The two clocks the handling of a file reads, by the file's path: \<open>now_utc\<close> for the
  entry and SQLite's \<open>unixepoch()\<close> for the row.
\<close>

type_synonym scan_clock = "string \<Rightarrow> datetime \<times> int"

definition raw_relative_path :: "scanner \<Rightarrow> string \<Rightarrow> string core_result" where
  "raw_relative_path sc path =
     ok_or (Filesystem path ''prefix not found'') (path_strip_prefix (sn_root sc) path)"

definition modified_at_or_now ::
  "'x externals_scheme \<Rightarrow> u64 option \<Rightarrow> datetime \<Rightarrow> datetime" where
  "modified_at_or_now x modified now_utc =
     (case Option.bind modified i64_of_u64 of
        None \<Rightarrow> now_utc
      | Some seconds \<Rightarrow>
          (case from_unix_timestamp x seconds of Inl _ \<Rightarrow> now_utc | Inr d \<Rightarrow> d))"

definition scanned_entry ::
  "'x externals_scheme \<Rightarrow> datetime \<Rightarrow> scanner \<Rightarrow> relative_path \<Rightarrow> u64 option \<Rightarrow> string \<Rightarrow> file_entry" where
  "scanned_entry x now_utc sc relative modified bytes =
     \<lparr>fe_path = relative, fe_kind = FileK, fe_size_bytes = len_u64 bytes,
      fe_modified_at = modified_at_or_now x modified now_utc,
      fe_content_hash = Some (content_hash_from_bytes x bytes), fe_block_hashes = [],
      fe_version = \<lparr>fv_generation = 1, fv_device_id = sn_device_id sc\<rparr>\<rparr>"

definition in_syncer_dir :: "string \<Rightarrow> bool" where
  "in_syncer_dir relative_raw =
     (case path_components relative_raw of [] \<Rightarrow> False
      | c # _ \<Rightarrow> component_str c = syncer_dir_name)"

text \<open>What happens to an entry once its metadata is known.\<close>

fun scan_node ::
  "'x externals_scheme \<Rightarrow> scan_clock \<Rightarrow> scanner \<Rightarrow> string \<Rightarrow> relative_path \<Rightarrow> fs_node
     \<Rightarrow> scan_stack \<Rightarrow> scan_summary \<Rightarrow> (scan_stack \<times> scan_summary) db_op" where
  "scan_node x clock sc path relative (DirNode items) stack summary =
     lift_result (Inr ((path, DirNode items) # stack,
       summary\<lparr>sc_directories_seen := saturating_add (sc_directories_seen summary) 1\<rparr>))"
| "scan_node x clock sc path relative (UnreadableDir msg) stack summary =
     lift_result (Inr ((path, UnreadableDir msg) # stack,
       summary\<lparr>sc_directories_seen := saturating_add (sc_directories_seen summary) 1\<rparr>))"
| "scan_node x clock sc path relative OtherNode stack summary =
     lift_result (Inr (stack,
       summary\<lparr>sc_unsupported_entries := saturating_add (sc_unsupported_entries summary) 1\<rparr>))"
| "scan_node x clock sc path relative (UnreadableFile msg) stack summary =
     lift_result (Inl (Filesystem path msg))"
| "scan_node x clock sc path relative (FileNode modified bytes) stack summary =
     bind_op (upsert_file x (snd (clock path))
                (scanned_entry x (fst (clock path)) sc relative modified bytes)) (\<lambda>_.
       lift_result (Inr (stack,
         summary\<lparr>sc_files_seen := saturating_add (sc_files_seen summary) 1,
                 sc_bytes_seen := saturating_add (sc_bytes_seen summary) (len_u64 bytes)\<rparr>)))"

text \<open>One entry of a directory: the body of the inner loop.\<close>

fun scan_entry ::
  "'x externals_scheme \<Rightarrow> scan_clock \<Rightarrow> scanner \<Rightarrow> string \<Rightarrow> dir_item
     \<Rightarrow> scan_stack \<Rightarrow> scan_summary \<Rightarrow> (scan_stack \<times> scan_summary) db_op" where
  "scan_entry x clock sc directory (NextEntryError msg) stack summary =
     lift_result (Inl (Filesystem directory msg))"
| "scan_entry x clock sc directory (NonUtf8Entry display) stack summary =
     lift_result (Inl (Filesystem display ''path is not valid UTF-8''))"
| "scan_entry x clock sc directory (MetadataError name msg) stack summary =
     (let path = path_push directory name in
      bind_op (lift_result (raw_relative_path sc path)) (\<lambda>relative_raw.
      if in_syncer_dir relative_raw then lift_result (Inr (stack, summary))
      else bind_op (lift_result (relative_path_parse relative_raw)) (\<lambda>relative.
        lift_result (Inl (Filesystem path msg)))))"
| "scan_entry x clock sc directory (DirItem name node) stack summary =
     (let path = path_push directory name in
      bind_op (lift_result (raw_relative_path sc path)) (\<lambda>relative_raw.
      if in_syncer_dir relative_raw then lift_result (Inr (stack, summary))
      else bind_op (lift_result (relative_path_parse relative_raw)) (\<lambda>relative.
        scan_node x clock sc path relative node stack summary)))"

fun scan_entries ::
  "'x externals_scheme \<Rightarrow> scan_clock \<Rightarrow> scanner \<Rightarrow> string \<Rightarrow> dir_item list
     \<Rightarrow> scan_stack \<Rightarrow> scan_summary \<Rightarrow> (scan_stack \<times> scan_summary) db_op" where
  "scan_entries x clock sc directory [] stack summary = lift_result (Inr (stack, summary))"
| "scan_entries x clock sc directory (item # items) stack summary =
     bind_op (scan_entry x clock sc directory item stack summary) (\<lambda>(stack', summary').
       scan_entries x clock sc directory items stack' summary')"

definition stack_weight :: "scan_stack \<Rightarrow> nat" where
  "stack_weight stack = sum_list (map (node_weight \<circ> snd) stack)"

lemma scan_node_weight:
  "scan_node x clock sc path rel node stack summary db = (Inr (stack', summary'), db') \<Longrightarrow>
     stack_weight stack' \<le> node_weight node + stack_weight stack"
  by (cases node) (auto simp: stack_weight_def bind_op_apply split: sum.splits)

lemma scan_entry_weight:
  "scan_entry x clock sc directory item stack summary db = (Inr (stack', summary'), db') \<Longrightarrow>
     stack_weight stack' \<le> item_weight item + stack_weight stack"
  by (cases item)
    (auto simp: bind_op_apply Let_def dest: scan_node_weight split: sum.splits if_splits)

lemma scan_entries_weight:
  "scan_entries x clock sc directory items stack summary db = (Inr (stack', summary'), db') \<Longrightarrow>
     stack_weight stack' \<le> sum_list (map item_weight items) + stack_weight stack"
proof (induction items arbitrary: stack summary db)
  case Nil
  then show ?case by simp
next
  case (Cons item items)
  then obtain stack1 summary1 db1 where
    1: "scan_entry x clock sc directory item stack summary db = (Inr (stack1, summary1), db1)"
    and 2: "scan_entries x clock sc directory items stack1 summary1 db1 = (Inr (stack', summary'), db')"
    by (auto simp: bind_op_def split: prod.splits sum.splits)
  from scan_entry_weight [OF 1] Cons.IH [OF 2] show ?case by simp
qed

lemma read_dir_Inr: "read_dir node = Inr items \<longleftrightarrow> node = DirNode items"
  by (cases node) auto

text \<open>
  The outer loop. It ends because what a directory pushes weighs less than the directory
  that was popped.
\<close>

function scan_directories ::
  "'x externals_scheme \<Rightarrow> scan_clock \<Rightarrow> scanner \<Rightarrow> scan_stack \<Rightarrow> scan_summary
     \<Rightarrow> scan_summary db_op" where
  "scan_directories x clock sc [] summary db = (Inr summary, db)"
| "scan_directories x clock sc ((directory, node) # stack) summary db =
     (case read_dir node of
        Inl msg \<Rightarrow> (Inl (Filesystem directory msg), db)
      | Inr items \<Rightarrow>
          (case scan_entries x clock sc directory items stack summary db of
             (Inl e, db') \<Rightarrow> (Inl e, db')
           | (Inr (stack', summary'), db') \<Rightarrow>
               scan_directories x clock sc stack' summary' db'))"
  by pat_completeness auto

termination
proof (relation "measure (\<lambda>(x, clock, sc, stack, summary, db). stack_weight stack)")
  fix x :: "'x externals_scheme" and clock sc directory node stack summary db items out db' p stack' summary'
  assume "read_dir node = Inr items"
    and out: "(out, db') = scan_entries x clock sc directory items stack summary db"
    and "out = Inr p" "(stack', summary') = p"
  then have "scan_entries x clock sc directory items stack summary db = (Inr (stack', summary'), db')"
    and "node = DirNode items"
    by (simp_all add: read_dir_Inr)
  then show "((x, clock, sc, stack', summary', db'), (x, clock, sc, (directory, node) # stack, summary, db))
      \<in> measure (\<lambda>(x, clock, sc, stack, summary, db). stack_weight stack)"
    by (auto simp: stack_weight_def dest: scan_entries_weight)
qed simp

definition scan_into ::
  "'x externals_scheme \<Rightarrow> scan_clock \<Rightarrow> int \<Rightarrow> scanner \<Rightarrow> fs_node \<Rightarrow> scan_summary db_op" where
  "scan_into x clock now sc root_node =
     bind_op (write_op mark_scan_started) (\<lambda>_.
     bind_op (scan_directories x clock sc [(sn_root sc, root_node)] default_scan_summary) (\<lambda>summary.
     bind_op (write_op (finalize_scan now)) (\<lambda>_.
     bind_op (read_op (list_missing_after_scan x)) (\<lambda>missing.
       lift_result (Inr (summary\<lparr>sc_local_missing := len_u64 missing\<rparr>))))))"

section \<open>What a scan sees\<close>

text \<open>The files below a node and outside \<open>.syncer\<close>, as their lists of names from the root.\<close>

fun node_files :: "string list \<Rightarrow> fs_node \<Rightarrow> string list list"
  and item_files :: "string list \<Rightarrow> dir_item \<Rightarrow> string list list" where
  "node_files ns (FileNode modified bytes) = [ns]"
| "node_files ns (DirNode items) = concat (map (item_files ns) items)"
| "node_files ns _ = []"
| "item_files ns (DirItem name node) =
     (if hd (ns @ [name]) = syncer_dir_name then [] else node_files (ns @ [name]) node)"
| "item_files ns _ = []"

text \<open>The same with their contents.\<close>

fun node_contents :: "string list \<Rightarrow> fs_node \<Rightarrow> (string list \<times> string) list"
  and item_contents :: "string list \<Rightarrow> dir_item \<Rightarrow> (string list \<times> string) list" where
  "node_contents ns (FileNode modified bytes) = [(ns, bytes)]"
| "node_contents ns (DirNode items) = concat (map (item_contents ns) items)"
| "node_contents ns _ = []"
| "item_contents ns (DirItem name node) =
     (if hd (ns @ [name]) = syncer_dir_name then [] else node_contents (ns @ [name]) node)"
| "item_contents ns _ = []"

lemma map_fst_contents:
  "map fst (node_contents ns node) = node_files ns node"
  "map fst (item_contents ns item) = item_files ns item"
  by (induction ns node and ns item rule: node_contents_item_contents.induct)
    (simp_all add: map_concat comp_def cong: map_cong)

text \<open>Names come from the kernel: never empty, a dot or a double dot, never with a slash.\<close>

fun node_named :: "fs_node \<Rightarrow> bool" and item_named :: "dir_item \<Rightarrow> bool" where
  "node_named (DirNode items) = list_all item_named items"
| "node_named _ = True"
| "item_named (DirItem name node) \<longleftrightarrow> plain_name name \<and> node_named node"
| "item_named (MetadataError name msg) = plain_name name"
| "item_named _ = True"

definition below :: "string \<Rightarrow> string list \<Rightarrow> string" where
  "below root ns = foldl path_push root ns"

definition indexed_path :: "string list \<Rightarrow> string" where
  "indexed_path ns = (case relative_path_parse (join_with CHR ''/'' ns) of
     Inl _ \<Rightarrow> [] | Inr p \<Rightarrow> path_str p)"

text \<open>What the walk is about to do: a stack of directories given by their names.\<close>

type_synonym pending_dirs = "(string list \<times> fs_node) list"

definition stack_of :: "string \<Rightarrow> pending_dirs \<Rightarrow> scan_stack" where
  "stack_of root ds = map (\<lambda>(ns, node). (below root ns, node)) ds"

definition dir_files :: "string list \<times> fs_node \<Rightarrow> (string list \<times> string) list" where
  "dir_files d = (case d of (ns, node) \<Rightarrow> (case read_dir node of Inl _ \<Rightarrow> []
     | Inr items \<Rightarrow> concat (map (item_contents ns) items)))"

definition pending_files :: "pending_dirs \<Rightarrow> (string list \<times> string) list" where
  "pending_files ds = concat (map dir_files ds)"

definition pending_ok :: "pending_dirs \<Rightarrow> bool" where
  "pending_ok ds \<longleftrightarrow> list_all (\<lambda>(ns, node). list_all plain_name ns \<and> node_named node) ds"

lemma below_simps [simp]:
  "below root [] = root"
  "below root (ns @ [q]) = path_push (below root ns) q"
  by (simp_all add: below_def)

lemma path_components_below:
  "list_all plain_name ns \<Longrightarrow> path_components (below root ns) = path_components root @ map NormalPart ns"
proof (induction ns rule: rev_induct)
  case Nil
  then show ?case by simp
next
  case (snoc q ns)
  then show ?case by (simp add: path_components_push_name)
qed

lemma raw_relative_path_below:
  assumes "list_all plain_name ns" and "plain_name name"
  shows "raw_relative_path sc (path_push (below (sn_root sc) ns) name)
           = Inr (join_with CHR ''/'' (ns @ [name]))"
proof -
  have "path_components (path_push (below (sn_root sc) ns) name)
          = path_components (sn_root sc) @ map NormalPart (ns @ [name])"
    using assms by (simp add: path_components_push_name path_components_below)
  then show ?thesis
    by (simp add: raw_relative_path_def path_strip_prefix_def component_str_Normal del: map_append)
qed

lemma in_syncer_dir_join:
  assumes "list_all plain_name ns" and "plain_name name"
  shows "in_syncer_dir (join_with CHR ''/'' (ns @ [name])) \<longleftrightarrow> hd (ns @ [name]) = syncer_dir_name"
proof -
  have "plain_names (ns @ [name])" using assms by (simp add: plain_names_def)
  then show ?thesis
    by (cases ns) (simp_all add: in_syncer_dir_def path_components_join del: append.simps, simp_all)
qed

text \<open>What a row says of a file, and what it has to say: path, kind, size and fingerprint.\<close>

definition row_key :: "file_row \<Rightarrow> string \<times> string \<times> int \<times> string option" where
  "row_key r = (fr_path r, fr_kind r, fr_size_bytes r, fr_content_hash r)"

definition file_key ::
  "'x externals_scheme \<Rightarrow> string list \<times> string \<Rightarrow> string \<times> string \<times> int \<times> string option" where
  "file_key x f = (indexed_path (fst f), ''file'', uint (len_u64 (snd f)), Some (blake3_hex x (snd f)))"

text \<open>
  A piece of the walk that returned: it has upserted rows for some of the files it had to
  visit, the rest is still on the stack, and the counters have grown by the rows.
\<close>

definition walked ::
  "'x externals_scheme \<Rightarrow> (string list \<times> string) list \<Rightarrow> pending_dirs \<Rightarrow> scan_summary \<Rightarrow> state_database
     \<Rightarrow> pending_dirs \<Rightarrow> scan_summary \<Rightarrow> state_database \<Rightarrow> bool" where
  "walked x files ds s db ds' s' db' \<longleftrightarrow>
     pending_ok ds'
     \<and> (\<exists>rows. db' = fold files_upsert rows db \<and> list_all scanned_row rows
          \<and> image_mset row_key (mset rows) + image_mset (file_key x) (mset (pending_files ds'))
              = image_mset (file_key x) (mset files + mset (pending_files ds))
          \<and> unat (sc_files_seen s') = min (unat (sc_files_seen s) + length rows) (2 ^ 64 - 1)
          \<and> unat (sc_bytes_seen s')
              = min (unat (sc_bytes_seen s) + sum_list (map (nat \<circ> fr_size_bytes) rows)) (2 ^ 64 - 1))"

lemma walked_trans:
  assumes "walked x f1 ds s db ds1 s1 db1" and "walked x f2 ds1 s1 db1 ds2 s2 db2"
  shows "walked x (f1 @ f2) ds s db ds2 s2 db2"
proof -
  from assms(1) obtain r1 where r1: "db1 = fold files_upsert r1 db" "list_all scanned_row r1"
    "image_mset row_key (mset r1) + image_mset (file_key x) (mset (pending_files ds1))
       = image_mset (file_key x) (mset f1 + mset (pending_files ds))"
    "unat (sc_files_seen s1) = min (unat (sc_files_seen s) + length r1) (2 ^ 64 - 1)"
    "unat (sc_bytes_seen s1) = min (unat (sc_bytes_seen s)
       + sum_list (map (nat \<circ> fr_size_bytes) r1)) (2 ^ 64 - 1)"
    by (auto simp: walked_def)
  from assms(2) obtain r2 where r2: "pending_ok ds2" "db2 = fold files_upsert r2 db1" "list_all scanned_row r2"
    "image_mset row_key (mset r2) + image_mset (file_key x) (mset (pending_files ds2))
       = image_mset (file_key x) (mset f2 + mset (pending_files ds1))"
    "unat (sc_files_seen s2) = min (unat (sc_files_seen s1) + length r2) (2 ^ 64 - 1)"
    "unat (sc_bytes_seen s2) = min (unat (sc_bytes_seen s1)
       + sum_list (map (nat \<circ> fr_size_bytes) r2)) (2 ^ 64 - 1)"
    by (auto simp: walked_def)
  have "image_mset row_key (mset (r1 @ r2)) + image_mset (file_key x) (mset (pending_files ds2))
      = image_mset row_key (mset r1) + image_mset (file_key x) (mset f2 + mset (pending_files ds1))"
    using r2(4) by (simp add: add.assoc)
  also have "\<dots> = image_mset (file_key x) (mset (f1 @ f2) + mset (pending_files ds))"
    using r1(3) by (simp add: ac_simps)
  finally have m: "image_mset row_key (mset (r1 @ r2)) + image_mset (file_key x) (mset (pending_files ds2))
      = image_mset (file_key x) (mset (f1 @ f2) + mset (pending_files ds))" .
  have "db2 = fold files_upsert (r1 @ r2) db" "list_all scanned_row (r1 @ r2)"
    using r1 r2 by simp_all
  moreover have "unat (sc_files_seen s2) = min (unat (sc_files_seen s) + length (r1 @ r2)) (2 ^ 64 - 1)"
    using r1(4) r2(5) by simp
  moreover have "unat (sc_bytes_seen s2) = min (unat (sc_bytes_seen s)
       + sum_list (map (nat \<circ> fr_size_bytes) (r1 @ r2))) (2 ^ 64 - 1)"
    using r1(5) r2(6) by simp
  ultimately show ?thesis
    using m r2(1) unfolding walked_def by blast
qed

lemma walked_still:
  assumes "pending_ok ds'" and "pending_files ds' = files @ pending_files ds"
    and "sc_files_seen s' = sc_files_seen s" and "sc_bytes_seen s' = sc_bytes_seen s"
  shows "walked x files ds s db ds' s' db"
  using assms unat_u64_lt [of "sc_files_seen s"] unat_u64_lt [of "sc_bytes_seen s"]
  unfolding walked_def by (intro conjI exI [of _ "[]"]) simp_all

lemma file_row_of_scanned:
  assumes "file_row_of_entry x now (scanned_entry x d sc p m bytes) = Inr row"
  shows "scanned_row row" and "nat (fr_size_bytes row) = unat (len_u64 bytes)"
    and "row_key row = (path_str p, ''file'', uint (len_u64 bytes), Some (blake3_hex x bytes))"
  using assms file_row_of_entry_check [OF assms]
  by (auto simp: scanned_row_def scanned_entry_def file_row_of_entry_def Let_def row_key_def
      content_hash_from_bytes_def and_then_Inr_iff i64_of_u64_Some_iff nat_uint_eq)

lemma scan_node_walked:
  assumes "scan_node x clock sc (below root ns) p node (stack_of root ds) s db = (Inr (stack', s'), db')"
    and "relative_path_parse (join_with CHR ''/'' ns) = Inr p"
    and "list_all plain_name ns" and "node_named node" and "pending_ok ds"
  shows "\<exists>ds'. stack' = stack_of root ds' \<and> walked x (node_contents ns node) ds s db ds' s' db'"
proof (cases node)
  case (FileNode m bytes)
  let ?e = "scanned_entry x (fst (clock (below root ns))) sc p m bytes"
  from assms(1) FileNode obtain row where
    row: "file_row_of_entry x (snd (clock (below root ns))) ?e = Inr row"
    and out: "stack' = stack_of root ds" "db' = files_upsert row db"
      "s' = s\<lparr>sc_files_seen := saturating_add (sc_files_seen s) 1,
              sc_bytes_seen := saturating_add (sc_bytes_seen s) (len_u64 bytes)\<rparr>"
    by (cases "file_row_of_entry x (snd (clock (below root ns))) ?e")
      (auto simp: bind_op_apply upsert_file_def)
  have "walked x (node_contents ns node) ds s db ds s' db'"
    unfolding walked_def using assms out FileNode file_row_of_scanned [OF row]
    by (intro conjI exI [of _ "[row]"]) (simp_all add: file_key_def indexed_path_def u64_simps)
  with out show ?thesis by auto
next
  case (DirNode items)
  with assms show ?thesis
    by (intro exI [of _ "(ns, node) # ds"])
      (auto simp: stack_of_def pending_ok_def pending_files_def dir_files_def intro!: walked_still)
next
  case (UnreadableDir msg)
  with assms show ?thesis
    by (intro exI [of _ "(ns, node) # ds"])
      (auto simp: stack_of_def pending_ok_def pending_files_def dir_files_def intro!: walked_still)
next
  case OtherNode
  with assms show ?thesis
    by (intro exI [of _ ds]) (auto intro!: walked_still)
qed (use assms in auto)

lemma scan_entry_walked:
  assumes "scan_entry x clock sc (below (sn_root sc) ns) item (stack_of (sn_root sc) ds) s db = (Inr (stack', s'), db')"
    and "list_all plain_name ns" and "item_named item" and "pending_ok ds"
  shows "\<exists>ds'. stack' = stack_of (sn_root sc) ds' \<and> walked x (item_contents ns item) ds s db ds' s' db'"
proof (cases item)
  case (DirItem name node)
  with assms(3) have name: "plain_name name" "node_named node" by simp_all
  show ?thesis
  proof (cases "hd (ns @ [name]) = syncer_dir_name")
    case True
    with DirItem assms name show ?thesis
      by (intro exI [of _ ds])
        (auto simp: Let_def raw_relative_path_below in_syncer_dir_join intro!: walked_still)
  next
    case False
    with DirItem assms(1,2) name obtain p where
      p: "relative_path_parse (join_with CHR ''/'' (ns @ [name])) = Inr p"
      and "scan_node x clock sc (below (sn_root sc) (ns @ [name])) p node (stack_of (sn_root sc) ds) s db
             = (Inr (stack', s'), db')"
      by (cases "relative_path_parse (join_with CHR ''/'' (ns @ [name]))")
        (simp_all add: Let_def raw_relative_path_below in_syncer_dir_join)
    from scan_node_walked [OF this(2) p] assms(2,4) name False DirItem show ?thesis by simp
  qed
next
  case (MetadataError name msg)
  with assms show ?thesis
    by (intro exI [of _ ds]) 
      (auto simp: Let_def raw_relative_path_below in_syncer_dir_join bind_op_apply
        split: if_splits sum.splits intro!: walked_still)
qed (use assms in auto)

lemma scan_entries_walked:
  assumes "scan_entries x clock sc (below (sn_root sc) ns) items (stack_of (sn_root sc) ds) s db = (Inr (stack', s'), db')"
    and "list_all plain_name ns" and "list_all item_named items" and "pending_ok ds"
  shows "\<exists>ds'. stack' = stack_of (sn_root sc) ds'
           \<and> walked x (concat (map (item_contents ns) items)) ds s db ds' s' db'"
  using assms
proof (induction items arbitrary: ds s db)
  case Nil
  then show ?case by (intro exI [of _ ds]) (auto intro!: walked_still)
next
  case (Cons item items)
  let ?st = "stack_of (sn_root sc)" and ?dir = "below (sn_root sc) ns"
  from Cons.prems(1) obtain st1 s1 db1 where
    1: "scan_entry x clock sc ?dir item (?st ds) s db = (Inr (st1, s1), db1)"
    and 2: "scan_entries x clock sc ?dir items st1 s1 db1 = (Inr (stack', s'), db')"
    by (auto simp: bind_op_def split: prod.splits sum.splits)
  from scan_entry_walked [OF 1] Cons.prems obtain ds1 where
    ds1: "st1 = ?st ds1" "walked x (item_contents ns item) ds s db ds1 s1 db1" by auto
  with Cons.IH [of ds1 s1 db1] 2 Cons.prems obtain ds2 where
    "stack' = ?st ds2" "walked x (concat (map (item_contents ns) items)) ds1 s1 db1 ds2 s' db'"
    by (auto simp: walked_def)
  with ds1 show ?case by (auto dest: walked_trans)
qed

lemma scan_directories_walked:
  assumes "scan_directories x clock sc (stack_of (sn_root sc) ds) s db = (Inr s', db')"
    and "pending_ok ds"
  shows "walked x [] ds s db [] s' db'"
  using assms
proof (induction "stack_of (sn_root sc) ds" s db arbitrary: ds rule: scan_directories.induct)
  case (1 x clock sc s db)
  then have "ds = []" by (simp add: stack_of_def)
  with 1 show ?case by (auto simp: pending_ok_def intro!: walked_still)
next
  case (2 x clock sc dir node stack s db)
  then obtain ns rest where ds: "ds = (ns, node) # rest" "dir = below (sn_root sc) ns"
    "stack = stack_of (sn_root sc) rest"
    by (cases ds) (auto simp: stack_of_def)
  with 2 have ok: "list_all plain_name ns" "node_named node" "pending_ok rest"
    by (auto simp: pending_ok_def)
  from 2(2,3) have "scan_directories x clock sc ((dir, node) # stack) s db = (Inr s', db')" by simp
  then obtain items st1 s1 db1 where items: "read_dir node = Inr items"
    and es: "scan_entries x clock sc dir items stack s db = (Inr (st1, s1), db1)"
    and next_dirs: "scan_directories x clock sc st1 s1 db1 = (Inr s', db')"
    by (auto split: sum.splits prod.splits)
  from items ok have "list_all item_named items" by (simp add: read_dir_Inr)
  with scan_entries_walked [OF es [unfolded ds]] ok obtain ds1 where
    ds1: "st1 = stack_of (sn_root sc) ds1"
      "walked x (concat (map (item_contents ns) items)) rest s db ds1 s1 db1" by auto
  then have "walked x [] ds1 s1 db1 [] s' db'"
    using 2(1) [OF items es [symmetric] refl] next_dirs by (auto simp: walked_def)
  with ds1(2) have "walked x (concat (map (item_contents ns) items)) rest s db [] s' db'"
    using walked_trans by fastforce
  moreover have "pending_files ds = concat (map (item_contents ns) items) @ pending_files rest"
    using ds items by (simp add: pending_files_def dir_files_def)
  ultimately show ?case by (simp add: walked_def)
qed

subsection \<open>Whatever happens, the walk only upserts\<close>

definition only_upserts :: "state_database \<Rightarrow> state_database \<Rightarrow> bool" where
  "only_upserts db db' \<longleftrightarrow>
     (\<exists>rows. db' = fold files_upsert rows db
        \<and> list_all (\<lambda>row. scanned_row row \<and> files_check row) rows)"

lemma only_upserts_refl [simp, intro]: "only_upserts db db"
  unfolding only_upserts_def by (intro exI [of _ "[]"]) simp

lemma only_upserts_trans:
  "only_upserts db db1 \<Longrightarrow> only_upserts db1 db2 \<Longrightarrow> only_upserts db db2"
  unfolding only_upserts_def
proof (elim exE conjE)
  fix r1 r2 :: "file_row list"
  let ?ok = "list_all (\<lambda>row. scanned_row row \<and> files_check row)"
  assume "db1 = fold files_upsert r1 db" "?ok r1" "db2 = fold files_upsert r2 db1" "?ok r2"
  then have "db2 = fold files_upsert (r1 @ r2) db \<and> ?ok (r1 @ r2)" by simp
  then show "\<exists>rows. db2 = fold files_upsert rows db \<and> ?ok rows" by blast
qed

lemma scan_node_upserts: "only_upserts db (snd (scan_node x clock sc path p node stack s db))"
proof (cases node)
  case (FileNode m bytes)
  let ?r = "file_row_of_entry x (snd (clock path)) (scanned_entry x (fst (clock path)) sc p m bytes)"
  show ?thesis
  proof (cases ?r)
    case (Inl e)
    with FileNode show ?thesis by (simp add: bind_op_apply upsert_file_def)
  next
    case (Inr row)
    then have "scanned_row row" "files_check row"
      by (auto dest: file_row_of_entry_check file_row_of_scanned(1))
    with Inr FileNode show ?thesis
      by (auto simp: bind_op_apply upsert_file_def only_upserts_def intro: exI [of _ "[row]"])
  qed
qed simp_all

lemma scan_entry_upserts: "only_upserts db (snd (scan_entry x clock sc dir item stack s db))"
  by (cases item) (auto simp: Let_def bind_op_apply scan_node_upserts split: sum.split)

lemma scan_entries_upserts: "only_upserts db (snd (scan_entries x clock sc dir items stack s db))"
proof (induction items arbitrary: stack s db)
  case Nil
  then show ?case by simp
next
  case (Cons item items)
  have "only_upserts db (snd (scan_entry x clock sc dir item stack s db))"
    by (rule scan_entry_upserts)
  then show ?case
    by (auto simp: bind_op_apply split: sum.split intro: only_upserts_trans [OF _ Cons.IH])
qed

lemma scan_directories_upserts: "only_upserts db (snd (scan_directories x clock sc stack s db))"
proof (induction x clock sc stack s db rule: scan_directories.induct)
  case (1 x clock sc s db)
  then show ?case by simp
next
  case (2 x clock sc dir node stack s db)
  show ?case
  proof (cases "read_dir node")
    case (Inl msg)
    then show ?thesis by simp
  next
    case (Inr items)
    obtain out db1 where es: "scan_entries x clock sc dir items stack s db = (out, db1)"
      by fastforce
    then have first: "only_upserts db db1"
      using scan_entries_upserts [of db x clock sc dir items stack s] by simp
    show ?thesis
    proof (cases out)
      case (Inl e)
      with Inr es first show ?thesis by simp
    next
      case out: (Inr p)
      obtain stack1 s1 where p: "p = (stack1, s1)" by fastforce
      from 2 [OF Inr es [symmetric] out] p have
        "only_upserts db1 (snd (scan_directories x clock sc stack1 s1 db1))" by simp
      with Inr es out p first show ?thesis by (auto intro: only_upserts_trans)
    qed
  qed
qed

lemma only_upserts_status:
  assumes "only_upserts db db'"
  shows "file_status db' k = file_status db k \<or> file_status db' k = Some ''local_available''"
proof -
  from assms obtain rows where "db' = fold files_upsert rows db" "list_all scanned_row rows"
    by (auto simp: only_upserts_def list_all_iff)
  then show ?thesis by (simp add: index_scan.status_observe_all)
qed

subsection \<open>A readable tree is scanned to the end\<close>

fun node_ok :: "string list \<Rightarrow> fs_node \<Rightarrow> bool" and item_ok :: "string list \<Rightarrow> dir_item \<Rightarrow> bool" where
  "node_ok ns (FileNode modified bytes) \<longleftrightarrow> length bytes < 2 ^ 63"
| "node_ok ns (DirNode items) = list_all (item_ok ns) items"
| "node_ok ns OtherNode = True"
| "node_ok ns _ = False"
| "item_ok ns (DirItem name node) \<longleftrightarrow> plain_name name \<and>
     (hd (ns @ [name]) = syncer_dir_name
      \<or> is_ok (relative_path_parse (join_with CHR ''/'' (ns @ [name]))) \<and> node_ok (ns @ [name]) node)"
| "item_ok ns (MetadataError name msg) \<longleftrightarrow> plain_name name \<and> hd (ns @ [name]) = syncer_dir_name"
| "item_ok ns _ = False"

definition pending_scannable :: "pending_dirs \<Rightarrow> bool" where
  "pending_scannable ds \<longleftrightarrow>
     list_all (\<lambda>(ns, node). list_all plain_name ns \<and> (\<exists>items. node = DirNode items \<and> list_all (item_ok ns) items)) ds"

lemma scan_node_succeeds:
  assumes "node_ok ns node" and "pending_scannable ds" and "list_all plain_name ns"
    and "is_ok (block_hashes_json x [])"
  shows "\<exists>ds' s' db'. scan_node x clock sc (below root ns) p node (stack_of root ds) s db
           = (Inr (stack_of root ds', s'), db') \<and> pending_scannable ds'"
proof (cases node)
  case (FileNode m bytes)
  with assms(1) have "uint (len_u64 bytes) < 2 ^ 63"
    by (simp add: len_u64_def uint_nat unat_of_nat)
  with assms(4) FileNode assms(2) show ?thesis
    by (auto simp: bind_op_apply upsert_file_def file_row_of_entry_def Let_def scanned_entry_def
        is_ok_iff i64_of_u64_def)
next
  case (DirNode items)
  with assms have "pending_scannable ((ns, node) # ds)" by (simp add: pending_scannable_def)
  with DirNode show ?thesis
    by (intro exI [of _ "(ns, node) # ds"]) (auto simp: stack_of_def)
qed (use assms in auto)

lemma scan_entry_succeeds:
  assumes "item_ok ns item" and "pending_scannable ds" and "list_all plain_name ns"
    and "is_ok (block_hashes_json x [])"
  shows "\<exists>ds' s' db'. scan_entry x clock sc (below (sn_root sc) ns) item (stack_of (sn_root sc) ds) s db
           = (Inr (stack_of (sn_root sc) ds', s'), db') \<and> pending_scannable ds'"
proof (cases item)
  case (DirItem name node)
  with assms(1) have name: "plain_name name" by simp
  show ?thesis
  proof (cases "hd (ns @ [name]) = syncer_dir_name")
    case True
    with DirItem name assms show ?thesis
      by (auto simp: Let_def raw_relative_path_below in_syncer_dir_join)
  next
    case False
    with DirItem assms(1) obtain p where
      "relative_path_parse (join_with CHR ''/'' (ns @ [name])) = Inr p" "node_ok (ns @ [name]) node"
      by (auto simp: is_ok_iff)
    with scan_node_succeeds [of "ns @ [name]" node ds x clock sc "sn_root sc" p s db]
      DirItem name assms False
    show ?thesis by (simp add: Let_def raw_relative_path_below in_syncer_dir_join)
  qed
next
  case (MetadataError name msg)
  with assms show ?thesis
    by (auto simp: Let_def raw_relative_path_below in_syncer_dir_join)
qed (use assms in auto)

lemma scan_entries_succeeds:
  assumes "list_all (item_ok ns) items" and "pending_scannable ds" and "list_all plain_name ns"
    and "is_ok (block_hashes_json x [])"
  shows "\<exists>ds' s' db'. scan_entries x clock sc (below (sn_root sc) ns) items (stack_of (sn_root sc) ds) s db
           = (Inr (stack_of (sn_root sc) ds', s'), db') \<and> pending_scannable ds'"
  using assms
proof (induction items arbitrary: ds s db)
  case Nil
  then show ?case by auto
next
  case (Cons item items)
  from scan_entry_succeeds [of ns item ds x clock sc s db] Cons.prems obtain ds1 s1 db1 where
    "scan_entry x clock sc (below (sn_root sc) ns) item (stack_of (sn_root sc) ds) s db
       = (Inr (stack_of (sn_root sc) ds1, s1), db1)" "pending_scannable ds1"
    by auto
  with Cons.IH [of ds1 s1 db1] Cons.prems show ?case by (simp add: bind_op_apply)
qed

lemma scan_directories_succeeds:
  assumes "pending_scannable ds" and "is_ok (block_hashes_json x [])"
  shows "\<exists>s'. fst (scan_directories x clock sc (stack_of (sn_root sc) ds) s db) = Inr s'"
  using assms
proof (induction x clock sc "stack_of (sn_root sc) ds" s db arbitrary: ds rule: scan_directories.induct)
  case (1 x clock sc s db)
  then show ?case by (metis fst_conv scan_directories.simps(1))
next
  case (2 x clock sc dir node stack s db)
  then obtain ns rest items where ds: "ds = (ns, node) # rest" "dir = below (sn_root sc) ns"
    "stack = stack_of (sn_root sc) rest" "node = DirNode items"
    "list_all (item_ok ns) items" "list_all plain_name ns" "pending_scannable rest"
    by (cases ds) (auto simp: stack_of_def pending_scannable_def)
  then obtain ds1 s1 db1 where es:
    "scan_entries x clock sc dir items stack s db = (Inr (stack_of (sn_root sc) ds1, s1), db1)"
    "pending_scannable ds1"
    using scan_entries_succeeds 2 by metis
  have "read_dir node = Inr items" using ds by simp
  from 2(1) [OF this es(1) [symmetric] refl refl es(2)] 2(4)
  show ?case using ds(4) es(1) by (simp flip: 2(2))
qed

section \<open>The result of a scan\<close>

lemma indexed_path_stable:
  assumes "safe_names ns" and "trim (join_with CHR ''/'' ns) = join_with CHR ''/'' ns"
  shows "indexed_path ns = join_with CHR ''/'' ns"
  using assms relative_path_parse_normal [OF safe_path_join [OF assms(1)]]
  by (simp add: indexed_path_def)

lemma stack_of_root: "[(sn_root sc, root_node)] = stack_of (sn_root sc) [([], root_node)]"
  by (simp add: stack_of_def)

lemma scan_into_Inr:
  assumes "scan_into x clock now sc root_node db = (Inr s, db')" and "node_named root_node"
  obtains rows missing where
    "db' = finalize_scan now (fold files_upsert rows (mark_scan_started db))"
    "list_all scanned_row rows"
    "image_mset row_key (mset rows) = image_mset (file_key x) (mset (node_contents [] root_node))"
    "image_mset fr_path (mset rows) = image_mset indexed_path (mset (node_files [] root_node))"
    "unat (sc_files_seen s) = min (length rows) (2 ^ 64 - 1)"
    "list_missing_after_scan x db' = Inr missing" "sc_local_missing s = len_u64 missing"
proof -
  let ?db1 = "mark_scan_started db"
  from assms(1) obtain s1 db2 missing where
    walk: "scan_directories x clock sc (stack_of (sn_root sc) [([], root_node)])
       default_scan_summary ?db1 = (Inr s1, db2)"
    and db': "db' = finalize_scan now db2" and m: "list_missing_after_scan x db' = Inr missing"
    and s: "s = s1\<lparr>sc_local_missing := len_u64 missing\<rparr>"
    by (auto simp: scan_into_def bind_op_apply stack_of_root split: sum.splits)
      (metis prod.collapse)
  then obtain items where "root_node = DirNode items"
    by (cases root_node) (auto simp: stack_of_def)
  then have "pending_files [([], root_node)] = node_contents [] root_node"
    by (simp add: pending_files_def dir_files_def)
  moreover have "walked x [] [([], root_node)] default_scan_summary ?db1 [] s1 db2"
    using walk assms(2) by (intro scan_directories_walked) (simp_all add: pending_ok_def)
  ultimately obtain rows where "db2 = fold files_upsert rows ?db1" "list_all scanned_row rows"
    "image_mset row_key (mset rows) = image_mset (file_key x) (mset (node_contents [] root_node))"
    "unat (sc_files_seen s1) = min (length rows) (2 ^ 64 - 1)"
    by (auto simp: walked_def pending_files_def default_scan_summary_def)
  moreover from this(3) have "image_mset fst (image_mset row_key (mset rows))
      = image_mset fst (image_mset (file_key x) (mset (node_contents [] root_node)))" by simp
  then have "image_mset fr_path (mset rows)
      = image_mset indexed_path (mset (map fst (node_contents [] root_node)))"
    by (simp add: multiset.map_comp comp_def row_key_def file_key_def)
  ultimately show ?thesis using db' m s by (intro that) (simp_all add: map_fst_contents)
qed

lemma scan_into_rows:
  assumes "image_mset fr_path (mset rows) = image_mset f (mset xs)"
  shows "fr_path ` set rows = f ` set xs" and "length rows = length xs"
  using arg_cong [OF assms, of set_mset] arg_cong [OF assms, of size] by simp_all

text \<open>How many rows are missing after a scan.\<close>

lemma list_missing_length:
  assumes "list_missing_after_scan x db = Inr missing"
  shows "length missing = length (filter (\<lambda>r. fr_sync_state r = ''unsynchronized_local_missing'') (db_files db))"
  using collect_results_length [OF assms [unfolded list_missing_after_scan_def]] by simp

lemma scan_into_fails:
  assumes "fst (scan_into x clock now sc root_node db) = Inl e"
  shows "only_upserts (mark_scan_started db) (snd (scan_into x clock now sc root_node db))
    \<or> list_missing_after_scan x (snd (scan_into x clock now sc root_node db)) = Inl e"
  using assms
    scan_directories_upserts [of "mark_scan_started db" x clock sc "[(sn_root sc, root_node)]" default_scan_summary]
  by (auto simp: scan_into_def bind_op_apply split: sum.splits)

lemma database_ok_files_upsert: "files_check row \<Longrightarrow> database_ok db \<Longrightarrow> database_ok (files_upsert row db)"
  by (simp add: database_ok_def files_upsert_def files_ok_upsert)

lemma database_ok_fold_upsert:
  "list_all files_check rows \<Longrightarrow> database_ok db \<Longrightarrow> database_ok (fold files_upsert rows db)"
  by (induction rows arbitrary: db) (simp_all add: database_ok_files_upsert)

lemma only_upserts_ok: "only_upserts db db' \<Longrightarrow> database_ok db \<Longrightarrow> database_ok db'"
  by (auto simp: only_upserts_def list.pred_mono_strong intro: database_ok_fold_upsert)

lemma scan_into_walk_Inr:
  assumes "node_ok [] (DirNode items)" and "is_ok (block_hashes_json x [])"
  shows "\<exists>s1 db2. scan_directories x clock sc [(sn_root sc, DirNode items)] s db = (Inr s1, db2)"
proof -
  have "pending_scannable [([], DirNode items)]"
    using assms(1) by (simp add: pending_scannable_def)
  from scan_directories_succeeds [OF this assms(2), of clock sc s db]
  show ?thesis by (metis stack_of_root prod.collapse)
qed

subsection \<open>Readable rows stay readable\<close>

text \<open>Every row is one the scan wrote or can be decoded.\<close>

definition scanned_or_readable :: "'x externals_scheme \<Rightarrow> file_row \<Rightarrow> bool" where
  "scanned_or_readable x r \<longleftrightarrow> scanned_row r \<or> file_row_readable x r"

lemma readable_mark:
  "list_all (file_row_readable x) (db_files db) \<Longrightarrow>
     list_all (scanned_or_readable x) (db_files (mark_scan_started db))"
  by (auto simp: list_all_iff mark_scan_started_def table_simps scanned_or_readable_def
      file_row_readable_def files_check_def)

lemma readable_upserts:
  "list_all scanned_row rows \<Longrightarrow> list_all (scanned_or_readable x) (db_files db) \<Longrightarrow>
     list_all (scanned_or_readable x) (db_files (fold files_upsert rows db))"
proof (induction rows arbitrary: db)
  case (Cons row rows)
  have "scanned_or_readable x row" "scanned_or_readable x (files_merge old row)" for old
    using Cons.prems(1) by (simp_all add: scanned_or_readable_def scanned_row_def files_merge_def)
  with Cons.prems(2) have "list_all (scanned_or_readable x) (db_files (files_upsert row db))"
    using files_table.upsert_list_all [of "scanned_or_readable x" "db_files db" row]
    by (simp add: files_upsert_def)
  with Cons show ?case by simp
qed simp

lemma readable_finalized_row:
  "scanned_or_readable x r \<Longrightarrow> fr_scan_missing r = 1 \<Longrightarrow> scanned_or_readable x
     (r\<lparr>fr_sync_state := ''unsynchronized_local_missing'', fr_updated_at_unix := now\<rparr>)"
  by (simp add: scanned_or_readable_def scanned_row_def file_row_readable_def files_check_def)

lemma readable_finalize:
  "list_all (scanned_or_readable x) (db_files db) \<Longrightarrow>
     list_all (scanned_or_readable x) (db_files (finalize_scan now db))"
  by (auto simp: list_all_iff finalize_scan_def table_simps intro: readable_finalized_row)

lemma list_missing_ok:
  assumes "list_all (scanned_or_readable x) (db_files db)"
  shows "\<exists>missing. list_missing_after_scan x db = Inr missing"
proof -
  have "\<forall>r \<in> set (filter (\<lambda>r. fr_sync_state r = ''unsynchronized_local_missing'') (db_files db)).
      \<exists>rec. row_to_file_record x r = Inr rec"
    using assms by (auto simp: list_all_iff scanned_or_readable_def scanned_row_def
        dest!: bspec intro: row_to_file_record_ok)
  then show ?thesis unfolding list_missing_after_scan_def by (intro collect_results_ex) simp
qed

text \<open>A row found after the walk carries what the walk saw, or was there before and was not seen.\<close>

lemma row_key_merge: "fr_path old = fr_path new \<Longrightarrow> row_key (files_merge old new) = row_key new"
  by (simp add: row_key_def files_merge_def)

lemma find_after_upserts:
  assumes "list_all scanned_row rows" and "find_row fr_path k (db_files (fold files_upsert rows db)) = Some r"
  shows "(\<exists>row \<in> set rows. row_key r = row_key row) \<or> find_row fr_path k (db_files db) = Some r"
  using assms
proof (induction rows arbitrary: db)
  case Nil
  then show ?case by simp
next
  case (Cons row rows)
  then consider "\<exists>row' \<in> set rows. row_key r = row_key row'"
    | "find_row fr_path k (db_files (files_upsert row db)) = Some r"
    by fastforce
  then show ?case
  proof cases
    case 2
    have "row_key r = row_key row \<or> find_row fr_path k (db_files db) = Some r"
      using 2 Cons.prems(1)
      by (auto simp: find_files_upsert row_key_merge split: if_splits option.splits dest!: find_row_key)
    then show ?thesis by auto
  qed auto
qed

text \<open>The available rows after a scan are the files the scan read.\<close>

lemma available_row_was_read:
  assumes "scan_into x clock now sc root_node db = (Inr s, db')" and "node_named root_node"
    and "find_row fr_path path (db_files db') = Some r" and "fr_sync_state r = ''local_available''"
  shows "\<exists>f \<in> set (node_contents [] root_node). row_key r = file_key x f"
proof -
  from assms(1,2) obtain rows where
    db': "db' = finalize_scan now (fold files_upsert rows (mark_scan_started db))"
    and rows: "list_all scanned_row rows"
      "image_mset row_key (mset rows) = image_mset (file_key x) (mset (node_contents [] root_node))"
    by (rule scan_into_Inr)
  let ?mid = "fold files_upsert rows (mark_scan_started db)"
  from assms(3) obtain r0 where r0: "find_row fr_path path (db_files ?mid) = Some r0"
    "r = (if fr_scan_missing r0 = 1
      then r0\<lparr>fr_sync_state := ''unsynchronized_local_missing'', fr_updated_at_unix := now\<rparr> else r0)"
    by (auto simp: db' finalize_scan_def find_row_update_where)
  with assms(4) have r: "find_row fr_path path (db_files ?mid) = Some r" "fr_scan_missing r \<noteq> 1"
    by (auto split: if_splits)
  have "find_row fr_path path (db_files (mark_scan_started db)) \<noteq> Some r"
    using r(2) assms(4) by (auto simp: mark_scan_started_def find_row_update_where split: if_splits)
  with find_after_upserts [OF rows(1) r(1)] obtain row where "row \<in> set rows" "row_key r = row_key row" by auto
  moreover have "row_key ` set rows = file_key x ` set (node_contents [] root_node)"
    using arg_cong [OF rows(2), of set_mset] by simp
  ultimately show ?thesis by (metis imageE image_eqI)
qed

section \<open>Properties\<close>

text \<open>
  C15: After a scan that succeeded, a path is available exactly if a file on disk outside
  \<open>.syncer\<close> normalises to it; every other path of the index is marked missing, except one
  that was skipped for the folder limit, and no path appears from elsewhere.
\<close>

theorem scan_reports_disk:
  assumes "scan_into x clock now sc root_node db = (Inr s, db')" and "node_named root_node"
  shows "file_status db' path =
    (if path \<in> indexed_path ` set (node_files [] root_node) then Some ''local_available''
     else map_option (\<lambda>v. if v = ''skipped_folder_limit'' \<and> \<not> file_flagged db path
                           then v else ''unsynchronized_local_missing'') (file_status db path))"
proof -
  from assms obtain rows where
    "db' = finalize_scan now (fold files_upsert rows (mark_scan_started db))"
    "list_all scanned_row rows"
    "image_mset fr_path (mset rows) = image_mset indexed_path (mset (node_files [] root_node))"
    by (rule scan_into_Inr)
  then show ?thesis
    using index_scan.status_after_scan [of rows now db path] by (simp add: scan_into_rows(1))
qed

text \<open>
  The summary of a successful scan counts the files on disk exactly, and its number of
  missing files is the number of rows the index now has as missing.
\<close>

theorem scan_counts:
  assumes "scan_into x clock now sc root_node db = (Inr s, db')" and "node_named root_node"
    and "length (node_files [] root_node) < 2 ^ 64" and "length (db_files db') < 2 ^ 64"
  shows "unat (sc_files_seen s) = length (node_files [] root_node)
    \<and> unat (sc_local_missing s)
        = length (filter (\<lambda>r. fr_sync_state r = ''unsynchronized_local_missing'') (db_files db'))"
proof -
  from assms(1,2) obtain rows missing where r:
    "db' = finalize_scan now (fold files_upsert rows (mark_scan_started db))"
    "list_all scanned_row rows"
    "image_mset fr_path (mset rows) = image_mset indexed_path (mset (node_files [] root_node))"
    "unat (sc_files_seen s) = min (length rows) (2 ^ 64 - 1)"
    "list_missing_after_scan x db' = Inr missing" "sc_local_missing s = len_u64 missing"
    by (rule scan_into_Inr)
  note len = list_missing_length [OF r(5)]
  have "length missing < 2 ^ 64"
    unfolding len by (rule order_le_less_trans [OF length_filter_le assms(4)])
  then have "unat (sc_local_missing s) = length missing"
    unfolding r(6) by (rule unat_len_u64)
  moreover have "unat (sc_files_seen s) = length (node_files [] root_node)"
    using r(4) assms(3) unfolding scan_into_rows(2) [OF r(3)] by simp
  ultimately show ?thesis unfolding len by simp
qed

text \<open>
  C36: A scan of a tree in which every entry can be read, every path is accepted and every
  file fits \<open>i64\<close> succeeds, whatever the shape and depth of the tree, provided the index
  could be read before.
\<close>

theorem scan_completes:
  assumes "node_ok [] (DirNode items)" and "list_all (file_row_readable x) (db_files db)"
    and "is_ok (block_hashes_json x [])"
  shows "is_ok (fst (scan_into x clock now sc (DirNode items) db))"
proof -
  let ?scan = "scan_directories x clock sc (stack_of (sn_root sc) [([], DirNode items)])
    default_scan_summary (mark_scan_started db)"
  from scan_into_walk_Inr [OF assms(1,3)] obtain s1 db2 where w: "?scan = (Inr s1, db2)"
    by (metis stack_of_root)
  have "only_upserts (mark_scan_started db) db2"
    using scan_directories_upserts [of "mark_scan_started db" x clock sc
        "stack_of (sn_root sc) [([], DirNode items)]" default_scan_summary] w by simp
  then obtain rows where "db2 = fold files_upsert rows (mark_scan_started db)" "list_all scanned_row rows"
    by (auto simp: only_upserts_def list_all_iff)
  then have "list_all (scanned_or_readable x) (db_files (finalize_scan now db2))"
    using readable_mark [OF assms(2)] by (simp add: readable_upserts readable_finalize)
  then obtain missing where "list_missing_after_scan x (finalize_scan now db2) = Inr missing"
    by (blast dest: list_missing_ok)
  with w show ?thesis by (simp add: scan_into_def bind_op_apply stack_of_root)
qed

text \<open>
  C37: A scan whose walk fails, at whatever entry, reports no file as missing: the status of
  a path is what it was, or available because the file was seen. The index also keeps its
  constraints.
\<close>

theorem failed_scan_loses_nothing:
  assumes "fst (scan_into x clock now sc root_node db) = Inl e"
    and "list_missing_after_scan x (snd (scan_into x clock now sc root_node db)) \<noteq> Inl e"
    and "database_ok db"
  shows "(file_status (snd (scan_into x clock now sc root_node db)) path = file_status db path
      \<or> file_status (snd (scan_into x clock now sc root_node db)) path = Some ''local_available'')
    \<and> database_ok (snd (scan_into x clock now sc root_node db))"
proof -
  have "only_upserts (mark_scan_started db) (snd (scan_into x clock now sc root_node db))"
    using scan_into_fails [OF assms(1)] assms(2) by simp
  with only_upserts_status [OF this] only_upserts_ok [OF this] assms(3) show ?thesis
    by (simp add: index_scan.status_mark database_ok_files_statements)
qed

subsection \<open>A scan evaluated\<close>

text \<open>
  A folder with a metadata directory, a file in the root, one in a subdirectory and a
  symbolic link, scanned over an index that knows a file that is gone.
\<close>

definition sample_items :: "dir_item list" where
  "sample_items = [DirItem ''.syncer'' (DirNode [DirItem ''state.db'' (FileNode None ''x'')]),
     DirItem ''a'' (FileNode (Some 5) ''hi''), DirItem ''link'' OtherNode,
     DirItem ''s'' (DirNode [DirItem ''b'' (FileNode None ''yo'')])]"

definition sample_index :: state_database where
  "sample_index = empty_database\<lparr>db_files := [sample_file_row ''old'' ''local_available'' 4]\<rparr>"

definition sample_scan :: "(core_error + scan_summary) \<times> state_database" where
  "sample_scan = scan_into sample_externals (\<lambda>_. (3, 4)) 9
     \<lparr>sn_root = ''/d'', sn_device_id = DeviceId ''dev''\<rparr> (DirNode sample_items) sample_index"

lemma sample_scan_ok: "\<exists>s db'. sample_scan = (Inr s, db')"
proof -
  have "is_ok (fst sample_scan)" by code_simp
  then show ?thesis by (metis is_ok_iff prod.collapse)
qed

theorem scan_reports_disk_witness:
  "\<exists>s db'. sample_scan = (Inr s, db')
     \<and> file_status db' ''old'' = Some ''unsynchronized_local_missing''
     \<and> file_status db' ''s/b'' = Some ''local_available'' \<and> file_status db' ''.syncer/state.db'' = None"
proof -
  obtain s db' where r: "sample_scan = (Inr s, db')" using sample_scan_ok by blast
  have "node_named (DirNode sample_items)" by code_simp
  note t = scan_reports_disk [OF r [unfolded sample_scan_def] this]
  have "''old'' \<notin> indexed_path ` set (node_files [] (DirNode sample_items))"
    "''s/b'' \<in> indexed_path ` set (node_files [] (DirNode sample_items))"
    "''.syncer/state.db'' \<notin> indexed_path ` set (node_files [] (DirNode sample_items))"
    "file_status sample_index ''old'' = Some ''local_available''"
    "file_status sample_index ''.syncer/state.db'' = None"
    by code_simp+
  with r t [of "''old''"] t [of "''s/b''"] t [of "''.syncer/state.db''"] show ?thesis
    by (intro exI [of _ s] exI [of _ db']) simp
qed

theorem scan_counts_witness:
  "\<exists>s db'. sample_scan = (Inr s, db') \<and> unat (sc_files_seen s) = 2 \<and> unat (sc_local_missing s) = 1"
proof -
  obtain s db' where r: "sample_scan = (Inr s, db')" using sample_scan_ok by blast
  have "node_named (DirNode sample_items)" by code_simp
  moreover have "length (node_files [] (DirNode sample_items)) = 2" by code_simp
  moreover have "length (db_files (snd sample_scan)) = 3" by code_simp
  moreover have "length (filter (\<lambda>r. fr_sync_state r = ''unsynchronized_local_missing'')
      (db_files (snd sample_scan))) = 1" by code_simp
  ultimately show ?thesis using scan_counts [OF r [unfolded sample_scan_def]]
    by (intro exI [of _ s] exI [of _ db']) (simp add: r)
qed

theorem scan_completes_witness: "is_ok (fst sample_scan)"
proof -
  have "relative_path_parse ''s/b'' = Inr (RelativePath ''s/b'')"
    "relative_path_parse ''link'' = Inr (RelativePath ''link'')"
    "relative_path_parse ''a'' = Inr (RelativePath ''a'')"
    "relative_path_parse ''s'' = Inr (RelativePath ''s'')" by code_simp+
  then have "node_ok [] (DirNode sample_items)"
    by (simp add: sample_items_def plain_name_def syncer_dir_name_def)
  moreover have "list_all (file_row_readable sample_externals) (db_files sample_index)"
    "is_ok (block_hashes_json sample_externals [])" by code_simp+
  ultimately show ?thesis unfolding sample_scan_def by (rule scan_completes)
qed

text \<open>The same walk over a folder whose second entry cannot be read.\<close>

definition sample_failed_scan :: "(core_error + scan_summary) \<times> state_database" where
  "sample_failed_scan = scan_into sample_externals (\<lambda>_. (3, 4)) 9
     \<lparr>sn_root = ''/d'', sn_device_id = DeviceId ''dev''\<rparr>
     (DirNode [DirItem ''a'' (FileNode None ''hi''), DirItem ''b'' (UnreadableFile ''denied'')])
     sample_index"

theorem failed_scan_loses_nothing_witness:
  "fst sample_failed_scan = Inl (Filesystem ''/d/b'' ''denied'')
   \<and> file_status (snd sample_failed_scan) ''old'' = Some ''local_available''
   \<and> database_ok (snd sample_failed_scan)"
proof -
  have e: "fst sample_failed_scan = Inl (Filesystem ''/d/b'' ''denied'')" by code_simp
  have "list_missing_after_scan sample_externals (snd sample_failed_scan)
      \<noteq> Inl (Filesystem ''/d/b'' ''denied'')" by code_simp
  moreover have "database_ok sample_index" by code_simp
  moreover have "file_status sample_index ''old'' = Some ''local_available''" by code_simp
  ultimately show ?thesis
    using failed_scan_loses_nothing [OF e [unfolded sample_failed_scan_def], of "''old''"] e
    by (simp add: sample_failed_scan_def)
qed

text \<open>
  C20: What the index says of an available file is true at the scan: after a scan that
  succeeded every available row has the size and the fingerprint of the contents of a file
  on disk that normalises to the row's path.
\<close>

theorem scan_indexes_contents:
  assumes "scan_into x clock now sc root_node db = (Inr s, db')" and "node_named root_node"
    and "find_row fr_path path (db_files db') = Some r" and "fr_sync_state r = ''local_available''"
  shows "\<exists>(ns, bytes) \<in> set (node_contents [] root_node). indexed_path ns = path
    \<and> fr_kind r = ''file'' \<and> fr_size_bytes r = uint (len_u64 bytes)
    \<and> fr_content_hash r = Some (blake3_hex x bytes)"
proof -
  from available_row_was_read [OF assms] obtain f where
    "f \<in> set (node_contents [] root_node)" "row_key r = file_key x f" by blast
  then show ?thesis
    using find_row_key [OF assms(3)]
    by (intro bexI [of _ f]) (auto simp: row_key_def file_key_def split_beta)
qed

theorem scan_indexes_contents_witness:
  "\<exists>s db' r. sample_scan = (Inr s, db') \<and> find_row fr_path ''s/b'' (db_files db') = Some r
     \<and> (\<exists>(ns, bytes) \<in> set (node_contents [] (DirNode sample_items)). indexed_path ns = ''s/b''
          \<and> fr_content_hash r = Some bytes)"
proof -
  obtain s db' where r: "sample_scan = (Inr s, db')" using sample_scan_ok by blast
  have named: "node_named (DirNode sample_items)" by code_simp
  have "map_option fr_sync_state (find_row fr_path ''s/b'' (db_files (snd sample_scan)))
      = Some ''local_available''" by code_simp
  then obtain row where row: "find_row fr_path ''s/b'' (db_files db') = Some row"
    "fr_sync_state row = ''local_available''" by (auto simp: r)
  have "blake3_hex sample_externals bytes = bytes" for bytes by (simp add: sample_externals_def)
  with scan_indexes_contents [OF r [unfolded sample_scan_def] named row] r row show ?thesis
    by (intro exI [of _ s] exI [of _ db'] exI [of _ row]) auto
qed

end
