(* ===== verification/Peer_Server.thy ===== *)
theory Peer_Server
  imports Http_Requests Path_Codec Folder_Scanner
begin

text \<open>
  The peer server, \<open>peer_server.rs\<close> after the HTTP layer: authentication of requests, the
  routes, and the handlers that share, receive and delete files. A handler works on the
  disk and the state database; what the operating system, the clocks and the generators of
  identifiers answer during a request is one record, so every error of every call is an
  input of the model.
\<close>

section \<open>The server's world\<close>

record server_world =
  sw_disk :: disk
  sw_db :: state_database

text \<open>
  The answers during one request: the clock at the check of the signature, the clock later
  on, SQLite's clock and the scan's clocks; the directory tree; faults of the file calls and
  of opening the database, by the number of the call within the handler; what besides
  regular files exists; the cipher's calls, what a failed one leaves in its destination, and
  how a file's contents come out of \<open>read\<close>; three fresh UUIDs and the random nonce prefix;
  faults of the writes to the connection, by number.
\<close>

record server_env =
  sv_now :: datetime
  sv_later :: datetime
  sv_unixepoch :: int
  sv_scan_clock :: scan_clock
  sv_tree :: fs_node
  sv_io :: "nat \<Rightarrow> io_faults"
  sv_open_db :: "nat \<Rightarrow> core_error option"
  sv_other_exists :: "string \<Rightarrow> string + bool"
  sv_remove_fault :: "string \<Rightarrow> string option"
  sv_crypto_io :: crypto_io
  sv_partial :: "string option"
  sv_reads :: "string \<Rightarrow> (string + string) list"
  sv_body_uuid :: string
  sv_plain_uuid :: string
  sv_response_uuid :: string
  sv_nonce :: string
  sv_send_fault :: "nat \<Rightarrow> string option"

text \<open>
  The serialisers of the documents the server handles, \<open>Uuid::parse_str\<close> (to the
  canonical text) and the version of the package.
\<close>

record server_codecs =
  sx_folder :: folder_codec
  sx_peers :: "peer_store_document json_codec"
  sx_presence :: "string \<Rightarrow> string + peer_presence"
  sx_reply :: "server_reply \<Rightarrow> string + string"
  sx_uuid :: "string \<Rightarrow> device_id option"
  sx_version :: string

record peer_server_config =
  sg_bind :: string
  sg_folder_path :: string
  sg_peers_path :: string
  sg_profile :: local_device_profile

type_synonym 'a server_op = "(server_world, peer_server_error, 'a) stateful"

definition on_disk :: "(disk, peer_server_error, 'a) stateful \<Rightarrow> 'a server_op" where
  "on_disk m = (\<lambda>w. case m (sw_disk w) of (r, d) \<Rightarrow> (r, w\<lparr>sw_disk := d\<rparr>))"

definition on_db :: "'a db_op \<Rightarrow> 'a server_op" where
  "on_db m = (\<lambda>w. case m (sw_db w) of (r, db) \<Rightarrow> (map_err ServerCore r, w\<lparr>sw_db := db\<rparr>))"

definition open_database :: "server_env \<Rightarrow> nat \<Rightarrow> unit server_op" where
  "open_database env k = lift_result (case sv_open_db env k of None \<Rightarrow> Inr () | Some e \<Rightarrow> Inl (ServerCore e))"

definition read_folder :: "server_codecs \<Rightarrow> server_env \<Rightarrow> nat \<Rightarrow> string \<Rightarrow> folder_document server_op" where
  "read_folder cd env k folder_path = read_op (\<lambda>w.
     map_err ServerCore (folder_store_read (sv_io env k) (sx_folder cd) \<lparr>st_root = folder_path\<rparr> (sw_disk w)))"

section \<open>Authentication\<close>

definition verify_peer_request ::
  "'x agent_externals_scheme \<Rightarrow> server_codecs \<Rightarrow> server_env \<Rightarrow> http_request \<Rightarrow> string \<Rightarrow> disk
     \<Rightarrow> peer_server_error + string" where
  "verify_peer_request x cd env request peers_path d =
     and_then (ok_or Unauthorized (hr_headers request ''x-syncer-device-id'')) (\<lambda>device_header.
     and_then (ok_or Unauthorized (hr_headers request ''x-syncer-timestamp'')) (\<lambda>timestamp_header.
     and_then (ok_or Unauthorized (parse_i64 timestamp_header)) (\<lambda>timestamp.
     and_then (ok_or Unauthorized (hr_headers request ''x-syncer-signature'')) (\<lambda>signature.
     if 300 < \<bar>unix_timestamp x (sv_now env) - timestamp\<bar> then Inl Unauthorized
     else
     and_then (ok_or Unauthorized (sx_uuid cd device_header)) (\<lambda>device.
     and_then (map_err ServerPeerStore
       (peer_store_read_or_default (sv_io env 0) (sx_peers cd) peers_path d)) (\<lambda>peers.
     and_then (ok_or Unauthorized (trusted_peer peers device)) (\<lambda>peer.
     and_then (map_err ServerSigning (verify_request_signature_with_body_hash_hex x signature
         (hr_method request) (hr_path request) (device_id_text device) timestamp
         (hr_body_sha256_hex request) (tp_shared_secret_hex peer))) (\<lambda>_.
       Inr (tp_shared_secret_hex peer)))))))))"

definition verified :: 
  "'x agent_externals_scheme \<Rightarrow> server_codecs \<Rightarrow> server_env \<Rightarrow> http_request \<Rightarrow> peer_server_config
     \<Rightarrow> string server_op" where
  "verified x cd env request config =
     read_op (\<lambda>w. verify_peer_request x cd env request (sg_peers_path config) (sw_disk w))"

definition required_header :: "http_request \<Rightarrow> string \<Rightarrow> peer_server_error + string" where
  "required_header request name = ok_or InvalidRequest (hr_headers request name)"

definition required_u64_header :: "http_request \<Rightarrow> string \<Rightarrow> peer_server_error + u64" where
  "required_u64_header request name =
     and_then (required_header request name) (\<lambda>value. ok_or InvalidRequest (parse_u64 value))"

section \<open>The manifest and shared files\<close>

definition server_export_manifest ::
  "'x agent_externals_scheme \<Rightarrow> server_codecs \<Rightarrow> server_env \<Rightarrow> string \<Rightarrow> local_device_profile
     \<Rightarrow> folder_manifest server_op" where
  "server_export_manifest x cd env folder_path profile =
     bind_op (read_folder cd env 0 folder_path) (\<lambda>folder.
     bind_op (open_database env 0) (\<lambda>_.
     bind_op (on_db (scan_into x (sv_scan_clock env) (sv_unixepoch env)
        \<lparr>sn_root = folder_path, sn_device_id = lp_device_id profile\<rparr> (sv_tree env))) (\<lambda>_.
       on_db (read_op (export_manifest x (sv_later env) (fc_id (fd_folder folder)) (lp_device_id profile))))))"

text \<open>The manifest's first entry at the path, if it is an available file.\<close>

definition find_shared :: "folder_manifest \<Rightarrow> relative_path \<Rightarrow> peer_server_error + file_record" where
  "find_shared manifest p =
     and_then (ok_or NotFound
       (find (\<lambda>file. path_eq (path_str (rec_path file)) (path_str p)) (fm_files manifest))) (\<lambda>file.
       if rec_kind file \<noteq> FileK \<or> rec_sync_state file \<noteq> LocalAvailable then Inl NotFound else Inr file)"

record shared_file =
  sf_path :: string
  sf_size_bytes :: u64
  sf_content_hash :: string

definition find_shared_file ::
  "'x agent_externals_scheme \<Rightarrow> server_codecs \<Rightarrow> server_env \<Rightarrow> string \<Rightarrow> local_device_profile
     \<Rightarrow> relative_path \<Rightarrow> shared_file server_op" where
  "find_shared_file x cd env folder_path profile p =
     bind_op (server_export_manifest x cd env folder_path profile) (\<lambda>manifest.
     lift_result (and_then (find_shared manifest p) (\<lambda>file.
       and_then (ok_or InvalidRequest (rec_content_hash file)) (\<lambda>hash.
         Inr \<lparr>sf_path = path_push folder_path (path_str p), sf_size_bytes = rec_size_bytes file,
              sf_content_hash = hash\<rparr>))))"

definition encrypted_file_response ::
  "'x agent_externals_scheme \<Rightarrow> server_env \<Rightarrow> u16 \<Rightarrow> shared_file \<Rightarrow> relative_path \<Rightarrow> string
     \<Rightarrow> peer_response server_op" where
  "encrypted_file_response x env status shared p secret_hex =
     (let encrypted_path = path_with_extension (sf_path shared)
            (''syncer-response-'' @ sv_response_uuid env @ ''.enc'')
      in
      bind_op (on_disk (map_op_err ServerPeerCrypto
          (encrypt_path x (sv_crypto_io env) (sv_partial env) (sv_reads env) (sv_nonce env)
            (sf_path shared) encrypted_path secret_hex
            \<lparr>cx_direction = ''download'', cx_path = p, cx_content_hash = sf_content_hash shared,
             cx_plaintext_size = sf_size_bytes shared\<rparr>))) (\<lambda>encrypted.
        lift_result (Inr (FileResponse
          (response_header status ''application/octet-stream'' (cf_size_bytes encrypted)
             [(''x-syncer-encryption'', encryption_algorithm),
              (''x-syncer-nonce'', cf_nonce_hex encrypted),
              (''x-syncer-content-hash'', sf_content_hash shared),
              (''x-syncer-plaintext-size'', show_nat (unat (sf_size_bytes shared)))])
          encrypted_path True))))"

section \<open>Uploads\<close>

definition enforce_folder_limit :: 
  "'x agent_externals_scheme \<Rightarrow> server_codecs \<Rightarrow> server_env \<Rightarrow> string \<Rightarrow> u64 \<Rightarrow> unit server_op" where
  "enforce_folder_limit x cd env folder_path incoming_size =
     bind_op (read_folder cd env 0 folder_path) (\<lambda>folder.
     bind_op (open_database env 0) (\<lambda>_.
     bind_op (on_db (read_op (folder_status x))) (\<lambda>status.
     (let remaining = remaining_bytes (fc_size_limit (fd_folder folder)) (fs_indexed_bytes status) in
      lift_result (if remaining < incoming_size
        then Inl (FolderLimitExceeded remaining incoming_size) else Inr ())))))"

definition publish_uploaded_file ::
  "io_faults \<Rightarrow> string \<Rightarrow> relative_path \<Rightarrow> string \<Rightarrow> (disk, peer_server_error, unit) stateful" where
  "publish_uploaded_file f folder_path p temporary =
     (let target = path_push folder_path (path_str p) in
      bind_op (case path_parent target of
          None \<Rightarrow> lift_result (Inr ())
        | Some parent \<Rightarrow> map_op_err (ServerFilesystem parent) (fs_create_dir_all f parent)) (\<lambda>_.
        map_op_err (ServerFilesystem target) (fs_rename f temporary target)))"

definition plaintext_path :: "server_env \<Rightarrow> string \<Rightarrow> string" where
  "plaintext_path env folder_path = path_push (requests_dir folder_path) (sv_plain_uuid env @ ''.plain'')"

text \<open>The handler up to the check that the target is free; it returns the hash of the text.\<close>

definition prepare_upload ::
  "'x agent_externals_scheme \<Rightarrow> server_codecs \<Rightarrow> server_env \<Rightarrow> string \<Rightarrow> relative_path
     \<Rightarrow> u64 \<Rightarrow> string \<Rightarrow> string \<Rightarrow> string \<Rightarrow> file_body \<Rightarrow> string server_op" where
  "prepare_upload x cd env folder_path p expected_size expected_hash secret_hex nonce_hex body =
     (if fb_size_bytes body \<noteq> encrypted_len expected_size then lift_result (Inl InvalidRequest)
      else
      (let plaintext_dir = requests_dir folder_path; plaintext = plaintext_path env folder_path in
      bind_op (on_disk (map_op_err (ServerFilesystem plaintext_dir)
         (fs_create_dir_all (sv_io env 0) plaintext_dir))) (\<lambda>_.
      bind_op (on_disk (map_op_err ServerPeerCrypto
          (decrypt_path x (sv_crypto_io env) (sv_partial env) (fb_path body) plaintext
            secret_hex nonce_hex
            \<lparr>cx_direction = ''upload'', cx_path = p, cx_content_hash = expected_hash,
             cx_plaintext_size = expected_size\<rparr>))) (\<lambda>decrypted.
      if cf_content_hash decrypted \<noteq> expected_hash then lift_result (Inl HashMismatch)
      else
      bind_op (enforce_folder_limit x cd env folder_path expected_size) (\<lambda>_.
      (let target = path_push folder_path (path_str p) in
      bind_op (read_op (\<lambda>w. map_err (ServerFilesystem target) (try_exists (sv_other_exists env) target (sw_disk w)))) (\<lambda>exists.
        lift_result (if exists then Inl TargetConflict else Inr (cf_content_hash decrypted)))))))))"

definition uploaded_entry ::
  "server_env \<Rightarrow> local_device_profile \<Rightarrow> relative_path \<Rightarrow> u64 \<Rightarrow> string \<Rightarrow> file_entry" where
  "uploaded_entry env profile p expected_size hash =
     \<lparr>fe_path = p, fe_kind = FileK, fe_size_bytes = expected_size, fe_modified_at = sv_later env,
      fe_content_hash = Some (ContentHash hash), fe_block_hashes = [],
      fe_version = \<lparr>fv_generation = 1, fv_device_id = lp_device_id profile\<rparr>\<rparr>"

definition finish_upload ::
  "'x agent_externals_scheme \<Rightarrow> server_codecs \<Rightarrow> server_env \<Rightarrow> string \<Rightarrow> local_device_profile
     \<Rightarrow> relative_path \<Rightarrow> u64 \<Rightarrow> string \<Rightarrow> string \<Rightarrow> server_reply server_op" where
  "finish_upload x cd env folder_path profile p expected_size expected_hash hash =
     bind_op (on_disk (publish_uploaded_file (sv_io env 0) folder_path p (plaintext_path env folder_path))) (\<lambda>_.
     bind_op (read_folder cd env 1 folder_path) (\<lambda>_.
     bind_op (open_database env 1) (\<lambda>_.
     bind_op (on_db (upsert_file x (sv_unixepoch env) (uploaded_entry env profile p expected_size hash))) (\<lambda>_.
       lift_result (Inr (UploadFileReply True p expected_size expected_hash))))))"

definition write_uploaded_file ::
  "'x agent_externals_scheme \<Rightarrow> server_codecs \<Rightarrow> server_env \<Rightarrow> string \<Rightarrow> local_device_profile
     \<Rightarrow> relative_path \<Rightarrow> u64 \<Rightarrow> string \<Rightarrow> string \<Rightarrow> string \<Rightarrow> file_body \<Rightarrow> server_reply server_op" where
  "write_uploaded_file x cd env folder_path profile p expected_size expected_hash secret_hex nonce_hex body =
     bind_op (prepare_upload x cd env folder_path p expected_size expected_hash secret_hex nonce_hex body)
       (finish_upload x cd env folder_path profile p expected_size expected_hash)"

section \<open>Deletion\<close>

definition delete_shared_file ::
  "'x agent_externals_scheme \<Rightarrow> server_codecs \<Rightarrow> server_env \<Rightarrow> string \<Rightarrow> local_device_profile
     \<Rightarrow> relative_path \<Rightarrow> u64 \<Rightarrow> string \<Rightarrow> server_reply server_op" where
  "delete_shared_file x cd env folder_path profile p expected_size expected_hash =
     bind_op (server_export_manifest x cd env folder_path profile) (\<lambda>manifest.
     bind_op (lift_result (find_shared manifest p)) (\<lambda>file.
     if rec_size_bytes file \<noteq> expected_size \<or> rec_content_hash file \<noteq> Some expected_hash
     then lift_result (Inl TargetConflict)
     else
     (let target = path_push folder_path (path_str p) in
     bind_op (on_disk (map_op_err (ServerFilesystem target) (fs_remove_file (sv_remove_fault env) target))) (\<lambda>_.
     bind_op (open_database env 1) (\<lambda>_.
     bind_op (on_db (write_op (forget_file p))) (\<lambda>_.
       lift_result (Inr (DeleteFileReply True p expected_size expected_hash))))))))"

section \<open>Routing\<close>

text \<open>\<open>str::trim_start_matches\<close> with a string: as often as it is there.\<close>

function trim_start_matches :: "'a list \<Rightarrow> 'a list \<Rightarrow> 'a list" where
  "trim_start_matches p s =
     (if p \<noteq> [] \<and> s \<noteq> [] \<and> starts_with p s then trim_start_matches p (drop (length p) s) else s)"
  by pat_completeness auto
termination by (relation "measure (\<lambda>(p, s). length s)") auto

declare trim_start_matches.simps [simp del]

definition requested_path :: "string \<Rightarrow> peer_server_error + relative_path" where
  "requested_path target =
     map_err (\<lambda>_. InvalidRequest) (decode_relative_path (trim_start_matches ''/file/'' target))"

definition put_file_route ::
  "'x agent_externals_scheme \<Rightarrow> server_codecs \<Rightarrow> server_env \<Rightarrow> http_request \<Rightarrow> peer_server_config
     \<Rightarrow> peer_response server_op" where
  "put_file_route x cd env request config =
     bind_op (verified x cd env request config) (\<lambda>shared_secret.
     bind_op (lift_result (requested_path (hr_path request))) (\<lambda>p.
     bind_op (lift_result (required_u64_header request ''x-syncer-file-size'')) (\<lambda>expected_size.
     bind_op (lift_result (required_header request ''x-syncer-content-hash'')) (\<lambda>expected_hash.
     bind_op (lift_result (required_header request ''x-syncer-encryption'')) (\<lambda>encryption.
     if encryption \<noteq> encryption_algorithm then lift_result (Inl InvalidRequest)
     else
     bind_op (lift_result (required_header request ''x-syncer-nonce'')) (\<lambda>nonce.
     bind_op (lift_result (request_file_body (hr_body request))) (\<lambda>body.
     bind_op (write_uploaded_file x cd env (sg_folder_path config) (sg_profile config) p
        expected_size expected_hash shared_secret nonce body) (\<lambda>reply.
       lift_result (json_response (sx_reply cd) 200 reply)))))))))"

definition get_file_route ::
  "'x agent_externals_scheme \<Rightarrow> server_codecs \<Rightarrow> server_env \<Rightarrow> http_request \<Rightarrow> peer_server_config
     \<Rightarrow> peer_response server_op" where
  "get_file_route x cd env request config =
     bind_op (verified x cd env request config) (\<lambda>shared_secret.
     bind_op (lift_result (requested_path (hr_path request))) (\<lambda>p.
     bind_op (find_shared_file x cd env (sg_folder_path config) (sg_profile config) p) (\<lambda>shared.
       encrypted_file_response x env 200 shared p shared_secret)))"

definition delete_file_route ::
  "'x agent_externals_scheme \<Rightarrow> server_codecs \<Rightarrow> server_env \<Rightarrow> http_request \<Rightarrow> peer_server_config
     \<Rightarrow> peer_response server_op" where
  "delete_file_route x cd env request config =
     bind_op (verified x cd env request config) (\<lambda>_.
     bind_op (lift_result (requested_path (hr_path request))) (\<lambda>p.
     bind_op (lift_result (required_u64_header request ''x-syncer-file-size'')) (\<lambda>expected_size.
     bind_op (lift_result (required_header request ''x-syncer-content-hash'')) (\<lambda>expected_hash.
     bind_op (delete_shared_file x cd env (sg_folder_path config) (sg_profile config) p
        expected_size expected_hash) (\<lambda>reply.
       lift_result (json_response (sx_reply cd) 200 reply))))))"

definition presence_route ::
  "'x agent_externals_scheme \<Rightarrow> server_codecs \<Rightarrow> server_env \<Rightarrow> http_request \<Rightarrow> peer_server_config
     \<Rightarrow> peer_response server_op" where
  "presence_route x cd env request config =
     bind_op (verified x cd env request config) (\<lambda>_.
     bind_op (lift_result (request_memory_body (hr_body request))) (\<lambda>bytes.
     bind_op (lift_result (map_err ServerJson (sx_presence cd bytes))) (\<lambda>presence.
       lift_result (json_response (sx_reply cd) 200
         (PresenceReply True (device_id_text (pp_device_id presence))
            \<lparr>pp_device_id = lp_device_id (sg_profile config), pp_sent_at = sv_later env,
             pp_agent_version = sx_version cd\<rparr>)))))"

definition manifest_route ::
  "'x agent_externals_scheme \<Rightarrow> server_codecs \<Rightarrow> server_env \<Rightarrow> http_request \<Rightarrow> peer_server_config
     \<Rightarrow> peer_response server_op" where
  "manifest_route x cd env request config =
     bind_op (verified x cd env request config) (\<lambda>_.
     bind_op (server_export_manifest x cd env (sg_folder_path config) (sg_profile config)) (\<lambda>manifest.
       lift_result (json_response (sx_reply cd) 200 (ManifestReply manifest))))"

definition route_request ::
  "'x agent_externals_scheme \<Rightarrow> server_codecs \<Rightarrow> server_env \<Rightarrow> http_request \<Rightarrow> peer_server_config
     \<Rightarrow> peer_response server_op" where
  "route_request x cd env request config =
     (let verb = hr_method request; path = hr_path request in
      if verb = ''GET'' \<and> path = ''/health''
      then lift_result (json_response (sx_reply cd) 200
        (HealthReply True (device_id_text (lp_device_id (sg_profile config)))))
      else if verb = ''POST'' \<and> path = ''/presence'' then presence_route x cd env request config
      else if verb = ''GET'' \<and> path = ''/manifest'' then manifest_route x cd env request config
      else if verb = ''GET'' \<and> starts_with ''/file/'' path then get_file_route x cd env request config
      else if verb = ''PUT'' \<and> starts_with ''/file/'' path then put_file_route x cd env request config
      else if verb = ''DELETE'' \<and> starts_with ''/file/'' path then delete_file_route x cd env request config
      else lift_result (json_response (sx_reply cd) 404 (ErrorReply ''not_found'')))"

section \<open>A connection from end to end\<close>

text \<open>
  Sending a response, a write to the connection at a time; the outcome carries what was
  sent. The file of a response is deleted only after all of it was sent.
\<close>

definition send :: "server_env \<Rightarrow> nat \<Rightarrow> string \<Rightarrow> (string, peer_server_error, unit) stateful" where
  "send env k bytes sent =
     (case sv_send_fault env k of None \<Rightarrow> (Inr (), sent @ bytes) | Some msg \<Rightarrow> (Inl (ServerIo msg), sent))"

fun send_reads ::
  "server_env \<Rightarrow> string \<Rightarrow> nat \<Rightarrow> (string + string) list \<Rightarrow> (string, peer_server_error, unit) stateful" where
  "send_reads env path k [] sent = (Inr (), sent)"
| "send_reads env path k (Inl msg # reads) sent = (Inl (ServerFilesystem path msg), sent)"
| "send_reads env path k (Inr bytes # reads) sent =
     (if bytes = [] then (Inr (), sent)
      else bind_op (send env k bytes) (\<lambda>_. send_reads env path (k + 1) reads) sent)"

fun write_response ::
  "server_env \<Rightarrow> peer_response \<Rightarrow> disk \<Rightarrow> (peer_server_error + unit) \<times> string \<times> disk" where
  "write_response env (BytesResponse bytes) d = (case send env 0 bytes [] of (r, sent) \<Rightarrow> (r, sent, d))"
| "write_response env (FileResponse header path delete_after_send) d =
     (case bind_op (send env 0 header) (\<lambda>_.
        bind_op (lift_result (map_err (ServerFilesystem path) (fs_read (sv_io env 2) path d))) (\<lambda>bytes.
          send_reads env path 1 (sv_reads env bytes))) [] of
        (Inl e, sent) \<Rightarrow> (Inl e, sent, d)
      | (Inr _, sent) \<Rightarrow>
          (Inr (), sent, if delete_after_send then snd (fs_remove_file (sv_remove_fault env) path d) else d))"

text \<open>What \<open>handle_stream\<close> sends and what it leaves; its error is dropped by the caller.\<close>

definition handle_stream ::
  "'x agent_externals_scheme \<Rightarrow> server_codecs \<Rightarrow> spool_io \<Rightarrow> server_env \<Rightarrow> peer_server_config
     \<Rightarrow> tcp_stream \<Rightarrow> server_world \<Rightarrow> (peer_server_error + unit) \<times> string \<times> server_world" where
  "handle_stream x cd io env config s w =
     (case read_request x io (sg_folder_path config) (sv_body_uuid env) (s, sw_disk w) of (request, _, d) \<Rightarrow>
     (case (case request of
              Inl e \<Rightarrow> (error_response (sx_reply cd) e, w\<lparr>sw_disk := d\<rparr>)
            | Inr request' \<Rightarrow>
                (case route_request x cd env request' config (w\<lparr>sw_disk := d\<rparr>) of
                   (Inl e, w') \<Rightarrow> (error_response (sx_reply cd) e, w')
                 | (Inr response, w') \<Rightarrow> (response, w'))) of (response, w') \<Rightarrow>
     (case write_response env response (sw_disk w') of (r, sent, d') \<Rightarrow>
       (r, sent, w'\<lparr>sw_disk := d'\<rparr>))))"

section \<open>Who is answered\<close>

text \<open>
  What makes a request authentic, as a statement about the trust document and the clock: the
  named device is trusted, the request is at most five minutes away from now, and its
  signature is the MAC under the device's secret over method, path, device, time and body.
\<close>

definition authentic_request ::
  "'x agent_externals_scheme \<Rightarrow> server_codecs \<Rightarrow> server_env \<Rightarrow> http_request \<Rightarrow> string \<Rightarrow> disk
     \<Rightarrow> string \<Rightarrow> bool" where
  "authentic_request x cd env request peers_path d secret_hex \<longleftrightarrow>
     (\<exists>device t peers peer key mac.
        Option.bind (hr_headers request ''x-syncer-device-id'') (sx_uuid cd) = Some device
        \<and> peer_store_read_or_default (sv_io env 0) (sx_peers cd) peers_path d = Inr peers
        \<and> trusted_peer peers device = Some peer \<and> secret_hex = tp_shared_secret_hex peer
        \<and> Option.bind (hr_headers request ''x-syncer-timestamp'') parse_i64 = Some t
        \<and> \<bar>unix_timestamp x (sv_now env) - t\<bar> \<le> 300
        \<and> hex_decode x secret_hex = Inr key
        \<and> hmac_sha256 x key (canonical_payload_with_body_hash_hex (hr_method request)
            (hr_path request) (device_id_text device) t (hr_body_sha256_hex request)) = Some mac
        \<and> map_option (hex_decode x) (hr_headers request ''x-syncer-signature'') = Some (Inr mac))"

lemma verify_peer_request_iff:
  "verify_peer_request x cd env request peers_path d = Inr secret_hex
     \<longleftrightarrow> authentic_request x cd env request peers_path d secret_hex"
  unfolding verify_peer_request_def authentic_request_def
    verify_request_signature_with_body_hash_hex_def
  by (auto simp: and_then_Inr_iff bind_eq_Some_conv)

lemma verify_peer_request_error:
  "verify_peer_request x cd env request peers_path d = Inl e \<Longrightarrow> error_status e = 401"
  by (auto simp: verify_peer_request_def and_then_Inl_iff map_err_Inl_iff ok_or_Inl_iff split: if_splits)

text \<open>The routes that need a trusted peer; the others only answer.\<close>

definition protected_route :: "string \<Rightarrow> string \<Rightarrow> bool" where
  "protected_route verb path \<longleftrightarrow>
     verb = ''POST'' \<and> path = ''/presence'' \<or> verb = ''GET'' \<and> path = ''/manifest''
     \<or> (verb = ''GET'' \<or> verb = ''PUT'' \<or> verb = ''DELETE'') \<and> starts_with ''/file/'' path"

lemmas route_defs = presence_route_def manifest_route_def get_file_route_def put_file_route_def
  delete_file_route_def

lemma verified_refuses:
  assumes "verify_peer_request x cd env request (sg_peers_path config) (sw_disk w) = Inl e"
  shows "bind_op (verified x cd env request config) f w = (Inl e, w)"
  using assms by (simp add: verified_def bind_op_def)

lemma refused_routes:
  assumes "verify_peer_request x cd env request (sg_peers_path config) (sw_disk w) = Inl e"
  shows "presence_route x cd env request config w = (Inl e, w)"
    "manifest_route x cd env request config w = (Inl e, w)"
    "get_file_route x cd env request config w = (Inl e, w)"
    "put_file_route x cd env request config w = (Inl e, w)"
    "delete_file_route x cd env request config w = (Inl e, w)"
  unfolding route_defs by (rule verified_refuses [OF assms])+

lemma starts_with_file: "starts_with ''/file/'' path \<Longrightarrow> path \<noteq> ''/health'' \<and> path \<noteq> ''/manifest''"
  by (auto simp: starts_with_def)

section \<open>Files are kept\<close>

definition files_kept :: "string set \<Rightarrow> server_world \<Rightarrow> server_world \<Rightarrow> bool" where
  "files_kept T w w' \<longleftrightarrow> (\<forall>q bytes. q \<notin> T \<longrightarrow> dk_files (sw_disk w) q = Some bytes
     \<longrightarrow> dk_files (sw_disk w') q = Some bytes)"

interpretation kept: frame_condition "files_kept T" for T
  by unfold_locales (auto simp: files_kept_def)

named_theorems kept_intros \<open>steps that keep files\<close>

lemma kept_on_db [kept_intros]: "within (files_kept T) (on_db m)"
  by (auto simp: within_def files_kept_def on_db_def split: prod.split)

lemma kept_open_database [kept_intros]: "within (files_kept T) (open_database env k)"
  by (simp add: open_database_def kept.within_lift)

lemma kept_read_folder [kept_intros]: "within (files_kept T) (read_folder cd env k folder_path)"
  by (simp add: read_folder_def kept.within_read)

lemma kept_verified [kept_intros]: "within (files_kept T) (verified x cd env request config)"
  by (simp add: verified_def kept.within_read)

lemma kept_create_dir [kept_intros]:
  "within (files_kept T) (on_disk (map_op_err g (fs_create_dir_all f path)))"
  by (auto simp: within_def files_kept_def on_disk_def map_op_err_def fs_create_dir_all_def)

lemma kept_on_disk:
  assumes "\<And>q d. q \<notin> T \<Longrightarrow> dk_files (snd (m d)) q = dk_files d q"
  shows "within (files_kept T) (on_disk (map_op_err g m))"
  using assms by (auto simp: within_def files_kept_def on_disk_def map_op_err_def split_beta)

lemma kept_encrypt:
  "target \<in> T \<Longrightarrow> within (files_kept T)
     (on_disk (map_op_err g (encrypt_path x io partial reads pre source target secret_hex cx)))"
  by (rule kept_on_disk, rule encrypt_path_frame) auto

lemma kept_decrypt:
  "target \<in> T \<Longrightarrow> within (files_kept T)
     (on_disk (map_op_err g (decrypt_path x io partial source target secret_hex nonce_hex cx)))"
  by (rule kept_on_disk, rule decrypt_path_frame) auto

lemma kept_export_manifest [kept_intros]:
  "within (files_kept T) (server_export_manifest x cd env folder_path profile)"
  unfolding server_export_manifest_def by (intro kept_intros kept.within_intros)

lemma kept_enforce_folder_limit [kept_intros]:
  "within (files_kept T) (enforce_folder_limit x cd env folder_path incoming)"
  unfolding enforce_folder_limit_def Let_def by (intro kept_intros kept.within_intros)

lemma kept_find_shared_file [kept_intros]:
  "within (files_kept T) (find_shared_file x cd env folder_path profile p)"
  unfolding find_shared_file_def by (intro kept_intros kept.within_intros)

lemma kept_prepare_upload:
  "plaintext_path env folder_path \<in> T \<Longrightarrow>
     within (files_kept T) (prepare_upload x cd env folder_path p expected hash secret_hex nonce_hex body)"
  unfolding prepare_upload_def Let_def by (intro kept_intros kept.within_intros kept_decrypt)

lemma prepared_target_free:
  assumes "prepare_upload x cd env folder_path p expected hash secret_hex nonce_hex body w = (Inr h, w')"
  shows "dk_files (sw_disk w') (path_push folder_path (path_str p)) = None"
  using assms
  by (auto simp: prepare_upload_def Let_def bind_op_def try_exists_def and_then_Inr_iff
      split: if_splits prod.splits sum.splits)

lemma kept_publish:
  assumes "dk_files (sw_disk w) (path_push folder_path (path_str p)) = None" and "temporary \<in> T"
  shows "files_kept T w (snd (on_disk (publish_uploaded_file f folder_path p temporary) w))"
  using assms
  by (auto simp: files_kept_def on_disk_def publish_uploaded_file_def Let_def bind_op_def
      map_op_err_def fs_create_dir_all_def fs_rename_def split: option.splits prod.splits)

lemma kept_finish_upload:
  assumes "dk_files (sw_disk w) (path_push folder_path (path_str p)) = None"
    and "plaintext_path env folder_path \<in> T"
  shows "files_kept T w (snd (finish_upload x cd env folder_path profile p expected hash h w))"
  unfolding finish_upload_def
proof (rule kept.bind_op_le)
  show "files_kept T w (snd (on_disk (publish_uploaded_file (sv_io env 0) folder_path p
      (plaintext_path env folder_path)) w))"
    by (rule kept_publish [OF assms])
  fix a t
  have "within (files_kept T) (bind_op (read_folder cd env 1 folder_path) (\<lambda>_.
     bind_op (open_database env 1) (\<lambda>_.
     bind_op (on_db (upsert_file x (sv_unixepoch env) (uploaded_entry env profile p expected h))) (\<lambda>_.
       lift_result (Inr (UploadFileReply True p expected hash))))))"
    by (intro kept_intros kept.within_intros)
  then show "files_kept T t (snd (bind_op (read_folder cd env 1 folder_path) (\<lambda>_.
     bind_op (open_database env 1) (\<lambda>_.
     bind_op (on_db (upsert_file x (sv_unixepoch env) (uploaded_entry env profile p expected h))) (\<lambda>_.
       lift_result (Inr (UploadFileReply True p expected hash))))) t))"
    by (simp add: within_def)
qed

lemma kept_write_uploaded_file:
  assumes "plaintext_path env folder_path \<in> T"
  shows "within (files_kept T)
    (write_uploaded_file x cd env folder_path profile p expected hash secret_hex nonce_hex body)"
  unfolding within_def write_uploaded_file_def
proof
  fix w
  show "files_kept T w (snd (bind_op
      (prepare_upload x cd env folder_path p expected hash secret_hex nonce_hex body)
      (finish_upload x cd env folder_path profile p expected hash) w))"
    using kept_prepare_upload [OF assms, of x cd p expected hash secret_hex nonce_hex body] assms
    by (intro kept.bind_op_le kept_finish_upload) (auto simp: within_def dest: prepared_target_free)
qed

definition response_path :: "server_env \<Rightarrow> string \<Rightarrow> relative_path \<Rightarrow> string" where
  "response_path env folder_path p =
     path_with_extension (path_push folder_path (path_str p))
       (''syncer-response-'' @ sv_response_uuid env @ ''.enc'')"

lemma find_shared_file_path:
  "find_shared_file x cd env folder_path profile p w = (Inr shared, w') \<Longrightarrow>
     sf_path shared = path_push folder_path (path_str p)"
  by (auto simp: find_shared_file_def bind_op_def and_then_Inr_iff split: prod.splits sum.splits)

lemma kept_encrypted_response:
  assumes "sf_path shared = path_push folder_path (path_str p)" and "response_path env folder_path p \<in> T"
  shows "within (files_kept T) (encrypted_file_response x env status shared p secret_hex)"
  unfolding encrypted_file_response_def Let_def assms(1) response_path_def [symmetric]
  by (intro kept_intros kept.within_intros kept_encrypt [OF assms(2)])

text \<open>The files a request creates for itself, under fresh names.\<close>

definition request_temporaries :: "server_env \<Rightarrow> string \<Rightarrow> http_request \<Rightarrow> string set" where
  "request_temporaries env folder_path request =
     insert (plaintext_path env folder_path)
       (case requested_path (hr_path request) of Inl _ \<Rightarrow> {} | Inr p \<Rightarrow> {response_path env folder_path p})"

lemma kept_get_file_route:
  "within (files_kept (request_temporaries env (sg_folder_path config) request))
     (get_file_route x cd env request config)"
  unfolding get_file_route_def
proof (rule kept.within_bind [OF kept_verified])
  fix shared_secret
  let ?T = "request_temporaries env (sg_folder_path config) request"
  show "within (files_kept ?T) (bind_op (lift_result (requested_path (hr_path request))) (\<lambda>p.
     bind_op (find_shared_file x cd env (sg_folder_path config) (sg_profile config) p) (\<lambda>shared.
       encrypted_file_response x env 200 shared p shared_secret)))"
    unfolding within_def
  proof (intro allI kept.bind_op_le)
    fix w t :: server_world and p
    assume "lift_result (requested_path (hr_path request)) w = (Inr p, t)"
    then have T: "response_path env (sg_folder_path config) p \<in> ?T"
      by (simp add: request_temporaries_def)
    show "files_kept ?T t
      (snd (find_shared_file x cd env (sg_folder_path config) (sg_profile config) p t))"
      by (rule withinD [OF kept_find_shared_file])
    fix shared t'
    assume "find_shared_file x cd env (sg_folder_path config) (sg_profile config) p t = (Inr shared, t')"
    then have "sf_path shared = path_push (sg_folder_path config) (path_str p)"
      by (rule find_shared_file_path)
    from kept_encrypted_response [OF this T]
    show "files_kept ?T t' (snd (encrypted_file_response x env 200 shared p shared_secret t'))"
      by (rule withinD)
  qed (simp add: kept.le_refl)
qed

lemma kept_put_file_route:
  "within (files_kept (request_temporaries env (sg_folder_path config) request))
     (put_file_route x cd env request config)"
  unfolding put_file_route_def
  by (intro kept_intros kept.within_intros kept_write_uploaded_file) (simp add: request_temporaries_def)

lemma kept_route_request:
  assumes "hr_method request \<noteq> ''DELETE''"
  shows "within (files_kept (request_temporaries env (sg_folder_path config) request))
    (route_request x cd env request config)"
proof -
  have "within (files_kept T) (presence_route x cd env request config)"
    "within (files_kept T) (manifest_route x cd env request config)" for T
    unfolding presence_route_def manifest_route_def by (intro kept_intros kept.within_intros)+
  then show ?thesis
    using kept_get_file_route [of env config request x cd] kept_put_file_route [of env config request x cd] assms
    by (simp add: route_request_def Let_def kept.within_lift)
qed

section \<open>What an upload leaves\<close>

lemma on_disk_Inr:
  "on_disk m w = (Inr a, w') \<longleftrightarrow> (\<exists>d. m (sw_disk w) = (Inr a, d) \<and> w' = w\<lparr>sw_disk := d\<rparr>)"
  by (auto simp: on_disk_def split: prod.splits)

lemma on_db_Inr:
  "on_db m w = (Inr a, w') \<longleftrightarrow> (\<exists>db. m (sw_db w) = (Inr a, db) \<and> w' = w\<lparr>sw_db := db\<rparr>)"
  by (auto simp: on_db_def split: prod.splits)

lemma open_database_Inr: "open_database env k w = (Inr u, w') \<longleftrightarrow> sv_open_db env k = None \<and> w' = w"
  by (auto simp: open_database_def split: option.splits)

lemma fs_create_dir_all_Inr: "fs_create_dir_all f p d = (Inr u, d') \<Longrightarrow> d' = d"
  by (auto simp: fs_create_dir_all_def)

lemmas op_success = bind_op_Inr on_disk_Inr on_db_Inr open_database_Inr map_op_err_Inr
  lift_result_Inr read_op_Inr and_then_Inr_iff

lemma temporary_is_no_user_path:
  assumes "safe_path p" and "plain_name (sv_plain_uuid env @ ''.plain'')"
  shows "plaintext_path env folder_path \<noteq> path_push folder_path (path_str p)"
proof -
  have "path_components (plaintext_path env folder_path)
      = path_components (path_push folder_path syncer_dir_name)
        @ [NormalPart ''tmp'', NormalPart ''requests'', NormalPart (sv_plain_uuid env @ ''.plain'')]"
    using assms(2)
    by (simp add: plaintext_path_def requests_dir_def syncer_dir_def syncer_dir_name_def
        path_components_push_name plain_name_def)
  then have "starts_with (path_components (path_push folder_path syncer_dir_name))
      (path_components (plaintext_path env folder_path))" by simp
  with safe_path_outside_syncer [OF assms(1), of folder_path] show ?thesis by metis
qed

lemma enforce_folder_limit_Inr:
  assumes "enforce_folder_limit x cd env folder_path incoming w = (Inr u, w')"
  shows "w' = w \<and> (\<exists>folder status.
    folder_store_read (sv_io env 0) (sx_folder cd) \<lparr>st_root = folder_path\<rparr> (sw_disk w) = Inr folder
    \<and> folder_status x (sw_db w) = Inr status
    \<and> incoming \<le> remaining_bytes (fc_size_limit (fd_folder folder)) (fs_indexed_bytes status))"
  using assms
  by (auto simp: enforce_folder_limit_def read_folder_def op_success Let_def not_less split: if_splits)

text \<open>A handler that got through its checks: what they established.\<close>

lemma prepare_upload_Inr:
  assumes "prepare_upload x cd env folder_path p expected hash secret_hex nonce_hex body w = (Inr h, w')"
    and "aead_laws x"
  shows "h = hash \<and> (\<exists>plain folder status. w' = w\<lparr>sw_disk := set_file (plaintext_path env folder_path) (Some plain) (sw_disk w)\<rparr>
    \<and> length plain = unat expected \<and> blake3_hex x plain = hash
    \<and> dk_files (sw_disk w') (path_push folder_path (path_str p)) = None
    \<and> folder_store_read (sv_io env 0) (sx_folder cd) \<lparr>st_root = folder_path\<rparr> (sw_disk w') = Inr folder
    \<and> folder_status x (sw_db w) = Inr status
    \<and> expected \<le> remaining_bytes (fc_size_limit (fd_folder folder)) (fs_indexed_bytes status))"
proof -
  note free = prepared_target_free [OF assms(1)]
  let ?cx = "\<lparr>cx_direction = ''upload'', cx_path = p, cx_content_hash = hash, cx_plaintext_size = expected\<rparr>"
  from assms(1) obtain fd d folder status where
    dec: "decrypt_path x (sv_crypto_io env) (sv_partial env) (fb_path body) (plaintext_path env folder_path)
        secret_hex nonce_hex ?cx (sw_disk w) = (Inr fd, d)"
    and hash: "cf_content_hash fd = hash" "h = hash" and w': "w' = w\<lparr>sw_disk := d\<rparr>"
    and lim: "folder_store_read (sv_io env 0) (sx_folder cd) \<lparr>st_root = folder_path\<rparr> d = Inr folder"
      "folder_status x (sw_db w) = Inr status"
      "expected \<le> remaining_bytes (fc_size_limit (fd_folder folder)) (fs_indexed_bytes status)"
    by (auto simp: prepare_upload_def Let_def op_success dest!: fs_create_dir_all_Inr
        enforce_folder_limit_Inr split: if_splits)
  from decrypt_path_Inr [OF dec assms(2)] hash obtain plain where
    "d = set_file (plaintext_path env folder_path) (Some plain) (sw_disk w)"
    "length plain = unat expected" "blake3_hex x plain = hash" by auto
  with free hash(2) w' lim show ?thesis by auto
qed

lemma publish_Inr:
  assumes "publish_uploaded_file f folder_path p temporary d = (Inr u, d')"
  shows "\<exists>bytes. dk_files d temporary = Some bytes
    \<and> d' = set_file (path_push folder_path (path_str p)) (Some bytes) (set_file temporary None d)"
  using assms
  by (auto simp: publish_uploaded_file_def Let_def op_success fs_rename_def
      split: option.splits dest!: fs_create_dir_all_Inr)

lemma finish_upload_Inr:
  assumes "finish_upload x cd env folder_path profile p expected hash h w = (Inr reply, w')"
  shows "reply = UploadFileReply True p expected hash
    \<and> (\<exists>bytes row. dk_files (sw_disk w) (plaintext_path env folder_path) = Some bytes
      \<and> sw_disk w' = set_file (path_push folder_path (path_str p)) (Some bytes)
          (set_file (plaintext_path env folder_path) None (sw_disk w))
      \<and> file_row_of_entry x (sv_unixepoch env) (uploaded_entry env profile p expected h) = Inr row
      \<and> sw_db w' = files_upsert row (sw_db w))"
  using assms
  by (auto simp: finish_upload_def op_success read_folder_def upsert_file_def
      dest!: publish_Inr split: option.splits)

section \<open>What a deletion needs\<close>

lemma scan_keeps_database_ok:
  "database_ok db \<Longrightarrow> database_ok (snd (scan_into x clock now sc root_node db))"
  using scan_directories_upserts [of "mark_scan_started db" x clock sc "[(sn_root sc, root_node)]" default_scan_summary]
  by (auto simp: scan_into_def bind_op_apply database_ok_files_statements dest: only_upserts_ok split: sum.split)

lemma server_export_manifest_Inr:
  assumes "server_export_manifest x cd env folder_path profile w = (Inr m, w')"
  shows "\<exists>s db. scan_into x (sv_scan_clock env) (sv_unixepoch env)
      \<lparr>sn_root = folder_path, sn_device_id = lp_device_id profile\<rparr> (sv_tree env) (sw_db w) = (Inr s, db)
    \<and> w' = w\<lparr>sw_db := db\<rparr> \<and> list_files x db = Inr (fm_files m)"
  using assms
  by (auto simp: server_export_manifest_def read_folder_def op_success export_manifest_def)

lemma find_shared_Inr:
  assumes "find_shared m p = Inr f"
  shows "f \<in> set (fm_files m) \<and> path_eq (path_str (rec_path f)) (path_str p)
    \<and> rec_sync_state f = LocalAvailable"
  using assms by (auto simp: find_shared_def and_then_Inr_iff find_Some_iff split: if_splits)

lemma listed_file_row:
  assumes "list_files x db = Inr files" and "f \<in> set files"
  shows "\<exists>row \<in> set (db_files db). row_to_file_record x row = Inr f"
  using list_all2_mem2 [OF assms(1) [unfolded list_files_def collect_results_Inr_iff] assms(2)] by simp

lemma row_to_file_record_available:
  assumes "row_to_file_record x row = Inr f" and "rec_sync_state f = LocalAvailable"
  shows "fr_sync_state row = ''local_available'' \<and> relative_path_parse (fr_path row) = Inr (rec_path f)
    \<and> u64_of_i64 (fr_size_bytes row) = Some (rec_size_bytes f) \<and> rec_content_hash f = fr_content_hash row"
  using assms
  by (auto simp: row_to_file_record_def and_then_Inr_iff file_sync_state_parse_def split: if_splits)

text \<open>What the manifest of a fresh scan offers was read from the disk.\<close>

lemma exported_file_was_read:
  assumes "server_export_manifest x cd env folder_path profile w = (Inr m, w')"
    and "find_shared m p = Inr f" and "database_ok (sw_db w)" and "node_named (sv_tree env)"
  shows "\<exists>(ns, bytes) \<in> set (node_contents [] (sv_tree env)).
    relative_path_parse (indexed_path ns) = Inr (rec_path f) \<and> path_eq (path_str (rec_path f)) (path_str p)
    \<and> len_u64 bytes = rec_size_bytes f \<and> rec_content_hash f = Some (blake3_hex x bytes)"
proof -
  from server_export_manifest_Inr [OF assms(1)] obtain s db where
    scan: "scan_into x (sv_scan_clock env) (sv_unixepoch env)
      \<lparr>sn_root = folder_path, sn_device_id = lp_device_id profile\<rparr> (sv_tree env) (sw_db w) = (Inr s, db)"
    and files: "list_files x db = Inr (fm_files m)" by auto
  note f = find_shared_Inr [OF assms(2)]
  with listed_file_row [OF files] obtain row where
    row: "row \<in> set (db_files db)" "row_to_file_record x row = Inr f" by blast
  note rec = row_to_file_record_available [OF row(2)]
  have "database_ok db" using scan_keeps_database_ok [OF assms(3)] scan by (metis snd_conv)
  then have "distinct_keys fr_path (db_files db)" by (simp add: database_ok_def files_ok_def)
  with row(1) have "find_row fr_path (fr_path row) (db_files db) = Some row"
    by (simp add: find_row_Some_iff)
  from available_row_was_read [OF scan assms(4) this] rec f obtain g where
    g: "g \<in> set (node_contents [] (sv_tree env))" "row_key row = file_key x g" by auto
  show ?thesis
  proof (rule bexI [OF _ g(1)], cases g)
    case (Pair ns bytes)
    with g(2) have "fr_path row = indexed_path ns" "fr_size_bytes row = uint (len_u64 bytes)"
      "fr_content_hash row = Some (blake3_hex x bytes)"
      by (simp_all add: row_key_def file_key_def)
    with rec f have "relative_path_parse (indexed_path ns) = Inr (rec_path f)"
      "len_u64 bytes = rec_size_bytes f" "rec_content_hash f = Some (blake3_hex x bytes)"
      by (simp_all add: u64_of_i64_def)
    with f Pair show "case g of (ns, bytes) \<Rightarrow> relative_path_parse (indexed_path ns) = Inr (rec_path f)
        \<and> path_eq (path_str (rec_path f)) (path_str p)
        \<and> len_u64 bytes = rec_size_bytes f \<and> rec_content_hash f = Some (blake3_hex x bytes)" by simp
  qed
qed

lemma server_export_manifest_disk:
  "sw_disk (snd (server_export_manifest x cd env folder_path profile w)) = sw_disk w"
  by (auto simp: server_export_manifest_def bind_op_def read_folder_def open_database_def on_db_def
      split: prod.split sum.split option.split)

text \<open>The disk changes only by removing the target, after all checks.\<close>

lemma delete_shared_file_changes:
  assumes "delete_shared_file x cd env folder_path profile p expected hash w = (r, w')"
    and "dk_files (sw_disk w') q \<noteq> dk_files (sw_disk w) q"
  shows "q = path_push folder_path (path_str p) \<and> dk_files (sw_disk w') q = None
    \<and> (\<exists>m t f. server_export_manifest x cd env folder_path profile w = (Inr m, t)
        \<and> find_shared m p = Inr f \<and> rec_size_bytes f = expected \<and> rec_content_hash f = Some hash)"
proof -
  obtain out t where m: "server_export_manifest x cd env folder_path profile w = (out, t)" by fastforce
  with server_export_manifest_disk [of x cd env folder_path profile w] have t: "sw_disk t = sw_disk w" by simp
  show ?thesis
  proof (cases out)
    case (Inl e)
    with assms m t show ?thesis by (simp add: delete_shared_file_def bind_op_def)
  next
    case (Inr manifest)
    show ?thesis
    proof (cases "find_shared manifest p")
      case (Inl e)
      with assms m t Inr show ?thesis by (simp add: delete_shared_file_def bind_op_def)
    next
      case f: (Inr f)
      have "rec_size_bytes f = expected \<and> rec_content_hash f = Some hash"
        using assms m t Inr f by (auto simp: delete_shared_file_def bind_op_def split: if_splits)
      moreover have "q = path_push folder_path (path_str p) \<and> dk_files (sw_disk w') q = None"
        using assms m t Inr f
        by (auto simp: delete_shared_file_def bind_op_def on_disk_def map_op_err_def fs_remove_file_def
            open_database_def on_db_def Let_def split: if_splits option.splits)
      ultimately show ?thesis using m Inr f by blast
    qed
  qed
qed

section \<open>Properties\<close>


text \<open>
  C17: No request but a deletion overwrites or removes a file. Whatever a request of another
  method asks for, and however it ends, every file that was on disk is still there with the
  same contents, apart from the request's own temporary files.
\<close>

theorem requests_never_overwrite:
  assumes "route_request x cd env request config w = (r, w')" and "hr_method request \<noteq> ''DELETE''"
    and "q \<notin> request_temporaries env (sg_folder_path config) request"
    and "dk_files (sw_disk w) q = Some bytes"
  shows "dk_files (sw_disk w') q = Some bytes"
  using withinD [OF kept_route_request [OF assms(2), of env config x cd], where s = w] assms(1,3,4)
  by (simp add: files_kept_def)

text \<open>
  C18: An accepted upload is what was announced. The target was free, it now has a text of
  the announced size and hash, the index has it as available with that size and hash, and
  the size fitted the space the folder had left.
\<close>

theorem upload_stores_announced_file:
  assumes "write_uploaded_file x cd env folder_path profile p expected hash secret_hex nonce_hex body w
      = (Inr reply, w')"
    and "aead_laws x" and "safe_path p" and "plain_name (sv_plain_uuid env @ ''.plain'')"
  shows "reply = UploadFileReply True p expected hash
    \<and> dk_files (sw_disk w) (path_push folder_path (path_str p)) = None
    \<and> (\<exists>plain. dk_files (sw_disk w') (path_push folder_path (path_str p)) = Some plain
        \<and> length plain = unat expected \<and> blake3_hex x plain = hash)
    \<and> (\<exists>row. find_row fr_path (path_str p) (db_files (sw_db w')) = Some row
        \<and> fr_size_bytes row = uint expected \<and> fr_content_hash row = Some hash
        \<and> fr_sync_state row = ''local_available'')
    \<and> (\<exists>folder status. folder_store_read (sv_io env 0) (sx_folder cd) \<lparr>st_root = folder_path\<rparr>
          (set_file (plaintext_path env folder_path) (dk_files (sw_disk w') (path_push folder_path (path_str p)))
            (sw_disk w)) = Inr folder
        \<and> folder_status x (sw_db w) = Inr status
        \<and> expected \<le> remaining_bytes (fc_size_limit (fd_folder folder)) (fs_indexed_bytes status))"
proof -
  note other = temporary_is_no_user_path [OF assms(3,4), of folder_path]
  from assms(1) obtain h w1 where
    1: "prepare_upload x cd env folder_path p expected hash secret_hex nonce_hex body w = (Inr h, w1)"
    and 2: "finish_upload x cd env folder_path profile p expected hash h w1 = (Inr reply, w')"
    by (auto simp: write_uploaded_file_def bind_op_Inr)
  from prepare_upload_Inr [OF 1 assms(2)] obtain plain folder status where p1: "h = hash"
    "w1 = w\<lparr>sw_disk := set_file (plaintext_path env folder_path) (Some plain) (sw_disk w)\<rparr>"
    "length plain = unat expected" "blake3_hex x plain = hash"
    "dk_files (sw_disk w1) (path_push folder_path (path_str p)) = None"
    "folder_store_read (sv_io env 0) (sx_folder cd) \<lparr>st_root = folder_path\<rparr> (sw_disk w1) = Inr folder"
    "folder_status x (sw_db w) = Inr status"
    "expected \<le> remaining_bytes (fc_size_limit (fd_folder folder)) (fs_indexed_bytes status)"
    by auto
  from finish_upload_Inr [OF 2] p1(2) obtain row where
    reply: "reply = UploadFileReply True p expected hash"
    and disk: "dk_files (sw_disk w') (path_push folder_path (path_str p)) = Some plain"
    and row: "file_row_of_entry x (sv_unixepoch env) (uploaded_entry env profile p expected h) = Inr row"
    and db: "sw_db w' = files_upsert row (sw_db w)"
    by auto
  have "dk_files (sw_disk w) (path_push folder_path (path_str p)) = None"
    using p1(2,5) other by auto
  moreover from row p1(1) have "row_key row = (path_str p, ''file'', uint expected, Some hash)"
    "scanned_row row"
    by (auto simp: uploaded_entry_def file_row_of_entry_def Let_def and_then_Inr_iff row_key_def
        i64_of_u64_Some_iff scanned_row_def)
  then have "\<exists>row'. find_row fr_path (path_str p) (db_files (sw_db w')) = Some row'
      \<and> fr_size_bytes row' = uint expected \<and> fr_content_hash row' = Some hash
      \<and> fr_sync_state row' = ''local_available''"
    unfolding db by (auto simp: find_files_upsert row_key_def scanned_row_def files_merge_def split: option.split)
  moreover have "folder_store_read (sv_io env 0) (sx_folder cd) \<lparr>st_root = folder_path\<rparr>
      (set_file (plaintext_path env folder_path) (dk_files (sw_disk w') (path_push folder_path (path_str p)))
        (sw_disk w)) = Inr folder"
    using p1(2,6) disk by simp
  ultimately show ?thesis using reply disk p1(3,4,7,8) by blast
qed

text \<open>
  C19: A deletion removes at most the requested file, and only if the scan made for the
  request read a file at that path with exactly the announced size and hash; every other
  outcome, whatever fails, leaves all files as they were.
\<close>

theorem deletion_needs_exact_match:
  assumes "delete_shared_file x cd env folder_path profile p expected hash w = (r, w')"
    and "database_ok (sw_db w)" and "node_named (sv_tree env)"
    and "dk_files (sw_disk w') q \<noteq> dk_files (sw_disk w) q"
  shows "q = path_push folder_path (path_str p) \<and> dk_files (sw_disk w') q = None
    \<and> (\<exists>(ns, bytes) \<in> set (node_contents [] (sv_tree env)).
        (\<exists>p'. relative_path_parse (indexed_path ns) = Inr p' \<and> path_eq (path_str p') (path_str p))
        \<and> len_u64 bytes = expected \<and> blake3_hex x bytes = hash)"
proof -
  from delete_shared_file_changes [OF assms(1,4)] obtain m t f where
    q: "q = path_push folder_path (path_str p)" "dk_files (sw_disk w') q = None"
    and m: "server_export_manifest x cd env folder_path profile w = (Inr m, t)" "find_shared m p = Inr f"
    and f: "rec_size_bytes f = expected" "rec_content_hash f = Some hash" by blast
  from exported_file_was_read [OF m assms(2,3)] f q show ?thesis by fastforce
qed

section \<open>Examples\<close>

text \<open>
  One trusted device, a folder with one file, and an upload of another file signed by the
  device; the third-party functions are the instance used for the agent.
\<close>

definition sample_server_codecs :: server_codecs where
  "sample_server_codecs =
     \<lparr>sx_folder = sample_codec,
      sx_peers = \<lparr>to_vec_pretty = (\<lambda>_. Inl ''read only''),
        from_slice = (\<lambda>_. Inr \<lparr>ps_schema_version = 1, ps_peers =
          [\<lparr>tp_device_id = DeviceId ''b'', tp_device_name = ''phone'', tp_endpoint = ''host:1'',
            tp_identity_public_hex = ''p'', tp_shared_secret_hex = replicate 32 CHR ''k'',
            tp_trusted_at = 1\<rparr>]\<rparr>)\<rparr>,
      sx_presence = (\<lambda>_. Inl ''unsupported''), sx_reply = (\<lambda>_. Inr ''{}''),
      sx_uuid = (\<lambda>s. Some (DeviceId s)), sx_version = ''0''\<rparr>"

definition sample_env :: "string \<Rightarrow> server_env" where
  "sample_env uuid =
     \<lparr>sv_now = 100, sv_later = 101, sv_unixepoch = 101, sv_scan_clock = (\<lambda>_. (1, 2)),
      sv_tree = DirNode [DirItem ''a'' (FileNode (Some 5) ''old'')], sv_io = (\<lambda>_. no_faults),
      sv_open_db = (\<lambda>_. None), sv_other_exists = (\<lambda>_. Inr False), sv_remove_fault = (\<lambda>_. None),
      sv_crypto_io = sample_io, sv_partial = None, sv_reads = (\<lambda>bytes. [Inr bytes]),
      sv_body_uuid = uuid, sv_plain_uuid = uuid, sv_response_uuid = uuid,
      sv_nonce = replicate 16 CHR ''n'', sv_send_fault = (\<lambda>_. None)\<rparr>"

definition sample_body :: "string \<Rightarrow> string \<Rightarrow> file_body" where
  "sample_body uuid content =
     \<lparr>fb_path = plaintext_path (sample_env uuid) ''/d'' @ ''.body'',
      fb_size_bytes = encrypted_len (len_u64 content), fb_sha256_hex = content\<rparr>"

definition sample_world :: server_world where
  "sample_world = \<lparr>sw_disk = \<lparr>dk_files = [''/d/.syncer/folder.json'' \<mapsto> ''f'', ''/p.json'' \<mapsto> ''p'',
      ''/d/a'' \<mapsto> ''old'', fb_path (sample_body ''1'' ''hello'') \<mapsto> ''hello'' @ replicate 16 CHR ''t'',
      fb_path (sample_body ''2'' ''other'') \<mapsto> ''other'' @ replicate 16 CHR ''t'']\<rparr>,
     sw_db = empty_database\<rparr>"

definition sample_config :: peer_server_config where
  "sample_config = \<lparr>sg_bind = ''[::]:1'', sg_folder_path = ''/d'', sg_peers_path = ''/p.json'',
     sg_profile = sample_profile\<rparr>"

definition sample_put :: "string \<Rightarrow> http_request" where
  "sample_put signature =
     \<lparr>hr_method = ''PUT'', hr_path = ''/file/b'',
      hr_headers = [''x-syncer-device-id'' \<mapsto> ''b'', ''x-syncer-timestamp'' \<mapsto> ''99'',
        ''x-syncer-signature'' \<mapsto> signature, ''x-syncer-file-size'' \<mapsto> ''5'',
        ''x-syncer-content-hash'' \<mapsto> ''hello'', ''x-syncer-encryption'' \<mapsto> encryption_algorithm,
        ''x-syncer-nonce'' \<mapsto> replicate 16 CHR ''n''],
      hr_body_sha256_hex = ''hello'', hr_body = SpooledBody (sample_body ''1'' ''hello'')\<rparr>"

definition sample_signature :: string where
  "sample_signature = replicate 32 CHR ''k''
     @ canonical_payload_with_body_hash_hex ''PUT'' ''/file/b'' ''b'' 99 ''hello''"


theorem requests_never_overwrite_witness:
  "\<exists>r w'. route_request sample_agent_externals sample_server_codecs (sample_env ''1'') (sample_put sample_signature)
     sample_config sample_world = (r, w') \<and> is_ok r \<and> dk_files (sw_disk w') ''/d/a'' = Some ''old''
     \<and> dk_files (sw_disk w') ''/d/b'' = Some ''hello''"
proof -
  let ?route = "route_request sample_agent_externals sample_server_codecs (sample_env ''1'')
      (sample_put sample_signature) sample_config sample_world"
  obtain r w' where r: "?route = (r, w')" by fastforce
  have "is_ok (fst ?route)" "dk_files (sw_disk (snd ?route)) ''/d/b'' = Some ''hello''" by code_simp+
  moreover have "''/d/a'' \<notin> request_temporaries (sample_env ''1'') (sg_folder_path sample_config)
      (sample_put sample_signature)" by code_simp
  moreover have "hr_method (sample_put sample_signature) \<noteq> ''DELETE''" by (simp add: sample_put_def)
  moreover have "dk_files (sw_disk sample_world) ''/d/a'' = Some ''old''" by code_simp
  ultimately show ?thesis using requests_never_overwrite [OF r] r by auto
qed

definition sample_upload :: "(peer_server_error + server_reply) \<times> server_world" where
  "sample_upload = write_uploaded_file sample_agent_externals sample_server_codecs (sample_env ''1'') ''/d''
     sample_profile (RelativePath ''b'') 5 ''hello'' (replicate 32 CHR ''k'') (replicate 16 CHR ''n'')
     (sample_body ''1'' ''hello'') sample_world"

theorem upload_stores_announced_file_witness:
  "\<exists>reply w'. sample_upload = (Inr reply, w') \<and> dk_files (sw_disk w') ''/d/b'' = Some ''hello''"
proof -
  have "is_ok (fst sample_upload)" by code_simp
  then obtain reply w' where u: "sample_upload = (Inr reply, w')" by (metis is_ok_iff prod.collapse)
  have "safe_path (RelativePath ''b'')" "plain_name (sv_plain_uuid (sample_env ''1'') @ ''.plain'')"
    "path_push ''/d'' (path_str (RelativePath ''b'')) = ''/d/b''" by code_simp+
  with upload_stores_announced_file [OF u [unfolded sample_upload_def] sample_aead_laws] u
  show ?thesis by (auto simp: sample_agent_externals_def)
qed

definition sample_deletion :: "(peer_server_error + server_reply) \<times> server_world" where
  "sample_deletion = delete_shared_file sample_agent_externals sample_server_codecs (sample_env ''1'') ''/d''
     sample_profile (RelativePath ''a'') 3 ''old'' sample_world"

theorem deletion_needs_exact_match_witness:
  "is_ok (fst sample_deletion) \<and> dk_files (sw_disk (snd sample_deletion)) ''/d/a'' = None"
proof -
  obtain r w' where d: "sample_deletion = (r, w')" by fastforce
  have ok: "is_ok (fst sample_deletion)"
    and "dk_files (sw_disk (snd sample_deletion)) ''/d/a'' \<noteq> dk_files (sw_disk sample_world) ''/d/a''"
    by code_simp+
  then have changed: "dk_files (sw_disk w') ''/d/a'' \<noteq> dk_files (sw_disk sample_world) ''/d/a''"
    by (simp only: d snd_conv not_False_eq_True)
  have "node_named (sv_tree (sample_env ''1''))" "database_ok (sw_db sample_world)" by code_simp+
  note gone = deletion_needs_exact_match [OF d [unfolded sample_deletion_def] this(2,1) changed]
  show ?thesis by (rule conjI [OF ok], simp only: d snd_conv, rule gone [THEN conjunct2, THEN conjunct1])
qed

text \<open>
  The target is checked and replaced in two calls, and connections are served concurrently:
  two uploads to one path can both find it free, both are accepted, and the first one's
  contents are lost.
\<close>

definition racing_uploads :: "string \<times> bool \<times> string option" where
  "racing_uploads =
     (let x = sample_agent_externals; cd = sample_server_codecs; p = RelativePath ''b'';
          secret = replicate 32 CHR ''k''; nonce = replicate 16 CHR ''n'';
          (r1, w1) = prepare_upload x cd (sample_env ''1'') ''/d'' p 5 ''hello'' secret nonce (sample_body ''1'' ''hello'') sample_world;
          (r2, w2) = prepare_upload x cd (sample_env ''2'') ''/d'' p 5 ''other'' secret nonce (sample_body ''2'' ''other'') w1;
          (r3, w3) = finish_upload x cd (sample_env ''1'') ''/d'' sample_profile p 5 ''hello'' ''hello'' w2;
          (r4, w4) = finish_upload x cd (sample_env ''2'') ''/d'' sample_profile p 5 ''other'' ''other'' w3
      in (case r1 of Inl _ \<Rightarrow> [] | Inr h \<Rightarrow> h, is_ok r2 \<and> is_ok r3 \<and> is_ok r4, dk_files (sw_disk w4) ''/d/b''))"

lemma racing_uploads_overwrite: "racing_uploads = (''hello'', True, Some ''other'')"
  by code_simp

end
