(* ===== verification/Wire_Headers.thy ===== *)
theory Wire_Headers
  imports Peer_Client Peer_Server
begin

text \<open>
  The wire format of a request: a header built from visible fields is parsed back to exactly
  these fields, whatever segments it arrives in; numbers survive their decimal form; a message
  with a declared body is read whole, into memory or into a spool file.
\<close>

section \<open>Lines of a header\<close>

text \<open>Visible ASCII without blanks, and a line of a header.\<close>

definition visible :: "string \<Rightarrow> bool" where
  "visible s \<longleftrightarrow> s \<noteq> [] \<and> list_all (\<lambda>c. 33 \<le> byte_of c \<and> byte_of c \<le> 126) s"

definition printable :: "string \<Rightarrow> bool" where
  "printable s \<longleftrightarrow> s \<noteq> [] \<and> list_all (\<lambda>c. 32 \<le> byte_of c \<and> byte_of c \<le> 126) s"

text \<open>Lines with line ends between them.\<close>

fun crlf_lines :: "string list \<Rightarrow> string" where
  "crlf_lines [] = []"
| "crlf_lines [l] = l"
| "crlf_lines (l # m # ls) = l @ crlf @ crlf_lines (m # ls)"

lemma crlf_lines_Cons: "ls \<noteq> [] \<Longrightarrow> crlf_lines (l # ls) = l @ crlf @ crlf_lines ls"
  by (cases ls) simp_all

lemma concat_crlf_lines: "ls \<noteq> [] \<Longrightarrow> concat (map (\<lambda>l. l @ crlf) ls) = crlf_lines ls @ crlf"
  by (induction ls rule: crlf_lines.induct) simp_all

lemma visible_printable: "visible s \<Longrightarrow> printable s"
  by (auto simp: visible_def printable_def list_all_iff)

lemma printable_append: "printable s \<Longrightarrow> printable t \<Longrightarrow> printable (s @ t)"
  by (simp add: printable_def)

lemma byte_newline: "byte_of newline = 10" "byte_of carriage_return = 13"
  by (simp_all add: byte_of_def newline_def carriage_return_def)

lemma printable_no_breaks: "printable l \<Longrightarrow> newline \<notin> set l" "printable l \<Longrightarrow> carriage_return \<notin> set l"
  by (auto simp: printable_def list_all_iff byte_newline dest!: bspec)

lemma strip_cr_line: "strip_cr (l @ [carriage_return]) = l"
  by (simp add: strip_cr_def)

lemma split_crlf_lines:
  assumes "ls \<noteq> []" and "\<forall>l \<in> set ls. printable l"
  shows "split_on newline (crlf_lines ls) = map (\<lambda>l. l @ [carriage_return]) (butlast ls) @ [last ls]"
  using assms
proof (induction ls)
  case (Cons l ls)
  show ?case
  proof (cases "ls = []")
    case True
    with Cons.prems show ?thesis by (simp add: split_on_single printable_no_breaks)
  next
    case False
    have "newline \<notin> set (l @ [carriage_return])"
      using Cons.prems printable_no_breaks(1) [of l] by (auto simp: newline_def carriage_return_def)
    from split_on_append_sep [OF this] Cons False show ?thesis
      by (simp add: crlf_lines_Cons crlf_def)
  qed
qed simp

lemma str_lines_crlf:
  assumes "ls \<noteq> []" and "\<forall>l \<in> set ls. printable l"
  shows "str_lines (crlf_lines ls) = ls"
proof -
  have "last ls \<noteq> []" using assms by (auto simp: printable_def)
  moreover have "map strip_cr (map (\<lambda>l. l @ [carriage_return]) (butlast ls)) = butlast ls"
    by (simp add: strip_cr_line comp_def)
  ultimately show ?thesis using assms(1)
    by (simp add: str_lines_def split_crlf_lines [OF assms] Let_def del: map_map)
qed

lemma find_header_end_skip:
  "carriage_return \<notin> set l \<Longrightarrow> find_header_end (l @ s) = map_option (\<lambda>n. length l + n) (find_header_end s)"
proof (induction l)
  case Nil
  then show ?case by (simp add: option.map_ident)
next
  case (Cons c l)
  then have "\<not> starts_with (crlf @ crlf) (c # l @ s)" by (auto simp: starts_with_def crlf_def)
  with Cons show ?case by (simp add: option.map_comp comp_def)
qed

lemma find_header_end_line:
  assumes "s \<noteq> []" and "hd s \<noteq> carriage_return"
  shows "find_header_end (crlf @ s) = map_option (\<lambda>n. 2 + n) (find_header_end s)"
proof -
  have "\<not> starts_with (crlf @ crlf) (crlf @ s)" and "\<not> starts_with (crlf @ crlf) (newline # s)"
    using assms by (cases s; auto simp: starts_with_def crlf_def newline_def carriage_return_def)+
  then show ?thesis by (simp add: crlf_def option.map_comp comp_def)
qed

lemma find_header_end_lines:
  assumes "ls \<noteq> []" and "\<forall>l \<in> set ls. printable l"
  shows "find_header_end (crlf_lines ls @ crlf @ crlf @ rest) = Some (length (crlf_lines ls))"
  using assms
proof (induction ls)
  case (Cons l ls)
  have l: "carriage_return \<notin> set l" using Cons.prems by (simp add: printable_no_breaks)
  show ?case
  proof (cases "ls = []")
    case True
    have "find_header_end (crlf @ crlf @ rest) = Some 0" by (simp add: crlf_def starts_with_def)
    with True find_header_end_skip [OF l, of "crlf @ crlf @ rest"] show ?thesis by simp
  next
    case False
    let ?s = "crlf_lines ls @ crlf @ crlf @ rest"
    have m: "printable (hd ls)" using Cons.prems False by simp
    have "hd ?s = hd (hd ls)" "?s \<noteq> []"
      using m False by (cases ls rule: crlf_lines.cases; auto simp: printable_def crlf_def)+
    moreover have "hd (hd ls) \<noteq> carriage_return"
      using printable_no_breaks(2) [OF m] m by (metis hd_in_set printable_def)
    ultimately have "find_header_end (crlf @ ?s) = Some (2 + length (crlf_lines ls))"
      using find_header_end_line [of ?s] Cons False by simp
    with find_header_end_skip [OF l, of "crlf @ ?s"] False show ?thesis
      by (simp add: crlf_lines_Cons crlf_def)
  qed
qed simp

lemma utf8_wf_ascii: "list_all (\<lambda>b. b < 128) bs \<Longrightarrow> utf8_wf bs"
  by (induction bs) simp_all

lemma printable_ascii: "printable s \<Longrightarrow> list_all (\<lambda>c. byte_of c < 128) s"
  by (auto simp: printable_def list_all_iff)

lemma from_utf8_lines:
  assumes "\<forall>l \<in> set ls. printable l"
  shows "from_utf8 (crlf_lines ls) = Some (crlf_lines ls)"
proof -
  have "list_all (\<lambda>c. byte_of c < 128) (crlf_lines ls)"
    using assms
    by (induction ls rule: crlf_lines.induct) (auto simp: crlf_def byte_newline printable_ascii)
  then show ?thesis by (simp add: from_utf8_def utf8_wf_ascii list_all_iff)
qed

section \<open>The header as it is read\<close>

lemma visible_byte: "visible s \<Longrightarrow> c \<in> set s \<Longrightarrow> 33 \<le> byte_of c \<and> byte_of c \<le> 126"
  by (simp add: visible_def list_all_iff)

lemma byte_space: "byte_of CHR '' '' = 32"
  by (simp add: byte_of_def)

lemma printable_chars:
  assumes "list_all (\<lambda>c. byte_of c < 128) s"
  shows "utf8_chars s = map (\<lambda>c. [c]) s"
proof (rule utf8_chars_ascii)
  show "list_all (\<lambda>c. \<not> is_continuation c) s"
    using assms by (auto simp: list_all_iff is_continuation_def)
qed

lemma whitespace_byte: "byte_of c < 128 \<Longrightarrow> is_whitespace [c] \<longleftrightarrow> byte_of c \<in> {9, 10, 11, 12, 13, 32}"
  by (auto simp: is_whitespace_def)

lemma visible_not_whitespace: "33 \<le> byte_of c \<and> byte_of c \<le> 126 \<Longrightarrow> \<not> is_whitespace [c]"
  using whitespace_byte [of c] by auto

lemma visible_ascii: "visible s \<Longrightarrow> list_all (\<lambda>c. byte_of c < 128) s"
  by (auto simp: visible_def list_all_iff)

lemma trim_visible:
  assumes "visible s"
  shows "trim s = s" and "trim (CHR '' '' # s) = s"
proof -
  have chars: "utf8_chars s = map (\<lambda>c. [c]) s" by (rule printable_chars [OF visible_ascii [OF assms]])
  have ne: "s \<noteq> []" using assms by (simp add: visible_def)
  have hd: "\<not> is_whitespace [hd s]" and last: "\<not> is_whitespace [last s]"
    using visible_byte [OF assms, of "hd s"] visible_byte [OF assms, of "last s"] ne visible_not_whitespace
    by simp_all
  show trim: "trim s = s"
    by (rule trim_eq_self [OF ne]) (use ne hd last in \<open>simp_all add: chars hd_map last_map\<close>)
  have "list_all (\<lambda>c. byte_of c < 128) (CHR '' '' # s)" using visible_ascii [OF assms] by (simp add: byte_space)
  from printable_chars [OF this] have "utf8_chars (CHR '' '' # s) = [CHR '' ''] # utf8_chars s" by (simp add: chars)
  moreover have "is_whitespace [CHR '' '']" by (simp add: is_whitespace_def byte_space)
  ultimately have "trim_start (CHR '' '' # s) = trim_start s" by (simp add: trim_start_def)
  with trim show "trim (CHR '' '' # s) = s" by (simp add: trim_def)
qed

definition field_name :: "string \<Rightarrow> bool" where
  "field_name n \<longleftrightarrow> visible n \<and> CHR '':'' \<notin> set n \<and> to_ascii_lowercase n = n"

definition field_text :: "string \<times> string \<Rightarrow> string" where
  "field_text f = fst f @ '': '' @ snd f"

definition fields_ok :: "(string \<times> string) list \<Rightarrow> bool" where
  "fields_ok fs \<longleftrightarrow> (\<forall>(n, v) \<in> set fs. field_name n \<and> visible v)"

lemma split_once_append: "c \<notin> set p \<Longrightarrow> split_once c (p @ c # s) = Some (p, s)"
  by (induction p) auto

lemma insert_header_field:
  "field_name n \<Longrightarrow> visible v \<Longrightarrow> insert_header (field_text (n, v)) headers = headers(n \<mapsto> v)"
  using split_once_append [of "CHR '':''" n "CHR '' '' # v"]
  by (simp add: insert_header_def field_text_def field_name_def trim_visible)

lemma fold_insert_header:
  "fields_ok fs \<Longrightarrow> fold insert_header (map field_text fs) headers = headers ++ map_of (rev fs)"
proof (induction fs arbitrary: headers)
  case (Cons f fs)
  obtain n v where f: "f = (n, v)" by fastforce
  have "headers(n \<mapsto> v) ++ map_of (rev fs) = headers ++ map_of (rev fs @ [(n, v)])"
    by (auto simp: map_add_def map_of_append fun_eq_iff split: option.split)
  with Cons f show ?case by (simp add: fields_ok_def insert_header_field)
qed simp

lemma whitespace_pieces_word:
  "list_all (\<lambda>c. 33 \<le> byte_of c \<and> byte_of c \<le> 126) w \<Longrightarrow> whitespace_pieces (map (\<lambda>c. [c]) w) = [w]"
  by (induction w) (simp_all add: visible_not_whitespace)

lemma whitespace_pieces_blank:
  assumes "list_all (\<lambda>c. 33 \<le> byte_of c \<and> byte_of c \<le> 126) w"
  shows "whitespace_pieces (map (\<lambda>c. [c]) w @ [CHR '' ''] # rest) = w # whitespace_pieces rest"
  using assms
proof (induction w)
  case Nil
  have "is_whitespace [CHR '' '']" by (simp add: is_whitespace_def byte_space)
  then show ?case by simp
qed (simp add: visible_not_whitespace)

definition request_line :: "string \<Rightarrow> string \<Rightarrow> string" where
  "request_line verb path = verb @ '' '' @ path @ '' HTTP/1.1''"

lemma visible_version: "visible ''HTTP/1.1''"
  by code_simp

lemma split_request_line:
  assumes "visible verb" and "visible path"
  shows "split_whitespace (request_line verb path) = [verb, path, ''HTTP/1.1'']"
proof -
  have "list_all (\<lambda>c. byte_of c < 128) (request_line verb path)"
    using assms [THEN visible_ascii] visible_ascii [OF visible_version]
    by (simp add: request_line_def byte_space)
  from printable_chars [OF this]
  have chars: "utf8_chars (request_line verb path) = map (\<lambda>c. [c]) verb @ [CHR '' '']
      # map (\<lambda>c. [c]) path @ [CHR '' ''] # map (\<lambda>c. [c]) ''HTTP/1.1''"
    by (simp add: request_line_def)
  have words: "list_all (\<lambda>c. 33 \<le> byte_of c \<and> byte_of c \<le> 126) verb"
    "list_all (\<lambda>c. 33 \<le> byte_of c \<and> byte_of c \<le> 126) path"
    "list_all (\<lambda>c. 33 \<le> byte_of c \<and> byte_of c \<le> 126) ''HTTP/1.1''"
    using assms visible_version by (simp_all add: visible_def)
  have "whitespace_pieces (utf8_chars (request_line verb path)) = [verb, path, ''HTTP/1.1'']"
    unfolding chars whitespace_pieces_blank [OF words(1)] whitespace_pieces_blank [OF words(2)]
      whitespace_pieces_word [OF words(3)] ..
  with assms show ?thesis by (simp add: split_whitespace_def visible_def)
qed

lemma printable_field: "fields_ok fs \<Longrightarrow> f \<in> set fs \<Longrightarrow> printable (field_text f)"
proof -
  assume "fields_ok fs" and "f \<in> set fs"
  then have "visible (fst f)" and "visible (snd f)" by (auto simp: fields_ok_def field_name_def)
  then have "printable (fst f)" and "printable (snd f)" by (simp_all add: visible_printable)
  moreover have "printable '': ''" by code_simp
  ultimately show "printable (field_text f)" by (simp add: field_text_def printable_def)
qed

lemma printable_request_line: "visible verb \<Longrightarrow> visible path \<Longrightarrow> printable (request_line verb path)"
  using visible_printable [OF visible_version]
  by (auto simp: request_line_def visible_def printable_def list_all_iff byte_space)

definition head_text :: "string \<Rightarrow> string \<Rightarrow> (string \<times> string) list \<Rightarrow> string" where
  "head_text verb path fs = crlf_lines (request_line verb path # map field_text fs)"

text \<open>Whatever fields are written, the server reads them, and the last of a name counts.\<close>

lemma parse_head_text:
  assumes "visible verb" and "visible path" and "CHR ''?'' \<notin> set path" and "fields_ok fs"
  shows "parse_head (head_text verb path fs) = Inr (verb, path, map_of (rev fs))"
proof -
  have lines: "\<forall>l \<in> set (request_line verb path # map field_text fs). printable l"
    using printable_request_line [OF assms(1,2)] printable_field [OF assms(4)] by auto
  have "split_on CHR ''?'' path = [path]" by (rule split_on_single [OF assms(3)])
  then show ?thesis
    using str_lines_crlf [OF _ lines] from_utf8_lines [OF lines] split_request_line [OF assms(1,2)]
      fold_insert_header [OF assms(4), of "\<lambda>_. None"]
    by (simp add: parse_head_def parse_headers_def head_text_def first_piece_def map_add_def)
qed

lemma head_text_end:
  assumes "visible verb" and "visible path" and "fields_ok fs"
  shows "find_header_end (head_text verb path fs @ crlf @ crlf @ rest) = Some (length (head_text verb path fs))"
  unfolding head_text_def
  by (rule find_header_end_lines)
    (use printable_request_line [OF assms(1,2)] printable_field [OF assms(3)] in auto)

section \<open>Numbers in headers\<close>

lemma digit_visible: "is_digit c \<Longrightarrow> 33 \<le> byte_of c \<and> byte_of c \<le> 126"
  by (simp add: is_digit_def)

lemma visible_show_nat: "visible (show_nat n)"
  using show_nat_digits [of n] show_nat_nonempty [of n]
  by (auto simp: visible_def list_all_iff dest: digit_visible)

lemma visible_show_int: "visible (show_int t)"
proof -
  have minus: "33 \<le> byte_of CHR ''-'' \<and> byte_of CHR ''-'' \<le> 126" by (simp add: byte_of_def)
  have "list_all (\<lambda>c. 33 \<le> byte_of c \<and> byte_of c \<le> 126) (show_nat n)" for n
    using visible_show_nat [of n] by (simp add: visible_def)
  with minus show ?thesis by (simp add: visible_def show_int_def show_nat_nonempty)
qed

lemma show_nat_head: "show_nat n = c # s \<Longrightarrow> c \<noteq> CHR ''+'' \<and> c \<noteq> CHR ''-''"
  using show_nat_digits [of n] by (auto simp: is_digit_def byte_of_def)

lemma strip_plus_show: "strip_plus (show_nat n) = show_nat n"
  using show_nat_head [of n] by (auto simp: strip_plus_def split: list.split)

lemma parse_digits_show: "parse_digits (show_nat n) = Some n"
  by (simp add: parse_digits_def show_nat_digits show_nat_nonempty digits_value_show)

lemma parse_u64_show: "n < 2 ^ 64 \<Longrightarrow> parse_u64 (show_nat n) = Some (of_nat n)"
proof -
  assume "n < 2 ^ 64"
  then have "int n < 2 ^ 64" by (metis of_nat_less_iff of_nat_numeral of_nat_power)
  then show ?thesis by (simp add: parse_u64_def strip_plus_show parse_digits_show)
qed

lemma parse_i64_show:
  assumes "i64_range t"
  shows "parse_i64 (show_int t) = Some t"
proof (cases "t < 0")
  case True
  with assms show ?thesis
    by (simp add: parse_i64_def show_int_def parse_digits_show Let_def)
next
  case False
  obtain c s where digits: "show_nat (nat t) = c # s" using show_nat_nonempty by (cases "show_nat (nat t)") auto
  from show_nat_head [OF digits] False assms strip_plus_show [of "nat t"] parse_digits_show [of "nat t"]
  show ?thesis by (simp add: parse_i64_def show_int_def digits Let_def)
qed

section \<open>A message that is read\<close>

text \<open>The fields name the length of the body once, as the last of its name.\<close>

definition announces :: "(string \<times> string) list \<Rightarrow> string \<Rightarrow> bool" where
  "announces fs body \<longleftrightarrow> map_of (rev fs) ''content-length'' = Some (show_nat (length body))
     \<and> length body < 2 ^ 64"

definition message :: "string \<Rightarrow> string \<Rightarrow> (string \<times> string) list \<Rightarrow> string \<Rightarrow> string" where
  "message verb path fs body = head_text verb path fs @ crlf @ crlf @ body"

definition wire_path :: "string \<Rightarrow> bool" where
  "wire_path path \<longleftrightarrow> visible path \<and> CHR ''?'' \<notin> set path"

lemma unat_of_length: "length (s :: string) < 2 ^ 64 \<Longrightarrow> unat (of_nat (length s) :: u64) = length s"
  by (simp add: unat_of_nat)

lemma announced_length:
  "announces fs body \<Longrightarrow> unat (declared_length (map_of (rev fs))) = length body"
  by (simp add: announces_def declared_length_def parse_u64_show unat_of_length)

lemma message_framed:
  assumes "visible verb" and "wire_path path" and "fields_ok fs"
  shows "find_header_end (message verb path fs body) = Some (length (head_text verb path fs))"
    and "parse_head (take (length (head_text verb path fs)) (message verb path fs body))
      = Inr (verb, path, map_of (rev fs))"
    and "drop (length (head_text verb path fs) + 4) (message verb path fs body) = body"
  using head_text_end [OF assms(1) _ assms(3)] parse_head_text [OF assms(1) _ _ assms(3)] assms(2)
  by (simp_all add: message_def wire_path_def crlf_def)

lemma message_length:
  assumes "visible verb" and "wire_path path" and "fields_ok fs" and "announces fs body"
    and "parse_head (take (length (head_text verb path fs)) (message verb path fs body)) = Inr (verb', path', headers)"
  shows "unat (declared_length headers) + length (head_text verb path fs) + 4 = length (message verb path fs body)"
proof -
  have "headers = map_of (rev fs)" using assms(5) message_framed(2) [OF assms(1,2,3)] by simp
  with announced_length [OF assms(4)] show ?thesis by (simp add: message_def crlf_def)
qed

text \<open>Parsing a message whose body is kept in memory, and one whose body goes to a file.\<close>

lemma parse_message:
  assumes "visible verb" and "wire_path path" and "fields_ok fs" and "announces fs body"
    and "verb \<noteq> ''PUT''" and "length body \<le> unat max_memory_body_bytes"
  shows "outcome (parse_request x io folder uuid (message verb path fs body) ([], d)) = (Inr
    \<lparr>hr_method = verb, hr_path = path, hr_headers = map_of (rev fs),
     hr_body_sha256_hex = hex_encode x (sha256 x body), hr_body = MemoryBody body\<rparr>, d)"
proof -
  let ?len = "declared_length (map_of (rev fs))"
  note len = announced_length [OF assms(4)] and framed = message_framed [OF assms(1,2,3), of body]
  have small: "\<not> max_memory_body_bytes < ?len" using assms(6) len by (simp add: word_less_nat_alt)
  have "memory_body_loop (unat ?len) body [] = (Inr body, [])"
    by (subst memory_body_loop.simps) (simp add: len)
  then have body: "on_stream (read_memory_body body ?len) ([], d) = (Inr (MemoryBody body), [], d)"
    using small len by (simp add: on_stream_def read_memory_body_def bind_op_def)
  have "\<not> should_spool_body verb path ?len" using assms(5) by (simp add: should_spool_body_def)
  then show ?thesis
    unfolding parse_request_def framed ok_or_simps bind_op_lift Let_def split_conv
    by (simp add: bind_op_def body outcome_def)
qed

definition spooled :: "'x agent_externals_scheme \<Rightarrow> string \<Rightarrow> string \<Rightarrow> string \<Rightarrow> file_body" where
  "spooled x folder uuid body =
     \<lparr>fb_path = path_push (requests_dir folder) (uuid @ ''.body''), fb_size_bytes = of_nat (length body),
      fb_sha256_hex = hex_encode x (sha256 x body)\<rparr>"

definition spooled_request ::
  "'x agent_externals_scheme \<Rightarrow> string \<Rightarrow> string \<Rightarrow> string \<Rightarrow> (string \<times> string) list \<Rightarrow> string \<Rightarrow> http_request" where
  "spooled_request x folder uuid path fs body =
     \<lparr>hr_method = ''PUT'', hr_path = path, hr_headers = map_of (rev fs),
      hr_body_sha256_hex = hex_encode x (sha256 x body), hr_body = SpooledBody (spooled x folder uuid body)\<rparr>"

lemma parse_spooled:
  assumes "wire_path path" and "fields_ok fs" and "announces fs body" and "no_spool_faults io"
    and "starts_with ''/file/'' path" and "body \<noteq> []"
  shows "outcome (parse_request x io folder uuid (message ''PUT'' path fs body) ([], d))
    = (Inr (spooled_request x folder uuid path fs body),
       set_file (path_push (requests_dir folder) (uuid @ ''.body'')) (Some body) d)"
proof -
  let ?len = "declared_length (map_of (rev fs))"
  have put: "visible ''PUT''" by code_simp
  note len = announced_length [OF assms(3)] and framed = message_framed [OF put assms(1,2), of body]
  have word: "?len = len_u64 body" "of_nat (length body) = ?len"
    using len assms(3) unat_of_length [of body] by (simp_all add: len_u64_def word_unat_eq_iff announces_def)
  have pos: "0 < ?len" using assms(6) len by (simp add: word_less_nat_alt)
  have spool: "spool_body io file_path body ?len ([], []) = (Inr (), [], body)" for file_path
    using assms(4,6) word(1)
    by (simp add: spool_body_def spool_write_def no_spool_faults_def bind_op_def file_body_loop.simps)
  have body: "read_file_body x io folder uuid body ?len ([], d)
      = (Inr (SpooledBody (spooled x folder uuid body)),
         [], set_file (path_push (requests_dir folder) (uuid @ ''.body'')) (Some body) d)"
    using assms(4) word(1) unfolding spooled_def word(2)
    by (simp add: read_file_body_def spool [unfolded word(1)] no_spool_faults_def Let_def)
  have "should_spool_body ''PUT'' path ?len" using assms(5) pos by (simp add: should_spool_body_def)
  then show ?thesis
    unfolding parse_request_def framed ok_or_simps bind_op_lift Let_def split_conv
    by (simp add: bind_op_def body outcome_def spooled_request_def spooled_def)
qed

text \<open>The same from a connection: there is room for the header, or reading succeeded.\<close>

lemma read_head_Inr:
  assumes "read_head buffer s = (Inr b, s')" and "stream_bytes s = Some rest"
    and "find_header_end (buffer @ rest) = Some n" and "find_header_end buffer = None"
  shows "\<exists>more rest'. b = buffer @ more \<and> rest = more @ rest' \<and> stream_bytes s' = Some rest'
    \<and> find_header_end b = Some n"
  using assms
proof (induction buffer s arbitrary: rest rule: read_head.induct)
  case (1 buffer s)
  have "rest \<noteq> []" using 1(4,5) by auto
  then obtain c s1 rest1 where r: "tcp_read 4096 s = (Inr c, s1)" "c \<noteq> []" "rest = c @ rest1"
    "stream_bytes s1 = Some rest1"
    using tcp_read_delivers [OF 1(3) \<open>rest \<noteq> []\<close>, of 4096] by (metis zero_less_numeral)
  from 1(2) r(1,2) have fits: "\<not> max_header_bytes < length (buffer @ c)"
    by (subst (asm) read_head.simps) (auto split: if_splits)
  show ?case
  proof (cases "find_header_end (buffer @ c)")
    case None
    from 1(2) r(1,2) fits None have "read_head (buffer @ c) s1 = (Inr b, s')"
      by (subst (asm) read_head.simps) simp
    from 1(1) [OF r(1)[symmetric] refl r(2) fits _ this r(4)] 1(4) r(3) None show ?thesis by auto
  next
    case (Some m)
    from 1(2) r(1,2) fits Some have "b = buffer @ c" "s' = s1"
      by (subst (asm) read_head.simps; simp)+
    moreover have "m = n" using find_header_end_append [OF Some, of rest1] 1(4) r(3) by simp
    ultimately show ?thesis using r(3,4) Some by auto
  qed
qed

lemma message_parsed_Inr:
  assumes "visible verb" and "wire_path path" and "fields_ok fs" and "announces fs body"
    and "stream_bytes s = Some (message verb path fs body)" and "no_spool_faults io"
    and "read_request x io folder uuid (s, d) = (Inr request, c)"
  shows "outcome (read_request x io folder uuid (s, d))
    = outcome (parse_request x io folder uuid (message verb path fs body) ([], d))"
proof -
  let ?n = "length (head_text verb path fs)" and ?bytes = "message verb path fs body"
  from assms(7) obtain b s' where b: "read_head [] s = (Inr b, s')"
    by (auto simp: read_request_def bind_op_def on_stream_def split: prod.splits sum.splits)
  from read_head_Inr [OF b assms(5)] message_framed(1) [OF assms(1,2,3)] obtain rest' where
    r: "?bytes = b @ rest'" "stream_bytes s' = Some rest'" "find_header_end b = Some ?n" by auto
  have head: "take ?n b = take ?n ?bytes" using find_header_end_bound [OF r(3)] r(1) by simp
  have "outcome (parse_request x io folder uuid b (s', d)) = outcome (parse_request x io folder uuid (b @ rest') ([], d))"
  proof (rule parse_request_whole [OF r(2,3) _ assms(6)])
    fix verb' path' headers
    assume "parse_head (take ?n b) = Inr (verb', path', headers)"
    from message_length [OF assms(1,2,3,4) this [unfolded head]]
    show "unat (declared_length headers) + ?n + 4 = length (b @ rest')" using r(1) by simp
  qed
  moreover have "read_request x io folder uuid (s, d) = parse_request x io folder uuid b (s', d)"
    by (simp add: read_request_def bind_op_def on_stream_def b)
  ultimately show ?thesis using r(1) by simp
qed

lemma message_read:
  assumes "visible verb" and "wire_path path" and "fields_ok fs" and "announces fs body"
    and "stream_bytes s = Some (message verb path fs body)"
    and "length (head_text verb path fs) + 4100 \<le> max_header_bytes" and "no_spool_faults io"
    and "verb \<noteq> ''PUT''" and "length body \<le> unat max_memory_body_bytes"
  shows "outcome (read_request x io folder uuid (s, d)) = (Inr
    \<lparr>hr_method = verb, hr_path = path, hr_headers = map_of (rev fs),
     hr_body_sha256_hex = hex_encode x (sha256 x body), hr_body = MemoryBody body\<rparr>, d)"
  by (rule trans [OF read_request_whole [OF assms(5) message_framed(1) [OF assms(1,2,3)] assms(6)
      message_length [OF assms(1,2,3,4)] assms(7)] parse_message [OF assms(1,2,3,4,8,9)]])

lemma message_spooled:
  assumes "wire_path path" and "fields_ok fs" and "announces fs body"
    and "stream_bytes s = Some (message ''PUT'' path fs body)" and "no_spool_faults io"
    and "starts_with ''/file/'' path" and "body \<noteq> []"
    and "read_request x io folder uuid (s, d) = (Inr request, c)"
  shows "request = spooled_request x folder uuid path fs body"
    and "snd c = set_file (path_push (requests_dir folder) (uuid @ ''.body'')) (Some body) d"
proof -
  have "visible ''PUT''" by code_simp
  from trans [OF message_parsed_Inr [OF this assms(1,2,3,4,5,8)] parse_spooled [OF assms(1,2,3,5,6,7)]]
  show "request = spooled_request x folder uuid path fs body"
    and "snd c = set_file (path_push (requests_dir folder) (uuid @ ''.body'')) (Some body) d"
    by (simp_all add: assms(8) outcome_def)
qed

end
