(* ===== verification/Sync_Agent.thy ===== *)
theory Sync_Agent
  imports Peer_Client Folder_Scanner
begin

text \<open>
  The synchronisation itself, from \<open>main.rs\<close> of the agent: the execution of queued uploads
  and downloads, the run over the queue, a complete synchronisation and its loop. An
  operation works on the local disk, the state database and the peer; the answers of the
  operating system and the clocks are arguments.
\<close>

section \<open>Errors and their texts\<close>

datatype transfer_error =
    LocalFileMissing
  | LocalPathIsNotFile
  | LocalHashMissing
  | LocalFileChanged
  | RemoteFileMissing
  | RemotePathIsNotFile
  | RemoteHashMissing
  | RemoteFileChanged
  | RemoteTargetExists
  | RemoteDeleteRejected
  | UploadRejected
  | LocalTargetExists
  | SizeMismatch u64 u64
  | TransferHashMismatch
  | TransferLimitExceeded u64 u64
  | TransferFilesystem string string
  | TransferClient peer_client_error
  | TransferCore core_error

text \<open>
  The messages of the errors (\<open>Display\<close>); a failed operation keeps its message in the
  database.
\<close>

fun core_error_text :: "core_error \<Rightarrow> string" where
  "core_error_text InvalidDeviceName = ''device name must contain 1..=64 non-control characters''"
| "core_error_text EmptyRelativePath = ''relative path is empty''"
| "core_error_text AbsoluteRelativePath = ''relative path must not be absolute''"
| "core_error_text TraversalRelativePath = ''relative path must not contain traversal components''"
| "core_error_text SyncerMetadataPath = ''relative path must not target the .syncer metadata directory''"
| "core_error_text InvalidFolderLimit = ''folder size limit must be greater than zero''"
| "core_error_text InvalidWarningThreshold = ''warning threshold must be between 1 and 100''"
| "core_error_text InvalidPublicKeyLength = ''public key must contain exactly 32 bytes''"
| "core_error_text ExpiredPairingTicket = ''pairing ticket must not be expired at creation time''"
| "core_error_text (UnsupportedFolderSchema found) =
     ''folder configuration schema version '' @ show_nat (unat found) @ '' is not supported''"
| "core_error_text NativeStorageRootRequired =
     ''storage root must be a native filesystem path for this operation''"
| "core_error_text (Filesystem path message) =
     ''failed filesystem operation at '' @ path @ '': '' @ message"
| "core_error_text (Json message) = ''failed to serialize or deserialize JSON: '' @ message"
| "core_error_text (StateDatabaseError message) = ''state database error: '' @ message"
| "core_error_text FileSizeOverflow = ''file size exceeded supported range''"

fun signing_error_text :: "signing_error \<Rightarrow> string" where
  "signing_error_text (SigningHex message) = ''hex decode error: '' @ message"
| "signing_error_text InvalidSecret = ''invalid shared secret''"
| "signing_error_text InvalidSignature = ''invalid request signature''"

fun peer_crypto_error_text :: "peer_crypto_error \<Rightarrow> string" where
  "peer_crypto_error_text (CryptoHex message) = ''hex decode error: '' @ message"
| "peer_crypto_error_text (CryptoIo message) = ''I/O error: '' @ message"
| "peer_crypto_error_text CryptoInvalidSharedSecret = ''invalid shared secret''"
| "peer_crypto_error_text CryptoInvalidNonce = ''invalid nonce''"
| "peer_crypto_error_text CryptoEncrypt = ''encryption failed''"
| "peer_crypto_error_text CryptoDecrypt = ''decryption failed''"
| "peer_crypto_error_text InvalidCiphertext = ''invalid ciphertext''"
| "peer_crypto_error_text CryptoSizeOverflow = ''file size exceeded supported range''"
| "peer_crypto_error_text (UnexpectedPlaintextSize expected actual) =
     ''unexpected plaintext size: expected '' @ show_nat (unat expected)
     @ '', got '' @ show_nat (unat actual)"

fun peer_client_error_text :: "peer_client_error \<Rightarrow> string" where
  "peer_client_error_text UnsupportedEndpoint = ''endpoint must use http://host:port''"
| "peer_client_error_text (ClientIo message) = ''I/O error: '' @ message"
| "peer_client_error_text (ClientJson message) = ''JSON error: '' @ message"
| "peer_client_error_text InvalidResponse = ''invalid HTTP response''"
| "peer_client_error_text (HttpStatus status) = ''peer returned HTTP '' @ show_nat (unat status)"
| "peer_client_error_text (UnexpectedContentLength expected actual) =
     ''unexpected content length: expected '' @ show_nat (unat expected)
     @ '', got '' @ show_nat (unat actual)"
| "peer_client_error_text PlaintextHashMismatch =
     ''plaintext hash does not match the queued content hash''"
| "peer_client_error_text (ClientPeerCrypto e) = peer_crypto_error_text e"
| "peer_client_error_text (ClientSigning e) = signing_error_text e"

fun transfer_error_text :: "transfer_error \<Rightarrow> string" where
  "transfer_error_text LocalFileMissing = ''local file is missing''"
| "transfer_error_text LocalPathIsNotFile = ''local path is not a regular file''"
| "transfer_error_text LocalHashMissing = ''local file hash is missing''"
| "transfer_error_text LocalFileChanged = ''local file changed after this operation was queued''"
| "transfer_error_text RemoteFileMissing = ''remote file is missing''"
| "transfer_error_text RemotePathIsNotFile = ''remote path is not a regular file''"
| "transfer_error_text RemoteHashMissing = ''remote file hash is missing''"
| "transfer_error_text RemoteFileChanged = ''remote file changed after this operation was queued''"
| "transfer_error_text RemoteTargetExists = ''remote target already exists''"
| "transfer_error_text RemoteDeleteRejected = ''peer rejected remote delete''"
| "transfer_error_text UploadRejected = ''peer rejected uploaded file''"
| "transfer_error_text LocalTargetExists = ''local target already exists''"
| "transfer_error_text (SizeMismatch expected actual) =
     ''downloaded size mismatch: expected '' @ show_nat (unat expected)
     @ '', got '' @ show_nat (unat actual)"
| "transfer_error_text TransferHashMismatch = ''downloaded file hash does not match remote manifest''"
| "transfer_error_text (TransferLimitExceeded remaining requested) =
     ''folder size limit exceeded: requested '' @ show_nat (unat requested)
     @ '', remaining '' @ show_nat (unat remaining)"
| "transfer_error_text (TransferFilesystem path source) =
     ''filesystem error at '' @ path @ '': '' @ source"
| "transfer_error_text (TransferClient e) = peer_client_error_text e"
| "transfer_error_text (TransferCore e) = core_error_text e"

datatype agent_error =
    AgentCore core_error
  | DateTime string
  | InvalidPendingTransfer
  | MissingDeletePeerConfig
  | CreateDirectory string string
  | CreateConfig string string
  | WriteConfig string string
  | AgentJson string
  | AgentProfileRead profile_read_error
  | AgentPeerServer peer_server_error
  | AgentPeerClient peer_client_error
  | AgentPeerStore peer_store_error
  | AgentTransfer transfer_error

section \<open>The agent's world\<close>

record 'p agent_world = "'p client_world" +
  aw_db :: state_database

text \<open>
  The answers during one step of the agent: faults of the file calls and of opening the
  database, by number; the directory tree and the clocks of a scan; SQLite's clock, by
  number of the statement; the clock; what besides regular files exists; the errors of
  removing; the answers during the requests, by number; a fresh identifier; an error of
  printing the result.
\<close>

record 'p agent_env =
  ag_io :: "nat \<Rightarrow> io_faults"
  ag_open_db :: "nat \<Rightarrow> core_error option"
  ag_tree :: fs_node
  ag_scan_clock :: scan_clock
  ag_unixepoch :: "nat \<Rightarrow> int"
  ag_now :: datetime
  ag_other_exists :: "string \<Rightarrow> string + bool"
  ag_remove_fault :: "string \<Rightarrow> string option"
  ag_client :: "nat \<Rightarrow> 'p client_env"
  ag_operation_id :: operation_id
  ag_print_fault :: "agent_error option"

record agent_codecs =
  ax_folder :: folder_codec
  ax_profile :: "local_device_profile json_codec"
  ax_client :: client_codecs
  ax_version :: string

type_synonym ('p, 'a) transfer_op = "('p agent_world, transfer_error, 'a) stateful"
type_synonym ('p, 'a) agent_op = "('p agent_world, agent_error, 'a) stateful"

definition on_database :: "(core_error \<Rightarrow> 'e) \<Rightarrow> 'a db_op \<Rightarrow> ('p agent_world, 'e, 'a) stateful" where
  "on_database g m = (\<lambda>w. case m (aw_db w) of (r, db) \<Rightarrow> (map_err g r, w\<lparr>aw_db := db\<rparr>))"

definition on_files ::
  "(string \<Rightarrow> 'e) \<Rightarrow> (disk, string, 'a) stateful \<Rightarrow> ('p agent_world, 'e, 'a) stateful" where
  "on_files g m = (\<lambda>w. case m (cw_disk w) of (r, d) \<Rightarrow> (map_err g r, w\<lparr>cw_disk := d\<rparr>))"

text \<open>\<open>store.root().join(path)\<close>.\<close>

definition local_target :: "folder_store \<Rightarrow> relative_path \<Rightarrow> string" where
  "local_target store p = path_push (st_root store) (path_str p)"

section \<open>Downloads\<close>

record transfer_result =
  tr_operation_id :: string
  tr_path :: relative_path
  tr_status :: string
  tr_size_bytes :: u64
  tr_error :: "string option"

text \<open>The file the peer lists for the operation and its hash, unless something changed.\<close>

definition remote_source ::
  "folder_manifest \<Rightarrow> sync_operation_record \<Rightarrow> transfer_error + (file_record \<times> string)" where
  "remote_source remote_manifest operation =
     and_then (ok_or RemoteFileMissing
       (find (\<lambda>file. path_eq (path_str (rec_path file)) (path_str (op_path operation)))
         (fm_files remote_manifest))) (\<lambda>remote_file.
     if rec_kind remote_file \<noteq> FileK then Inl RemotePathIsNotFile
     else
     and_then (ok_or RemoteHashMissing (case op_remote_content_hash operation of
         Some hash \<Rightarrow> Some hash | None \<Rightarrow> rec_content_hash remote_file)) (\<lambda>expected_hash.
     if rec_content_hash remote_file \<noteq> Some expected_hash then Inl RemoteFileChanged
     else if (case op_remote_size_bytes operation of
         None \<Rightarrow> False | Some size_bytes \<Rightarrow> size_bytes \<noteq> rec_size_bytes remote_file)
     then Inl RemoteFileChanged
     else Inr (remote_file, expected_hash)))"

definition read_agent_folder ::
  "(core_error \<Rightarrow> 'e) \<Rightarrow> agent_codecs \<Rightarrow> io_faults \<Rightarrow> folder_store
     \<Rightarrow> ('p agent_world, 'e, folder_document) stateful" where
  "read_agent_folder g ax f store =
     read_op (\<lambda>w. map_err g (folder_store_read f (ax_folder ax) store (cw_disk w)))"

definition enforce_local_download_limit ::
  "'x agent_externals_scheme \<Rightarrow> agent_codecs \<Rightarrow> 'p agent_env \<Rightarrow> folder_store \<Rightarrow> relative_path \<Rightarrow> u64
     \<Rightarrow> ('p, unit) transfer_op" where
  "enforce_local_download_limit x ax env store p size_bytes =
     bind_op (read_agent_folder TransferCore ax (ag_io env 0) store) (\<lambda>folder.
     bind_op (on_database TransferCore (read_op (folder_status x))) (\<lambda>status.
     (let remaining = remaining_bytes (fc_size_limit (fd_folder folder)) (fs_indexed_bytes status) in
      if remaining < size_bytes then
        bind_op (on_database TransferCore (record_skipped_folder_limit x (ag_unixepoch env 0)
          \<lparr>pt_operation_id = ag_operation_id env, pt_path = p, pt_size_bytes = size_bytes,
           pt_queued_at = ag_now env\<rparr>)) (\<lambda>_.
          lift_result (Inl (TransferLimitExceeded remaining size_bytes)))
      else lift_result (Inr ()))))"

text \<open>Is there a file, and may it be replaced? It may if the index still has what was queued.\<close>

definition same_as_queued :: "sync_operation_record \<Rightarrow> file_record \<Rightarrow> bool" where
  "same_as_queued operation file \<longleftrightarrow>
     path_eq (path_str (rec_path file)) (path_str (op_path operation))
     \<and> op_local_content_hash operation = rec_content_hash file
     \<and> op_local_size_bytes operation = Some (rec_size_bytes file)"

definition replaceable_target ::
  "'x agent_externals_scheme \<Rightarrow> 'p agent_env \<Rightarrow> folder_store \<Rightarrow> sync_operation_record
     \<Rightarrow> ('p, bool) transfer_op" where
  "replaceable_target x env store operation =
     (let target = local_target store (op_path operation) in
      bind_op (read_op (\<lambda>w. map_err (TransferFilesystem target)
         (try_exists (ag_other_exists env) target (cw_disk w)))) (\<lambda>target_exists.
      if \<not> target_exists then lift_result (Inr False)
      else bind_op (on_database TransferCore (read_op (list_files x))) (\<lambda>files.
        if list_ex (same_as_queued operation) files then lift_result (Inr True)
        else lift_result (Inl LocalTargetExists))))"

definition downloads_dir :: "folder_store \<Rightarrow> string" where
  "downloads_dir store = path_push (path_push (syncer_dir store) ''tmp'') ''downloads''"

definition part_path :: "folder_store \<Rightarrow> string \<Rightarrow> string" where
  "part_path store operation_id = path_push (downloads_dir store) (operation_id @ ''.part'')"

definition download_temporary_path ::
  "'p agent_env \<Rightarrow> folder_store \<Rightarrow> string \<Rightarrow> ('p, string) transfer_op" where
  "download_temporary_path env store operation_id =
     bind_op (on_files (TransferFilesystem (downloads_dir store))
       (fs_create_dir_all (ag_io env 1) (downloads_dir store))) (\<lambda>_.
       lift_result (Inr (part_path store operation_id)))"

definition publish_download ::
  "'p agent_env \<Rightarrow> folder_store \<Rightarrow> relative_path \<Rightarrow> string \<Rightarrow> ('p, unit) transfer_op" where
  "publish_download env store p temporary =
     (let target = local_target store p in
      bind_op (case path_parent target of
          None \<Rightarrow> lift_result (Inr ())
        | Some parent \<Rightarrow> on_files (TransferFilesystem parent) (fs_create_dir_all (ag_io env 2) parent)) (\<lambda>_.
        on_files (TransferFilesystem target) (fs_rename (ag_io env 2) temporary target)))"

definition downloaded_entry ::
  "'p agent_env \<Rightarrow> local_device_profile \<Rightarrow> relative_path \<Rightarrow> file_record \<Rightarrow> transferred_file \<Rightarrow> file_entry" where
  "downloaded_entry env profile p remote_file transferred =
     \<lparr>fe_path = p, fe_kind = FileK, fe_size_bytes = tf_size_bytes transferred,
      fe_modified_at = ag_now env, fe_content_hash = Some (ContentHash (tf_content_hash transferred)),
      fe_block_hashes = [],
      fe_version = \<lparr>fv_generation = rec_generation remote_file, fv_device_id = lp_device_id profile\<rparr>\<rparr>"

definition transfer_done :: "sync_operation_record \<Rightarrow> u64 \<Rightarrow> transfer_result" where
  "transfer_done operation size_bytes =
     \<lparr>tr_operation_id = op_id operation, tr_path = op_path operation, tr_status = ''done'',
      tr_size_bytes = size_bytes, tr_error = None\<rparr>"

text \<open>From the checked temporary file on: replace, publish, index, and close the operation.\<close>

definition finish_download ::
  "'x agent_externals_scheme \<Rightarrow> 'p agent_env \<Rightarrow> folder_store \<Rightarrow> local_device_profile
     \<Rightarrow> sync_operation_record \<Rightarrow> file_record \<Rightarrow> bool \<Rightarrow> string \<Rightarrow> transferred_file
     \<Rightarrow> ('p, transfer_result) transfer_op" where
  "finish_download x env store profile operation remote_file replace_existing temporary transferred =
     (let target = local_target store (op_path operation) in
      bind_op (if replace_existing
         then on_files (TransferFilesystem target) (fs_remove_file (ag_remove_fault env) target)
         else lift_result (Inr ())) (\<lambda>_.
      bind_op (publish_download env store (op_path operation) temporary) (\<lambda>_.
      bind_op (on_database TransferCore (upsert_file x (ag_unixepoch env 1)
         (downloaded_entry env profile (op_path operation) remote_file transferred))) (\<lambda>_.
      bind_op (on_database TransferCore
         (write_op (mark_sync_operation_done (ag_unixepoch env 2) (op_id operation)))) (\<lambda>_.
        lift_result (Inr (transfer_done operation (tf_size_bytes transferred))))))))"

definition download_operation ::
  "'x agent_externals_scheme \<Rightarrow> agent_codecs \<Rightarrow> 'p agent_env \<Rightarrow> folder_store \<Rightarrow> local_device_profile
     \<Rightarrow> string \<Rightarrow> string \<Rightarrow> folder_manifest \<Rightarrow> sync_operation_record \<Rightarrow> ('p, transfer_result) transfer_op" where
  "download_operation x ax env store profile endpoint shared_secret remote_manifest operation =
     bind_op (lift_result (remote_source remote_manifest operation)) (\<lambda>(remote_file, expected_hash).
     bind_op (enforce_local_download_limit x ax env store (op_path operation) (rec_size_bytes remote_file)) (\<lambda>_.
     bind_op (replaceable_target x env store operation) (\<lambda>replace_existing.
     bind_op (download_temporary_path env store (op_id operation)) (\<lambda>temporary.
     bind_op (map_op_err TransferClient (fetch_file_to_path x (ag_client env 0) endpoint
        (device_id_text (lp_device_id profile)) shared_secret (op_path operation)
        (rec_size_bytes remote_file) temporary)) (\<lambda>transferred.
     if tf_size_bytes transferred \<noteq> rec_size_bytes remote_file
     then lift_result (Inl (SizeMismatch (rec_size_bytes remote_file) (tf_size_bytes transferred)))
     else if tf_content_hash transferred \<noteq> expected_hash then lift_result (Inl TransferHashMismatch)
     else finish_download x env store profile operation remote_file replace_existing temporary transferred)))))"

section \<open>Uploads\<close>

text \<open>The local file of the operation and its hash, unless something changed.\<close>

definition local_source ::
  "sync_operation_record \<Rightarrow> file_record list \<Rightarrow> transfer_error + (file_record \<times> string)" where
  "local_source operation files =
     and_then (ok_or LocalFileMissing
       (find (\<lambda>file. path_eq (path_str (rec_path file)) (path_str (op_path operation))) files)) (\<lambda>local_file.
     if rec_kind local_file \<noteq> FileK then Inl LocalPathIsNotFile
     else
     and_then (ok_or LocalHashMissing (case op_local_content_hash operation of
         Some hash \<Rightarrow> Some hash | None \<Rightarrow> rec_content_hash local_file)) (\<lambda>expected_hash.
     if rec_content_hash local_file \<noteq> Some expected_hash then Inl LocalFileChanged
     else if (case op_local_size_bytes operation of
         None \<Rightarrow> False | Some size_bytes \<Rightarrow> size_bytes \<noteq> rec_size_bytes local_file)
     then Inl LocalFileChanged
     else Inr (local_file, expected_hash)))"

definition remote_target_of ::
  "folder_manifest \<Rightarrow> sync_operation_record \<Rightarrow> file_record option" where
  "remote_target_of remote_manifest operation =
     find (\<lambda>file. path_eq (path_str (rec_path file)) (path_str (op_path operation))
                  \<and> rec_sync_state file = LocalAvailable) (fm_files remote_manifest)"

text \<open>
  The peer's version is deleted first, if the listed file is the one the operation was
  queued against.
\<close>

definition replace_remote_target ::
  "'x agent_externals_scheme \<Rightarrow> agent_codecs \<Rightarrow> 'p agent_env \<Rightarrow> local_device_profile
     \<Rightarrow> string \<Rightarrow> string \<Rightarrow> sync_operation_record \<Rightarrow> file_record \<Rightarrow> ('p, unit) transfer_op" where
  "replace_remote_target x ax env profile endpoint shared_secret operation remote_target =
     (if op_remote_content_hash operation \<noteq> rec_content_hash remote_target
         \<or> op_remote_size_bytes operation \<noteq> Some (rec_size_bytes remote_target)
      then lift_result (Inl RemoteTargetExists)
      else
      bind_op (lift_result (ok_or RemoteHashMissing (rec_content_hash remote_target))) (\<lambda>remote_hash.
      bind_op (map_op_err TransferClient (delete_file x (ax_client ax) (ag_client env 0) endpoint
         (device_id_text (lp_device_id profile)) shared_secret (op_path operation) remote_hash
         (rec_size_bytes remote_target))) (\<lambda>response.
        if \<not> dr_accepted response \<or> \<not> path_eq (path_str (dr_path response)) (path_str (op_path operation))
           \<or> dr_size_bytes response \<noteq> rec_size_bytes remote_target
           \<or> Some (dr_content_hash response) \<noteq> rec_content_hash remote_target
        then lift_result (Inl RemoteDeleteRejected)
        else lift_result (Inr ()))))"

definition upload_operation ::
  "'x agent_externals_scheme \<Rightarrow> agent_codecs \<Rightarrow> 'p agent_env \<Rightarrow> folder_store \<Rightarrow> local_device_profile
     \<Rightarrow> string \<Rightarrow> string \<Rightarrow> folder_manifest \<Rightarrow> sync_operation_record \<Rightarrow> ('p, transfer_result) transfer_op" where
  "upload_operation x ax env store profile endpoint shared_secret remote_manifest operation =
     bind_op (on_database TransferCore (read_op (list_files x))) (\<lambda>files.
     bind_op (lift_result (local_source operation files)) (\<lambda>(local_file, expected_hash).
     bind_op (case remote_target_of remote_manifest operation of
         None \<Rightarrow> lift_result (Inr ())
       | Some remote_target \<Rightarrow>
           replace_remote_target x ax env profile endpoint shared_secret operation remote_target) (\<lambda>_.
     bind_op (map_op_err TransferClient (put_file_from_path x (ax_client ax) (ag_client env 1) endpoint
        (device_id_text (lp_device_id profile)) shared_secret (op_path operation) expected_hash
        (local_target store (op_path operation)) (rec_size_bytes local_file))) (\<lambda>response.
     if \<not> ur_accepted response \<or> \<not> path_eq (path_str (ur_path response)) (path_str (op_path operation))
        \<or> ur_size_bytes response \<noteq> rec_size_bytes local_file \<or> ur_content_hash response \<noteq> expected_hash
     then lift_result (Inl UploadRejected)
     else
     bind_op (on_database TransferCore
        (write_op (mark_sync_operation_done (ag_unixepoch env 2) (op_id operation)))) (\<lambda>_.
       lift_result (Inr (transfer_done operation (rec_size_bytes local_file))))))))"

section \<open>The run over the queue\<close>

record execute_output =
  eo_completed :: u64
  eo_failed :: u64
  eo_results :: "transfer_result list"

definition transfer_failed ::
  "sync_operation_record \<Rightarrow> u64 option \<Rightarrow> transfer_error \<Rightarrow> transfer_result" where
  "transfer_failed operation queued_size e =
     \<lparr>tr_operation_id = op_id operation, tr_path = op_path operation, tr_status = ''failed'',
      tr_size_bytes = (case queued_size of None \<Rightarrow> 0 | Some size_bytes \<Rightarrow> size_bytes),
      tr_error = Some (transfer_error_text e)\<rparr>"

text \<open>
  One turn of either loop: mark the operation started, execute it, count it, and mark it
  failed with the message if it failed.
\<close>

definition execute_operation ::
  "('p agent_env \<Rightarrow> sync_operation_record \<Rightarrow> ('p, transfer_result) transfer_op)
     \<Rightarrow> (sync_operation_record \<Rightarrow> u64 option) \<Rightarrow> 'p agent_env \<Rightarrow> sync_operation_record
     \<Rightarrow> execute_output \<times> 'p agent_world \<Rightarrow> execute_output \<times> 'p agent_world" where
  "execute_operation handle queued_size env operation = (\<lambda>(out, w).
     (case handle env operation
         (w\<lparr>aw_db := mark_sync_operation_started (ag_unixepoch env 3) (op_id operation) (aw_db w)\<rparr>) of
        (Inr result, w') \<Rightarrow>
          (out\<lparr>eo_completed := saturating_add (eo_completed out) 1,
               eo_results := eo_results out @ [result]\<rparr>, w')
      | (Inl e, w') \<Rightarrow>
          (out\<lparr>eo_failed := saturating_add (eo_failed out) 1,
               eo_results := eo_results out @ [transfer_failed operation (queued_size operation) e]\<rparr>,
           w'\<lparr>aw_db := mark_sync_operation_failed (ag_unixepoch env 4) (op_id operation)
                (transfer_error_text e) (aw_db w')\<rparr>)))"

text \<open>A loop over operations; \<open>supply n\<close> are the answers during the n-th operation.\<close>

fun execute_operations ::
  "('p agent_env \<Rightarrow> sync_operation_record \<Rightarrow> ('p, transfer_result) transfer_op)
     \<Rightarrow> (sync_operation_record \<Rightarrow> u64 option) \<Rightarrow> (nat \<Rightarrow> 'p agent_env) \<Rightarrow> nat
     \<Rightarrow> sync_operation_record list \<Rightarrow> execute_output \<times> 'p agent_world
     \<Rightarrow> execute_output \<times> 'p agent_world" where
  "execute_operations handle queued_size supply n [] s = s"
| "execute_operations handle queued_size supply n (operation # operations) s =
     execute_operations handle queued_size supply (n + 1) operations
       (execute_operation handle queued_size (supply n) operation s)"

definition read_profile ::
  "agent_codecs \<Rightarrow> io_faults \<Rightarrow> string \<Rightarrow> ('p, local_device_profile) agent_op" where
  "read_profile ax f device_config =
     read_op (\<lambda>w. map_err AgentProfileRead (local_device_profile_read f (ax_profile ax) device_config (cw_disk w)))"

definition open_state ::
  "(core_error \<Rightarrow> 'e) \<Rightarrow> 'p agent_env \<Rightarrow> nat \<Rightarrow> ('p agent_world, 'e, unit) stateful" where
  "open_state g env k = lift_result (case ag_open_db env k of None \<Rightarrow> Inr () | Some e \<Rightarrow> Inl (g e))"

definition scan_local ::
  "'x agent_externals_scheme \<Rightarrow> 'p agent_env \<Rightarrow> string \<Rightarrow> local_device_profile
     \<Rightarrow> ('p, scan_summary) agent_op" where
  "scan_local x env path profile =
     on_database AgentCore (scan_into x (ag_scan_clock env) (ag_unixepoch env 0)
       \<lparr>sn_root = path, sn_device_id = lp_device_id profile\<rparr> (ag_tree env))"

text \<open>The two loops of a run, downloads before uploads, over what the limit allows.\<close>

definition execute_queue ::
  "'x agent_externals_scheme \<Rightarrow> agent_codecs \<Rightarrow> (nat \<Rightarrow> 'p agent_env) \<Rightarrow> folder_store
     \<Rightarrow> local_device_profile \<Rightarrow> string \<Rightarrow> string \<Rightarrow> folder_manifest
     \<Rightarrow> sync_operation_record list \<Rightarrow> sync_operation_record list \<Rightarrow> ('p, execute_output) agent_op" where
  "execute_queue x ax supply store profile endpoint shared_secret remote_manifest downloads uploads w =
     (case execute_operations (\<lambda>env. upload_operation x ax env store profile endpoint shared_secret remote_manifest)
         op_local_size_bytes supply (length downloads) uploads
       (execute_operations (\<lambda>env. download_operation x ax env store profile endpoint shared_secret remote_manifest)
         op_remote_size_bytes supply 0 downloads
         (\<lparr>eo_completed = 0, eo_failed = 0, eo_results = []\<rparr>, w)) of (out, w') \<Rightarrow> (Inr out, w'))"

definition run_sync_queue ::
  "'x agent_externals_scheme \<Rightarrow> agent_codecs \<Rightarrow> 'p agent_env \<Rightarrow> (nat \<Rightarrow> 'p agent_env) \<Rightarrow> string
     \<Rightarrow> string \<Rightarrow> string \<Rightarrow> u64 \<Rightarrow> string \<Rightarrow> ('p, execute_output) agent_op" where
  "run_sync_queue x ax env supply path endpoint shared_secret limit device_config =
     (let store = \<lparr>st_root = path\<rparr> in
      bind_op (read_profile ax (ag_io env 0) device_config) (\<lambda>profile.
      bind_op (open_state AgentCore env 0) (\<lambda>_.
      bind_op (scan_local x env path profile) (\<lambda>_.
      bind_op (map_op_err AgentPeerClient (Peer_Client.fetch_manifest x (ax_client ax) (ag_client env 0) endpoint
         (device_id_text (lp_device_id profile)) shared_secret)) (\<lambda>remote_manifest.
      (let remote_device_id = device_id_text (fm_device_id remote_manifest) in
      bind_op (on_database AgentCore (read_op (list_pending_download_operations x remote_device_id limit))) (\<lambda>downloads.
      bind_op (on_database AgentCore (read_op (list_pending_upload_operations x remote_device_id
         (saturating_sub limit (len_u64 downloads))))) (\<lambda>uploads.
        execute_queue x ax supply store profile endpoint shared_secret remote_manifest downloads uploads))))))))"

section \<open>A complete synchronisation\<close>

definition send_presence ::
  "'x agent_externals_scheme \<Rightarrow> agent_codecs \<Rightarrow> 'p agent_env \<Rightarrow> string \<Rightarrow> string \<Rightarrow> string
     \<Rightarrow> ('p, presence_response) agent_op" where
  "send_presence x ax env endpoint shared_secret device_config =
     bind_op (read_profile ax (ag_io env 0) device_config) (\<lambda>profile.
       map_op_err AgentPeerClient (post_presence x (ax_client ax) (ag_client env 0) endpoint
         (device_id_text (lp_device_id profile)) shared_secret
         \<lparr>pp_device_id = lp_device_id profile, pp_sent_at = ag_now env, pp_agent_version = ax_version ax\<rparr>))"

definition build_sync_plan ::
  "'x agent_externals_scheme \<Rightarrow> agent_codecs \<Rightarrow> 'p agent_env \<Rightarrow> string \<Rightarrow> string \<Rightarrow> string \<Rightarrow> string
     \<Rightarrow> ('p, sync_plan) agent_op" where
  "build_sync_plan x ax env path endpoint shared_secret device_config =
     (let store = \<lparr>st_root = path\<rparr> in
      bind_op (read_profile ax (ag_io env 0) device_config) (\<lambda>profile.
      bind_op (open_state AgentCore env 0) (\<lambda>_.
      bind_op (scan_local x env path profile) (\<lambda>_.
      bind_op (read_agent_folder AgentCore ax (ag_io env 1) store) (\<lambda>folder.
      bind_op (on_database AgentCore (read_op (export_manifest x (ag_now env) (fc_id (fd_folder folder))
         (lp_device_id profile)))) (\<lambda>local_manifest.
      bind_op (map_op_err AgentPeerClient (Peer_Client.fetch_manifest x (ax_client ax) (ag_client env 0) endpoint
         (device_id_text (lp_device_id profile)) shared_secret)) (\<lambda>remote_manifest.
        lift_result (Inr (plan_manifest_sync_for_mode local_manifest remote_manifest
          (fc_mode (fd_folder folder)))))))))))"

record sync_once_output =
  so_presence :: presence_response
  so_plan_summary :: sync_plan_summary
  so_queued :: queue_status_record
  so_transfer :: execute_output
  so_final_queue :: queue_status_record

text \<open>
  The answers of a round: while the presence is sent, while the plan is built, during the
  run over the queue and its operations, and the identifiers and clocks of the enqueueing.
\<close>

record 'p round_env =
  rn_presence :: "'p agent_env"
  rn_plan :: "'p agent_env"
  rn_queue :: "'p agent_env"
  rn_operations :: "nat \<Rightarrow> 'p agent_env"
  rn_supply :: "nat \<Rightarrow> string \<times> int"
  rn_folder_io :: io_faults

definition run_sync_once ::
  "'x agent_externals_scheme \<Rightarrow> agent_codecs \<Rightarrow> 'p round_env \<Rightarrow> string \<Rightarrow> string \<Rightarrow> string \<Rightarrow> u64
     \<Rightarrow> string \<Rightarrow> ('p, sync_once_output) agent_op" where
  "run_sync_once x ax rnd path endpoint shared_secret limit device_config =
     bind_op (send_presence x ax (rn_presence rnd) endpoint shared_secret device_config) (\<lambda>presence.
     bind_op (build_sync_plan x ax (rn_plan rnd) path endpoint shared_secret device_config) (\<lambda>plan.
     bind_op (on_database AgentCore (enqueue_sync_plan x (rn_supply rnd) plan)) (\<lambda>queued.
     bind_op (run_sync_queue x ax (rn_queue rnd) (rn_operations rnd) path endpoint shared_secret limit
        device_config) (\<lambda>transfer.
     bind_op (on_database AgentCore (read_op (queue_status x))) (\<lambda>final_queue.
       lift_result (Inr \<lparr>so_presence = presence, so_plan_summary = pl_summary plan, so_queued = queued,
         so_transfer = transfer, so_final_queue = final_queue\<rparr>))))))"

section \<open>The loop\<close>

definition print_json :: "'p agent_env \<Rightarrow> 'a \<Rightarrow> ('p, 'a) agent_op" where
  "print_json env value = lift_result (case ag_print_fault env of None \<Rightarrow> Inr value | Some e \<Rightarrow> Inl e)"

text \<open>Seconds to sleep: the interval of the folder, at least one.\<close>

definition sleep_seconds :: "folder_document \<Rightarrow> int" where
  "sleep_seconds folder = max 1 (sync_interval (fd_folder folder))"

text \<open>
  A turn of \<open>sync_loop\<close>: a round, its output, and either the end or the pause before the
  next round. The loop may run forever, so it is a partial function: \<open>None\<close> is the loop
  that never returns. It carries the outputs with the pauses that followed them.
\<close>

definition sync_turn ::
  "'x agent_externals_scheme \<Rightarrow> agent_codecs \<Rightarrow> 'p round_env \<Rightarrow> string \<Rightarrow> string \<Rightarrow> string \<Rightarrow> u64
     \<Rightarrow> u64 option \<Rightarrow> string \<Rightarrow> u64 \<Rightarrow> ('p, sync_once_output \<times> int option) agent_op" where
  "sync_turn x ax rnd path endpoint shared_secret limit iterations device_config completed_iterations =
     bind_op (run_sync_once x ax rnd path endpoint shared_secret limit device_config) (\<lambda>output.
     bind_op (print_json (rn_presence rnd) output) (\<lambda>_.
     if (case iterations of None \<Rightarrow> False
         | Some max_iterations \<Rightarrow> max_iterations \<le> saturating_add completed_iterations 1)
     then lift_result (Inr (output, None))
     else
     bind_op (read_agent_folder AgentCore ax (rn_folder_io rnd) \<lparr>st_root = path\<rparr>) (\<lambda>folder.
       lift_result (Inr (output, Some (sleep_seconds folder))))))"

partial_function (option) sync_loop ::
  "'x agent_externals_scheme \<Rightarrow> agent_codecs \<Rightarrow> (nat \<Rightarrow> 'p round_env) \<Rightarrow> string \<Rightarrow> string \<Rightarrow> string \<Rightarrow> u64
     \<Rightarrow> u64 option \<Rightarrow> string \<Rightarrow> nat \<Rightarrow> u64 \<Rightarrow> (sync_once_output \<times> int) list \<Rightarrow> 'p agent_world
     \<Rightarrow> ((agent_error + (sync_once_output \<times> int) list \<times> sync_once_output) \<times> 'p agent_world) option" where
  "sync_loop x ax rounds path endpoint shared_secret limit iterations device_config n completed_iterations
      outputs w =
     (case sync_turn x ax (rounds n) path endpoint shared_secret limit iterations device_config
         completed_iterations w of
        (Inl e, w') \<Rightarrow> Some (Inl e, w')
      | (Inr (output, None), w') \<Rightarrow> Some (Inr (outputs, output), w')
      | (Inr (output, Some seconds), w') \<Rightarrow>
          sync_loop x ax rounds path endpoint shared_secret limit iterations device_config (n + 1)
            (saturating_add completed_iterations 1) (outputs @ [(output, seconds)]) w')"

section \<open>Temporary names\<close>

text \<open>A new extension with a dot in it never gives the same name back.\<close>

lemma file_stem_changes:
  assumes "CHR ''.'' \<in> set ext"
  shows "file_stem name @ CHR ''.'' # ext \<noteq> name"
proof
  assume eq: "file_stem name @ CHR ''.'' # ext = name"
  then have "length (file_stem name) + Suc (length ext) = length name"
    by (metis length_append length_Cons)
  then have "file_stem name \<noteq> name" by auto
  then obtain e q qs where parts: "rev (split_on CHR ''.'' name) = e # q # qs"
    "file_stem name = join_with CHR ''.'' (rev (q # qs))"
    by (auto simp: file_stem_def Let_def split: list.splits if_splits)
  then have pieces: "split_on CHR ''.'' name = rev (q # qs) @ [e]" by (simp add: rev_swap)
  have "\<forall>p \<in> set (split_on CHR ''.'' name). CHR ''.'' \<notin> set p" by (blast dest: split_on_no_sep)
  then have clean: "\<forall>p \<in> set (rev (q # qs)). CHR ''.'' \<notin> set p" "CHR ''.'' \<notin> set e"
    unfolding pieces by auto
  have "split_on CHR ''.'' (file_stem name) = rev (q # qs)"
    unfolding parts(2) by (rule split_join [OF _ clean(1)]) simp
  with split_on_append [of "CHR ''.''" "file_stem name" ext] eq pieces
  have "split_on CHR ''.'' ext = [e]" by simp
  then have "ext = e" by (metis join_split join_with.simps(2))
  with clean(2) assms show False by simp
qed

lemma join_with_last_eq: "join_with c (ps @ [a]) = join_with c (ps @ [b]) \<Longrightarrow> a = b"
  by (cases "ps = []") (simp_all add: join_with_snoc)

lemma last_split_on_append:
  assumes "c \<notin> set t"
  shows "last (split_on c (s @ t)) = last (split_on c s) @ t"
proof -
  obtain ps l where pieces: "split_on c s = ps @ [l]" by (metis append_butlast_last_id split_on_nonempty)
  then have "s = join_with c (ps @ [l])" by (metis join_split)
  then have st: "s @ t = join_with c (ps @ [l @ t])" by (cases "ps = []") (simp_all add: join_with_snoc)
  have "\<forall>p \<in> set (split_on c s). c \<notin> set p" by (blast dest: split_on_no_sep)
  with assms have "\<forall>p \<in> set (ps @ [l @ t]). c \<notin> set p" by (auto simp: pieces)
  then have "split_on c (s @ t) = ps @ [l @ t]" unfolding st by (intro split_join) simp_all
  with pieces show ?thesis by simp
qed

lemma path_with_extension_changes:
  assumes "last (split_on CHR ''/'' p) = name" and "name \<noteq> []" "name \<noteq> ''.''" "name \<noteq> ''..''"
    and "CHR ''.'' \<in> set ext"
  shows "path_with_extension p ext \<noteq> p"
proof
  obtain parents where parents: "split_on CHR ''/'' p = parents @ [name]"
    using assms(1) by (metis append_butlast_last_id split_on_nonempty)
  then have p: "p = join_with CHR ''/'' (parents @ [name])" by (metis join_split)
  have "name_pieces p = parents @ [name]" using assms(2,3) by (simp add: name_pieces_def parents)
  then have "path_with_extension p ext = join_with CHR ''/'' (parents @ [file_stem name @ CHR ''.'' # ext])"
    using assms(4) by (simp add: path_with_extension_def)
  moreover assume "path_with_extension p ext = p"
  ultimately have "join_with CHR ''/'' (parents @ [file_stem name @ CHR ''.'' # ext])
      = join_with CHR ''/'' (parents @ [name])" using p by simp
  then have "file_stem name @ CHR ''.'' # ext = name" by (rule join_with_last_eq)
  with file_stem_changes [OF assms(5)] show False by blast
qed

lemma path_push_suffix: "\<exists>s. path_push buf part = s @ part"
  by (auto simp: path_push_def)

lemma part_path_is_not_ciphertext: "encrypted_download_path u (part_path store i) \<noteq> part_path store i"
proof -
  obtain s where s: "part_path store i = (s @ i) @ ''.part''"
    using path_push_suffix [of "downloads_dir store" "i @ ''.part''"] by (auto simp: part_path_def)
  have "last (split_on CHR ''/'' (part_path store i)) = last (split_on CHR ''/'' (s @ i)) @ ''.part''"
    unfolding s by (rule last_split_on_append) simp
  then show ?thesis
    unfolding encrypted_download_path_def by (rule path_with_extension_changes) auto
qed

section \<open>What a download may change\<close>

text \<open>A target may be written if nothing was there, or if the index has what was queued.\<close>

definition may_replace ::
  "'x agent_externals_scheme \<Rightarrow> sync_operation_record \<Rightarrow> string \<Rightarrow> 'p agent_world \<Rightarrow> bool" where
  "may_replace x operation target w \<longleftrightarrow> dk_files (cw_disk w) target = None
     \<or> (\<exists>files. list_files x (aw_db w) = Inr files \<and> list_ex (same_as_queued operation) files)"

interpretation disk_frame: frame_condition "disk_within T" for T
  by unfold_locales (auto simp: disk_within_def)

named_theorems disk_intros \<open>steps that change no other files\<close>

lemma on_files_within:
  assumes "\<And>q d. q \<notin> T \<Longrightarrow> dk_files (snd (m d)) q = dk_files d q"
  shows "within (disk_within T) (on_files g m)"
  using assms by (auto simp: within_def disk_within_def on_files_def split_beta)

lemma on_database_within [disk_intros]: "within (disk_within T) (on_database g m)"
  by (auto simp: within_def disk_within_def on_database_def split_beta)

lemma create_dir_within [disk_intros]: "within (disk_within T) (on_files g (fs_create_dir_all f path))"
  by (rule on_files_within) simp

lemma read_folder_within [disk_intros]: "within (disk_within T) (read_agent_folder g ax f store)"
  by (simp add: read_agent_folder_def disk_frame.within_read)

declare map_op_err_within [disk_intros]

lemma enforce_limit_within [disk_intros]:
  "within (disk_within T) (enforce_local_download_limit x ax env store p size_bytes)"
  unfolding enforce_local_download_limit_def Let_def by (intro disk_intros disk_frame.within_intros)

lemma replaceable_target_within [disk_intros]:
  "within (disk_within T) (replaceable_target x env store operation)"
  unfolding replaceable_target_def Let_def by (intro disk_intros disk_frame.within_intros)

lemma temporary_path_within [disk_intros]:
  "within (disk_within T) (download_temporary_path env store i)"
  unfolding download_temporary_path_def by (intro disk_intros disk_frame.within_intros)

lemma finish_download_within:
  assumes "local_target store (op_path operation) \<in> T" and "temporary \<in> T"
  shows "within (disk_within T)
    (finish_download x env store profile operation remote_file replace_existing temporary transferred)"
proof -
  have "within (disk_within T) (on_files g (fs_remove_file f (local_target store (op_path operation))))" for g f
    by (rule on_files_within) (use assms(1) in \<open>auto simp: fs_remove_file_def split: option.split\<close>)
  moreover have "within (disk_within T) (on_files g (fs_rename f temporary (local_target store (op_path operation))))" for g f
    by (rule on_files_within) (use assms in \<open>auto simp: fs_rename_def split: option.split\<close>)
  ultimately show ?thesis
    unfolding finish_download_def publish_download_def Let_def
    by (auto intro!: disk_intros disk_frame.within_intros split: option.split)
qed

text \<open>An operation that only reads leaves the world as it was.\<close>

lemma on_database_read: "on_database g (read_op q) w = (r, w') \<Longrightarrow> w' = w \<and> map_err g (q (aw_db w)) = r"
  by (auto simp: on_database_def)

lemma enforce_limit_Inr:
  "enforce_local_download_limit x ax env store p size_bytes w = (Inr u, w') \<Longrightarrow> w' = w"
  by (auto simp: enforce_local_download_limit_def bind_op_Inr lift_result_Inr read_agent_folder_def Let_def
      read_op_Inr dest!: on_database_read split: if_splits)

lemma replaceable_target_Inr:
  assumes "replaceable_target x env store operation w = (Inr replace_existing, w')"
  shows "w' = w \<and> may_replace x operation (local_target store (op_path operation)) w"
  using assms
  by (auto simp: replaceable_target_def bind_op_Inr lift_result_Inr read_op_Inr Let_def may_replace_def
      try_exists_def and_then_Inr_iff dest!: on_database_read split: if_splits)

lemma download_temporary_Inr:
  "download_temporary_path env store i w = (Inr temporary, w') \<Longrightarrow> w' = w \<and> temporary = part_path store i"
  by (auto simp: download_temporary_path_def bind_op_Inr lift_result_Inr on_files_def fs_create_dir_all_def
      split: prod.splits option.splits)

text \<open>The files an operation creates for itself.\<close>

definition download_temporaries :: "'p agent_env \<Rightarrow> folder_store \<Rightarrow> sync_operation_record \<Rightarrow> string set" where
  "download_temporaries env store operation =
     {part_path store (op_id operation),
      encrypted_download_path (cl_uuid (ag_client env 0)) (part_path store (op_id operation))}"

lemma fetch_into_temporaries:
  "within (disk_within (download_temporaries env store operation)) (map_op_err TransferClient
     (fetch_file_to_path x (ag_client env 0) endpoint device secret p size_bytes (part_path store (op_id operation))))"
  by (intro map_op_err_within within_mono [OF fetch_file_within [where T = "download_temporaries env store operation"]])
    (simp_all add: download_temporaries_def client_frame_def)

text \<open>What is at the target once the temporary file was checked.\<close>

lemma finish_download_target:
  assumes "dk_files (cw_disk w) temporary = Some plain" and "temporary \<noteq> local_target store (op_path operation)"
    and "finish_download x env store profile operation remote_file replace_existing temporary transferred w = (r, w')"
  shows "dk_files (cw_disk w') (local_target store (op_path operation)) \<in>
      {dk_files (cw_disk w) (local_target store (op_path operation)), None, Some plain}
    \<and> (is_ok r \<longrightarrow> dk_files (cw_disk w') (local_target store (op_path operation)) = Some plain)"
  using assms
  by (auto simp: finish_download_def publish_download_def Let_def bind_op_def on_files_def on_database_def
      fs_remove_file_def fs_create_dir_all_def fs_rename_def
      split: option.splits sum.splits prod.splits if_splits)

lemma download_operation_cases:
  assumes "download_operation x ax env store profile endpoint secret remote_manifest operation w = (r, w')"
  obtains (stopped) "disk_within (download_temporaries env store operation) w w'" "\<not> is_ok r"
    | (fetched) remote_file hash replace_existing transferred w1 where
      "remote_source remote_manifest operation = Inr (remote_file, hash)"
      "may_replace x operation (local_target store (op_path operation)) w"
      "fetch_file_to_path x (ag_client env 0) endpoint (device_id_text (lp_device_id profile)) secret
         (op_path operation) (rec_size_bytes remote_file) (part_path store (op_id operation)) w
         = (Inr transferred, w1)"
      "tf_size_bytes transferred = rec_size_bytes remote_file" "tf_content_hash transferred = hash"
      "finish_download x env store profile operation remote_file replace_existing
         (part_path store (op_id operation)) transferred w1 = (r, w')"
proof -
  let ?T = "download_temporaries env store operation"
  have stop: thesis if "disk_within ?T w w'" "r = Inl e" for e
    using stopped that by simp
  from assms show thesis
    unfolding download_operation_def
  proof (cases rule: bind_op_cases)
    case (failed e)
    then show ?thesis using stop [of e] by (simp add: disk_frame.le_refl)
  next
    case (continued source t)
    then obtain remote_file hash where src: "remote_source remote_manifest operation = Inr (remote_file, hash)"
      "source = (remote_file, hash)" "t = w" by (cases source) auto
    from continued(2) show ?thesis
      unfolding src split_conv
    proof (cases rule: bind_op_cases)
      case (failed e)
      then show ?thesis using stop [of e] within_step [OF enforce_limit_within] by blast
    next
      case (continued u t)
      from enforce_limit_Inr [OF this(1)] have t: "t = w" .
      from continued(2) show ?thesis
        unfolding t
      proof (cases rule: bind_op_cases)
        case (failed e)
        then show ?thesis using stop [of e] within_step [OF replaceable_target_within] by blast
      next
        case (continued replace_existing t)
        from replaceable_target_Inr [OF this(1)] have t: "t = w"
          and may: "may_replace x operation (local_target store (op_path operation)) w" by simp_all
        from continued(2) show ?thesis
          unfolding t
        proof (cases rule: bind_op_cases)
          case (failed e)
          then show ?thesis using stop [of e] within_step [OF temporary_path_within] by blast
        next
          case (continued temporary t)
          from download_temporary_Inr [OF this(1)] have t: "t = w"
            and temporary: "temporary = part_path store (op_id operation)" by simp_all
          from continued(2) show ?thesis
            unfolding t temporary
          proof (cases rule: bind_op_cases)
            case (failed e)
            then show ?thesis using stop [of e] within_step [OF fetch_into_temporaries] by blast
          next
            case (continued transferred t)
            then have within: "disk_within ?T w t"
              using within_step [OF fetch_into_temporaries] by blast
            show ?thesis
              using continued fetched [OF src(1) may _ _ _, of transferred t replace_existing] stop within
              by (auto simp: map_op_err_Inr split: if_splits)
          qed
        qed
      qed
    qed
  qed
qed

text \<open>The verified contents: the size and hash the peer lists and the operation was queued for.\<close>

definition verified_content ::
  "'x agent_externals_scheme \<Rightarrow> folder_manifest \<Rightarrow> sync_operation_record \<Rightarrow> string option \<Rightarrow> bool" where
  "verified_content x remote_manifest operation content \<longleftrightarrow>
     (\<exists>remote_file hash plain. remote_source remote_manifest operation = Inr (remote_file, hash)
        \<and> content = Some plain \<and> blake3_hex x plain = hash \<and> length plain = unat (rec_size_bytes remote_file))"

lemma downloaded_target:
  assumes "aead_laws x" and "local_target store (op_path operation) \<notin> download_temporaries env store operation"
    and "download_operation x ax env store profile endpoint secret remote_manifest operation w = (r, w')"
  defines "target \<equiv> local_target store (op_path operation)"
  shows "disk_within (insert target (download_temporaries env store operation)) w w'"
    and "dk_files (cw_disk w') target \<noteq> dk_files (cw_disk w) target \<Longrightarrow> may_replace x operation target w
      \<and> (dk_files (cw_disk w') target = None
         \<or> verified_content x remote_manifest operation (dk_files (cw_disk w') target))"
    and "is_ok r \<Longrightarrow> verified_content x remote_manifest operation (dk_files (cw_disk w') target)"
proof -
  let ?T = "download_temporaries env store operation"
  let ?part = "part_path store (op_id operation)"
  have *: "disk_within (insert target ?T) w w'
    \<and> (dk_files (cw_disk w') target \<noteq> dk_files (cw_disk w) target \<longrightarrow> may_replace x operation target w
      \<and> (dk_files (cw_disk w') target = None
         \<or> verified_content x remote_manifest operation (dk_files (cw_disk w') target)))
    \<and> (is_ok r \<longrightarrow> verified_content x remote_manifest operation (dk_files (cw_disk w') target))"
    using assms(3)
  proof (cases rule: download_operation_cases)
    case stopped
    then show ?thesis using assms(2) by (auto simp: disk_within_def target_def)
  next
    case (fetched remote_file hash replace_existing transferred w1)
    from fetched_file [OF fetched(3) assms(1) part_path_is_not_ciphertext] fetched(4,5)
    obtain plain where plain: "dk_files (cw_disk w1) ?part = Some plain"
      "length plain = unat (rec_size_bytes remote_file)" "blake3_hex x plain = hash" by auto
    have "map_op_err TransferClient (fetch_file_to_path x (ag_client env 0) endpoint
        (device_id_text (lp_device_id profile)) secret (op_path operation) (rec_size_bytes remote_file) ?part) w
      = (Inr transferred, w1)" using fetched(3) by (simp add: map_op_err_def)
    then have w1: "disk_within ?T w w1" by (rule within_step [OF fetch_into_temporaries])
    have same: "dk_files (cw_disk w1) target = dk_files (cw_disk w) target"
      using w1 assms(2) by (simp add: disk_within_def target_def)
    have "disk_within (insert target ?T) w1 w'"
      by (rule within_step [OF finish_download_within fetched(6)])
        (simp_all add: target_def download_temporaries_def)
    with w1 have frame: "disk_within (insert target ?T) w w'"
      by (auto simp: disk_within_def)
    have "?part \<noteq> target" using assms(2) by (auto simp: target_def download_temporaries_def)
    note finish = finish_download_target [OF plain(1) this [unfolded target_def] fetched(6), folded target_def]
    have "verified_content x remote_manifest operation (Some plain)"
      unfolding verified_content_def using fetched(1) plain(2,3) by blast
    with finish same fetched(2) frame show ?thesis by (auto simp: target_def)
  qed
  then show "disk_within (insert target ?T) w w'"
    and "dk_files (cw_disk w') target \<noteq> dk_files (cw_disk w) target \<Longrightarrow> may_replace x operation target w
      \<and> (dk_files (cw_disk w') target = None
         \<or> verified_content x remote_manifest operation (dk_files (cw_disk w') target))"
    and "is_ok r \<Longrightarrow> verified_content x remote_manifest operation (dk_files (cw_disk w') target)"
    by simp_all
qed

section \<open>The queue is settled\<close>

text \<open>
  The contract of an operation's handler: it closes the operation it was given, as the last
  thing it does, or fails and leaves the queue as it was.
\<close>

definition same_queue :: "'p agent_world \<Rightarrow> 'p agent_world \<Rightarrow> bool" where
  "same_queue w w' \<longleftrightarrow> db_operations (aw_db w') = db_operations (aw_db w)"

locale transfer_handler =
  fixes handle :: "'p agent_env \<Rightarrow> sync_operation_record \<Rightarrow> ('p, transfer_result) transfer_op"
  assumes handled: "handle env operation w = (Inr result, w') \<Longrightarrow>
      tr_operation_id result = op_id operation \<and> tr_status result = ''done''
      \<and> (\<exists>t w1. same_queue w w1 \<and> db_operations (aw_db w')
            = db_operations (mark_sync_operation_done t (op_id operation) (aw_db w1)))"
    and not_handled: "handle env operation w = (Inl e, w') \<Longrightarrow> same_queue w w'"

text \<open>What the results say of an operation: the last one about it counts.\<close>

definition recorded :: "transfer_result list \<Rightarrow> string \<Rightarrow> string option" where
  "recorded results = map_of (rev (map (\<lambda>r. (tr_operation_id r, tr_status r)) results))"

definition queue_agrees :: "transfer_result list \<Rightarrow> state_database \<Rightarrow> bool" where
  "queue_agrees results db \<longleftrightarrow>
     (\<forall>r \<in> set (db_operations db). \<forall>s. recorded results (or_id r) = Some s \<longrightarrow> or_status r = s)"

text \<open>The two counters are the numbers of the two kinds of results, and there are no others.\<close>

definition accounted :: "execute_output \<Rightarrow> bool" where
  "accounted out \<longleftrightarrow>
     unat (eo_completed out) = min (length (filter (\<lambda>r. tr_status r = ''done'') (eo_results out))) (2 ^ 64 - 1)
     \<and> unat (eo_failed out) = min (length (filter (\<lambda>r. tr_status r = ''failed'') (eo_results out))) (2 ^ 64 - 1)
     \<and> (\<forall>r \<in> set (eo_results out). tr_status r = ''done'' \<or> tr_status r = ''failed'')"

lemma saturating_count:
  "unat c = min n (2 ^ 64 - 1) \<Longrightarrow> unat (saturating_add c 1) = min (Suc n) (2 ^ 64 - 1)"
  by (simp add: u64_simps)

lemma accounted_done:
  assumes "accounted out" and "tr_status res = ''done''"
  shows "accounted (out\<lparr>eo_completed := saturating_add (eo_completed out) 1,
    eo_results := eo_results out @ [res]\<rparr>)"
  using assms saturating_count [of "eo_completed out"] unfolding accounted_def by simp

lemma accounted_failed:
  assumes "accounted out" and "tr_status res = ''failed''"
  shows "accounted (out\<lparr>eo_failed := saturating_add (eo_failed out) 1,
    eo_results := eo_results out @ [res]\<rparr>)"
  using assms saturating_count [of "eo_failed out"] unfolding accounted_def by simp

lemma recorded_snoc: "recorded (results @ [r]) = (recorded results)(tr_operation_id r \<mapsto> tr_status r)"
  by (simp add: recorded_def)

lemma operations_started:
  "db_operations (mark_sync_operation_started t i db) = update_where (\<lambda>r. or_id r = i)
     (\<lambda>r. r\<lparr>or_last_error := None, or_started_at_unix := Some t, or_finished_at_unix := None,
            or_updated_at_unix := t\<rparr>) (db_operations db)"
  by (simp add: mark_sync_operation_started_def update_operations_def)

lemma operations_closed:
  "db_operations (update_sync_operation_status t i status err db) = update_where (\<lambda>r. or_id r = i)
     (\<lambda>r. r\<lparr>or_status := status_as_str status, or_last_error := err, or_finished_at_unix := Some t,
            or_updated_at_unix := t\<rparr>) (db_operations db)"
  by (simp add: update_sync_operation_status_def update_operations_def)

lemma agrees_started:
  "queue_agrees results db \<Longrightarrow> queue_agrees results (mark_sync_operation_started t i db)"
  by (auto simp: queue_agrees_def operations_started set_update_where)

lemma agrees_closed:
  assumes "queue_agrees results db" and "tr_operation_id res = i" and "tr_status res = status_as_str status"
  shows "queue_agrees (results @ [res]) (update_sync_operation_status t i status err db)"
  using assms by (auto simp: queue_agrees_def operations_closed set_update_where recorded_snoc)

lemma agrees_queue:
  "db_operations db' = db_operations db \<Longrightarrow> queue_agrees results db' = queue_agrees results db"
  by (simp add: queue_agrees_def)

context transfer_handler
begin

lemma execute_one:
  assumes "execute_operation handle queued_size env operation (out, w) = (out', w')"
    and "accounted out" and "queue_agrees (eo_results out) (aw_db w)"
  shows "accounted out' \<and> queue_agrees (eo_results out') (aw_db w')
    \<and> (\<exists>res. eo_results out' = eo_results out @ [res] \<and> tr_operation_id res = op_id operation)"
proof -
  define w0 where "w0 = w\<lparr>aw_db := mark_sync_operation_started (ag_unixepoch env 3) (op_id operation) (aw_db w)\<rparr>"
  have start: "queue_agrees (eo_results out) (aw_db w0)"
    using assms(3) by (simp add: w0_def agrees_started)
  obtain r w1 where run: "handle env operation w0 = (r, w1)" by fastforce
  show ?thesis
  proof (cases r)
    case (Inl e)
    from not_handled [OF run [unfolded this]] have "queue_agrees (eo_results out) (aw_db w1)"
      using start agrees_queue [of "aw_db w1" "aw_db w0"] by (simp add: same_queue_def)
    from agrees_closed [OF this, of "transfer_failed operation (queued_size operation) e" "op_id operation" Failed]
    have "queue_agrees (eo_results out @ [transfer_failed operation (queued_size operation) e])
        (update_sync_operation_status t (op_id operation) Failed err (aw_db w1))" for t err
      by (simp add: transfer_failed_def)
    moreover have "out' = out\<lparr>eo_failed := saturating_add (eo_failed out) 1,
        eo_results := eo_results out @ [transfer_failed operation (queued_size operation) e]\<rparr>"
      "w' = w1\<lparr>aw_db := mark_sync_operation_failed (ag_unixepoch env 4) (op_id operation)
         (transfer_error_text e) (aw_db w1)\<rparr>"
      using assms(1) run Inl by (simp_all add: execute_operation_def w0_def)
    ultimately show ?thesis
      using accounted_failed [OF assms(2), of "transfer_failed operation (queued_size operation) e"]
      by (simp add: mark_sync_operation_failed_def transfer_failed_def)
  next
    case (Inr res)
    from handled [OF run [unfolded this]] obtain t w2 where h: "tr_operation_id res = op_id operation"
      "tr_status res = ''done''" "same_queue w0 w2" "db_operations (aw_db w1)
        = db_operations (mark_sync_operation_done t (op_id operation) (aw_db w2))" by blast
    have "queue_agrees (eo_results out) (aw_db w2)"
      using start h(3) agrees_queue [of "aw_db w2" "aw_db w0"] by (simp add: same_queue_def)
    from agrees_closed [OF this h(1), of Done] h(2)
    have "queue_agrees (eo_results out @ [res]) (mark_sync_operation_done t (op_id operation) (aw_db w2))"
      by (simp add: mark_sync_operation_done_def)
    then have "queue_agrees (eo_results out @ [res]) (aw_db w1)"
      unfolding agrees_queue [OF h(4)] .
    moreover have "out' = out\<lparr>eo_completed := saturating_add (eo_completed out) 1,
        eo_results := eo_results out @ [res]\<rparr>" "w' = w1"
      using assms(1) run Inr by (simp_all add: execute_operation_def w0_def)
    ultimately show ?thesis using accounted_done [OF assms(2) h(2)] h(1) by simp
  qed
qed

lemma execute_all:
  assumes "execute_operations handle queued_size supply n operations (out, w) = (out', w')"
    and "accounted out" and "queue_agrees (eo_results out) (aw_db w)"
  shows "accounted out' \<and> queue_agrees (eo_results out') (aw_db w')
    \<and> map tr_operation_id (eo_results out') = map tr_operation_id (eo_results out) @ map op_id operations"
  using assms
proof (induction operations arbitrary: n out w)
  case Nil
  then show ?case by simp
next
  case (Cons operation operations)
  obtain out1 w1 where one: "execute_operation handle queued_size (supply n) operation (out, w) = (out1, w1)"
    by fastforce
  from execute_one [OF one Cons.prems(2,3)] obtain res where
    "accounted out1" "queue_agrees (eo_results out1) (aw_db w1)"
    "eo_results out1 = eo_results out @ [res]" "tr_operation_id res = op_id operation" by blast
  with Cons.IH [of "n + 1" out1 w1] Cons.prems(1) one show ?case by simp
qed

end

subsection \<open>The two handlers\<close>

interpretation queue_frame: frame_condition same_queue
  by unfold_locales (auto simp: same_queue_def)

named_theorems queue_intros \<open>steps that leave the queue as it is\<close>

lemma queue_on_files [queue_intros]: "within same_queue (on_files g m)"
  by (auto simp: within_def same_queue_def on_files_def split_beta)

lemma queue_read_db [queue_intros]: "within same_queue (on_database g (read_op q))"
  by (auto simp: within_def same_queue_def on_database_def)

lemma queue_upsert [queue_intros]: "within same_queue (on_database g (upsert_file x now e))"
  by (auto simp: within_def same_queue_def on_database_def upsert_file_def files_upsert_def bind_op_def
      split: prod.split sum.split)

lemma queue_skipped [queue_intros]: "within same_queue (on_database g (record_skipped_folder_limit x now t))"
  by (auto simp: within_def same_queue_def on_database_def record_skipped_folder_limit_def bind_op_def
      split: prod.split sum.split)

lemma queue_read_folder [queue_intros]: "within same_queue (read_agent_folder g ax f store)"
  by (simp add: read_agent_folder_def queue_frame.within_read)

lemma client_same_queue: "client_frame T w w' \<Longrightarrow> same_queue w w'"
  by (cases w; cases w') (simp add: client_frame_def same_queue_def)

lemma queue_client [queue_intros]:
  "within same_queue (map_op_err g (fetch_file_to_path x cenv endpoint device secret p size_bytes destination))"
  "within same_queue (map_op_err g (put_file_from_path x ck cenv endpoint device secret p hash file_path size_bytes))"
  "within same_queue (map_op_err g (delete_file x ck cenv endpoint device secret p hash size_bytes))"
  by (intro map_op_err_within within_mono [OF fetch_file_within [where T = UNIV]]
      within_mono [OF put_file_within [where T = UNIV]] within_mono [OF within_json_requests(3) [where T = UNIV]]
      client_same_queue UNIV_I, assumption)+

lemma queue_download_steps [queue_intros]:
  "within same_queue (enforce_local_download_limit x ax env store p size_bytes)"
  "within same_queue (replaceable_target x env store operation)"
  "within same_queue (download_temporary_path env store i)"
  "within same_queue (publish_download env store p temporary)"
  unfolding enforce_local_download_limit_def replaceable_target_def download_temporary_path_def
    publish_download_def Let_def
  by (auto intro!: queue_intros queue_frame.within_intros split: option.split)

text \<open>
  Closing the operation is the last step of either handler, and cannot fail; what comes
  before leaves the queue as it is.
\<close>

definition closed_by ::
  "string \<Rightarrow> 'p agent_world \<Rightarrow> transfer_result \<Rightarrow> 'p agent_world \<Rightarrow> bool" where
  "closed_by i w result w' \<longleftrightarrow> tr_operation_id result = i \<and> tr_status result = ''done''
     \<and> (\<exists>t w1. same_queue w w1
          \<and> db_operations (aw_db w') = db_operations (mark_sync_operation_done t i (aw_db w1)))"

definition closing :: "string \<Rightarrow> ('p, transfer_result) transfer_op \<Rightarrow> bool" where
  "closing i m \<longleftrightarrow> (\<forall>w e w'. m w = (Inl e, w') \<longrightarrow> same_queue w w')
     \<and> (\<forall>w result w'. m w = (Inr result, w') \<longrightarrow> closed_by i w result w')"

lemma closing_error: "closing i (lift_result (Inl e))"
  by (simp add: closing_def same_queue_def)

lemma closing_if: "closing i m \<Longrightarrow> closing i n \<Longrightarrow> closing i (if c then m else n)"
  by simp

lemma closed_later: "same_queue w w1 \<Longrightarrow> closed_by i w1 result w' \<Longrightarrow> closed_by i w result w'"
  unfolding closed_by_def same_queue_def by metis

lemma closing_bind:
  assumes "within same_queue m" and "\<And>a. closing i (f a)"
  shows "closing i (bind_op m f)"
proof -
  have "same_queue w w'" if "bind_op m f w = (Inl e, w')" for w e w'
    using that
  proof (cases rule: bind_op_cases)
    case (failed e)
    then show ?thesis using within_step [OF assms(1)] by blast
  next
    case (continued a t)
    then have "same_queue t w'" using assms(2) [of a] by (simp add: closing_def)
    with within_step [OF assms(1) continued(1)] show ?thesis by (rule queue_frame.le_trans)
  qed
  moreover have "closed_by i w result w'" if "bind_op m f w = (Inr result, w')" for w result w'
    using that
  proof (cases rule: bind_op_cases)
    case (continued a t)
    then have "closed_by i t result w'" using assms(2) [of a] by (simp add: closing_def)
    with within_step [OF assms(1) continued(1)] show ?thesis by (rule closed_later)
  qed simp
  ultimately show ?thesis by (simp add: closing_def)
qed

lemma closing_last:
  assumes "tr_operation_id result = i" and "tr_status result = ''done''"
  shows "closing i (bind_op (on_database g (write_op (mark_sync_operation_done t i))) (\<lambda>_. lift_result (Inr result)))"
  using assms by (auto simp: closing_def closed_by_def bind_op_def on_database_def same_queue_def)

lemmas closing_intros = closing_error closing_if closing_bind closing_last

lemma transfer_done_fields [simp]:
  "tr_operation_id (transfer_done operation n) = op_id operation" "tr_status (transfer_done operation n) = ''done''"
  by (simp_all add: transfer_done_def)

lemma download_closes:
  "closing (op_id operation) (download_operation x ax env store profile endpoint secret remote_manifest operation)"
proof -
  have finish: "closing (op_id operation)
      (finish_download x env store profile operation remote_file replace_existing temporary transferred)"
    for remote_file replace_existing temporary transferred
    unfolding finish_download_def Let_def
    by (intro closing_bind closing_last queue_intros queue_frame.within_if queue_frame.within_lift
        transfer_done_fields)
  show ?thesis
    unfolding download_operation_def
    by (auto intro!: closing_bind closing_error closing_if queue_intros queue_frame.within_lift finish
        split: prod.split)
qed

lemma upload_closes:
  "closing (op_id operation) (upload_operation x ax env store profile endpoint secret remote_manifest operation)"
proof -
  have "within same_queue (replace_remote_target x ax env profile endpoint secret operation remote_target)" for remote_target
    unfolding replace_remote_target_def by (auto intro!: queue_intros queue_frame.within_intros)
  then have "within same_queue (case remote_target_of remote_manifest operation of
         None \<Rightarrow> lift_result (Inr ())
       | Some remote_target \<Rightarrow>
           replace_remote_target x ax env profile endpoint secret operation remote_target)"
    by (auto intro!: queue_frame.within_lift split: option.split)
  then show ?thesis
    unfolding upload_operation_def
    by (auto intro!: closing_bind closing_error closing_if closing_last queue_intros queue_frame.within_lift
        split: prod.split)
qed

lemma closing_handler:
  assumes "\<And>env operation. closing (op_id operation) (handle env operation)"
  shows "transfer_handler handle"
  using assms by unfold_locales (auto simp: closing_def closed_by_def)

interpretation downloads: transfer_handler
  "\<lambda>env. download_operation x ax env store profile endpoint secret remote_manifest"
  for x ax store profile endpoint secret remote_manifest
  by (rule closing_handler) (rule download_closes)

interpretation uploads: transfer_handler
  "\<lambda>env. upload_operation x ax env store profile endpoint secret remote_manifest"
  for x ax store profile endpoint secret remote_manifest
  by (rule closing_handler) (rule upload_closes)

section \<open>The run and the loop\<close>

lemma execute_queue_settles:
  assumes "execute_queue x ax supply store profile endpoint secret remote_manifest downloads uploads w = (r, w')"
  shows "\<exists>out. r = Inr out \<and> accounted out \<and> queue_agrees (eo_results out) (aw_db w')
    \<and> map tr_operation_id (eo_results out) = map op_id (downloads @ uploads)"
proof -
  let ?start = "\<lparr>eo_completed = 0, eo_failed = 0, eo_results = []\<rparr>"
  obtain out1 w1 where d: "execute_operations
      (\<lambda>env. download_operation x ax env store profile endpoint secret remote_manifest)
      op_remote_size_bytes supply 0 downloads (?start, w) = (out1, w1)" by fastforce
  obtain out2 w2 where u: "execute_operations
      (\<lambda>env. upload_operation x ax env store profile endpoint secret remote_manifest)
      op_local_size_bytes supply (length downloads) uploads (out1, w1) = (out2, w2)" by fastforce
  have "accounted ?start" by (simp add: accounted_def)
  moreover have "queue_agrees (eo_results ?start) (aw_db w)" by (simp add: queue_agrees_def recorded_def)
  ultimately have "accounted out1 \<and> queue_agrees (eo_results out1) (aw_db w1)
      \<and> map tr_operation_id (eo_results out1) = map op_id downloads"
    using downloads.execute_all [OF d] by simp
  then have "accounted out2 \<and> queue_agrees (eo_results out2) (aw_db w2)
      \<and> map tr_operation_id (eo_results out2) = map op_id downloads @ map op_id uploads"
    using uploads.execute_all [OF u] by simp
  moreover have "r = Inr out2" "w' = w2" using assms d u by (simp_all add: execute_queue_def)
  ultimately show ?thesis by simp
qed

lemma pending_limit:
  "list_pending_operations x remote kind limit db = Inr operations \<Longrightarrow> length operations \<le> unat limit"
  by (auto simp: list_pending_operations_def and_then_Inr_iff i64_of_u64_Some_iff
      dest!: collect_results_length)

subsection \<open>What a run of the queue takes\<close>

lemma scan_keeps_queue: "db_operations (snd (scan_into x clock now sc root_node db)) = db_operations db"
proof -
  have upserts: "db_operations (fold files_upsert rows db) = db_operations db" for rows db
    by (induction rows arbitrary: db) (simp_all add: files_upsert_def)
  have "db_operations (snd (scan_directories x clock sc stack s (mark_scan_started db))) = db_operations db" for stack s
    using scan_directories_upserts [of "mark_scan_started db" x clock sc stack s]
    by (auto simp: only_upserts_def upserts mark_scan_started_def)
  moreover obtain r db1 where "scan_directories x clock sc [(sn_root sc, root_node)] default_scan_summary
      (mark_scan_started db) = (r, db1)" by fastforce
  ultimately have "db_operations db1 = db_operations db"
    and "scan_directories x clock sc [(sn_root sc, root_node)] default_scan_summary (mark_scan_started db) = (r, db1)"
    by (metis snd_conv)+
  then show ?thesis
    by (cases r) (simp_all add: scan_into_def bind_op_apply finalize_scan_def split: sum.split)
qed

lemma queue_scan: "within same_queue (scan_local x env path profile)"
proof -
  have "same_queue w (snd (scan_local x env path profile w))" for w
    using scan_keeps_queue [of x "ag_scan_clock env" "ag_unixepoch env 0"
        "\<lparr>sn_root = path, sn_device_id = lp_device_id profile\<rparr>" "ag_tree env" "aw_db w"]
    by (simp add: same_queue_def scan_local_def on_database_def split_beta)
  then show ?thesis by (simp add: within_def)
qed

lemma queue_manifest:
  "within same_queue (map_op_err g (Peer_Client.fetch_manifest x ck cenv endpoint device secret))"
  by (intro map_op_err_within within_mono [OF within_json_requests(2) [where T = UNIV]] client_same_queue, assumption)

lemma queue_listings:
  assumes "same_queue w w'"
  shows "list_pending_download_operations x remote limit (aw_db w') = list_pending_download_operations x remote limit (aw_db w)"
    and "list_pending_upload_operations x remote limit (aw_db w') = list_pending_upload_operations x remote limit (aw_db w)"
  using assms
  by (simp_all add: same_queue_def list_pending_download_operations_def list_pending_upload_operations_def
      list_pending_operations_def)

section \<open>Properties\<close>




lemma sync_turn_outcome:
  assumes "sync_turn x ax rnd path endpoint secret limit (Some m) device_config c w = (Inr (printed, pause), w')"
  shows "(pause = None \<longleftrightarrow> m \<le> saturating_add c 1) \<and> (\<forall>seconds. pause = Some seconds \<longrightarrow> 1 \<le> seconds)"
  using assms
  by (auto simp: sync_turn_def bind_op_Inr lift_result_Inr sleep_seconds_def split: if_splits)

definition looped :: "u64 \<Rightarrow> nat \<Rightarrow> (agent_error + (sync_once_output \<times> int) list \<times> sync_once_output) \<Rightarrow> bool" where
  "looped m started r \<longleftrightarrow> (case r of Inl _ \<Rightarrow> True
     | Inr (outputs, _) \<Rightarrow> length outputs + 1 = started + max 1 (unat m - started)
         \<and> (\<forall>(printed, seconds) \<in> set outputs. 1 \<le> seconds))"

lemma sync_loop_from:
  assumes "length outputs < unat m \<or> outputs = []" and "c = of_nat (length outputs)"
    and "\<forall>(printed, seconds) \<in> set outputs. 1 \<le> seconds"
  shows "\<exists>r w'. sync_loop x ax rounds path endpoint secret limit (Some m) device_config n c outputs w
      = Some (r, w') \<and> looped m (length outputs) r"
  using assms
proof (induction "unat m - length outputs" arbitrary: outputs c n w rule: less_induct)
  case less
  let ?turn = "sync_turn x ax (rounds n) path endpoint secret limit (Some m) device_config c w"
  obtain r w1 where turn: "?turn = (r, w1)" by fastforce
  have "length outputs < 2 ^ 64 - 1 \<or> outputs = []" using less(2) unat_u64_lt [of m] by linarith
  then have c: "unat c = length outputs" and c1: "unat (saturating_add c 1) = length outputs + 1"
    using less(3) by (auto simp: u64_simps unat_of_nat)
  show ?case
  proof (cases r)
    case (Inl e)
    with turn show ?thesis by (subst sync_loop.simps) (simp add: looped_def)
  next
    case (Inr p)
    obtain printed pause where p: "p = (printed, pause)" by (cases p)
    note outcome = sync_turn_outcome [OF turn [unfolded Inr p]]
    show ?thesis
    proof (cases pause)
      case None
      with outcome c1 have "unat m \<le> length outputs + 1" by (simp add: word_le_nat_alt)
      with less(2,4) turn Inr p None show ?thesis
        by (subst sync_loop.simps) (auto simp: looped_def)
    next
      case (Some seconds)
      with outcome c1 have more: "length outputs + 1 < unat m" "1 \<le> seconds"
        by (auto simp: word_le_nat_alt)
      have "saturating_add c 1 = of_nat (length outputs + 1)" by (metis c1 of_nat_unat_u64)
      with more have "\<exists>r w'. sync_loop x ax rounds path endpoint secret limit (Some m) device_config (n + 1)
          (saturating_add c 1) (outputs @ [(printed, seconds)]) w1
        = Some (r, w') \<and> looped m (length (outputs @ [(printed, seconds)])) r"
        by (intro less(1)) (use less(4) in auto)
      moreover have "looped m (Suc (length outputs)) r \<longrightarrow> looped m (length outputs) r" for r
        using more(1) by (auto simp: looped_def split: sum.splits)
      ultimately show ?thesis using turn Inr p Some
        by (subst sync_loop.simps) auto
    qed
  qed
qed


section \<open>Examples\<close>

text \<open>
  A folder with its configuration, an empty index, and a peer that lists one file and serves
  it; the queue holds the download of that file.
\<close>

definition sample_agent_codecs :: agent_codecs where
  "sample_agent_codecs =
     \<lparr>ax_folder = sample_codec,
      ax_profile = \<lparr>to_vec_pretty = (\<lambda>_. Inl ''read only''), from_slice = (\<lambda>_. Inr sample_profile)\<rparr>,
      ax_client = \<lparr>ck_presence = (\<lambda>_. Inr []), ck_presence_response = (\<lambda>_. Inl ''unsupported''),
        ck_manifest = (\<lambda>_. Inr (sample_manifest ''b'' [])), ck_upload = (\<lambda>_. Inl ''unsupported''),
        ck_delete = (\<lambda>_. Inl ''unsupported'')\<rparr>,
      ax_version = ''0''\<rparr>"

definition sample_agent_env :: "unit client_env \<Rightarrow> unit agent_env" where
  "sample_agent_env client =
     \<lparr>ag_io = (\<lambda>_. no_faults), ag_open_db = (\<lambda>_. None), ag_tree = DirNode [], ag_scan_clock = (\<lambda>_. (1, 2)),
      ag_unixepoch = (\<lambda>_. 7), ag_now = 8, ag_other_exists = (\<lambda>_. Inr False), ag_remove_fault = (\<lambda>_. None),
      ag_client = (\<lambda>_. client), ag_operation_id = OperationId ''s'', ag_print_fault = None\<rparr>"

definition sample_agent_world :: "unit agent_world" where
  "sample_agent_world =
     \<lparr>cw_disk = \<lparr>dk_files = [''/d/.syncer/folder.json'' \<mapsto> ''f'', ''/dev.json'' \<mapsto> ''p'', ''/d/kept'' \<mapsto> ''x'']\<rparr>,
      cw_peer = (),
      aw_db = empty_database\<lparr>db_operations := [\<lparr>or_id = ''1'', or_path = ''a'', or_kind = ''download_from_remote'',
        or_status = ''pending'', or_reason = [], or_local_size_bytes = None, or_remote_size_bytes = Some 5,
        or_local_content_hash = None, or_remote_content_hash = Some ''hello'', or_remote_device_id = ''b'',
        or_last_error = None, or_retry_count = 0, or_started_at_unix = None, or_finished_at_unix = None,
        or_created_at_unix = 1, or_updated_at_unix = 1\<rparr>]\<rparr>\<rparr>"

definition sample_download :: sync_operation_record where
  "sample_download =
     \<lparr>op_id = ''1'', op_path = RelativePath ''a'', op_kind = OpDownloadFromRemote, op_status = Pending,
      op_reason = [], op_local_size_bytes = None, op_remote_size_bytes = Some 5,
      op_local_content_hash = None, op_remote_content_hash = Some ''hello'', op_remote_device_id = ''b'',
      op_last_error = None, op_retry_count = 0, op_started_at = None, op_finished_at = None,
      op_created_at = 1, op_updated_at = 1\<rparr>"

definition sample_listing :: folder_manifest where
  "sample_listing = sample_manifest ''b'' [(sample_record ''a'' ''hello'' LocalAvailable)\<lparr>rec_size_bytes := 5\<rparr>]"

definition sample_download_run :: "(transfer_error + transfer_result) \<times> unit agent_world" where
  "sample_download_run = download_operation sample_agent_externals sample_agent_codecs
     (sample_agent_env sample_client_env) \<lparr>st_root = ''/d''\<rparr> sample_profile ''http://10.0.0.2:80''
     (replicate 32 CHR ''k'') sample_listing sample_download sample_agent_world"

lemma sample_download_succeeds: "\<exists>result w'. sample_download_run = (Inr result, w')"
proof -
  let ?x = sample_agent_externals and ?env = "sample_agent_env sample_client_env" and ?w = sample_agent_world
  let ?store = "\<lparr>st_root = ''/d''\<rparr>" and ?part = "part_path \<lparr>st_root = ''/d''\<rparr> ''1''"
  let ?remote = "(sample_record ''a'' ''hello'' LocalAvailable)\<lparr>rec_size_bytes := 5\<rparr>"
  let ?got = "\<lparr>tf_size_bytes = 5, tf_content_hash = ''hello''\<rparr>"
  have op: "op_path sample_download = RelativePath ''a''" "op_id sample_download = ''1''"
    by (simp_all add: sample_download_def)
  have source: "remote_source sample_listing sample_download = Inr (?remote, ''hello'')" by code_simp
  have size: "rec_size_bytes ?remote = 5" by simp
  have "fst (enforce_local_download_limit ?x sample_agent_codecs ?env ?store (RelativePath ''a'') 5 ?w) = Inr ()"
    by code_simp
  then have limit: "enforce_local_download_limit ?x sample_agent_codecs ?env ?store (RelativePath ''a'') 5 ?w = (Inr (), ?w)"
    using enforce_limit_Inr by (metis prod.collapse)
  have "fst (replaceable_target ?x ?env ?store sample_download ?w) = Inr False" by code_simp
  then have target: "replaceable_target ?x ?env ?store sample_download ?w = (Inr False, ?w)"
    using replaceable_target_Inr by (metis prod.collapse)
  have temporary: "download_temporary_path ?env ?store ''1'' ?w = (Inr ?part, ?w)"
    by (simp add: download_temporary_path_def bind_op_def on_files_def fs_create_dir_all_def
        sample_agent_env_def no_faults_def)
  have client: "ag_client ?env 0 = sample_client_env" by (simp add: sample_agent_env_def)
  obtain w1 where fetch: "fetch_file_to_path ?x (ag_client ?env 0) ''http://10.0.0.2:80''
      (device_id_text (lp_device_id sample_profile)) (replicate 32 CHR ''k'') (RelativePath ''a'') 5 ?part ?w
      = (Inr ?got, w1)"
    unfolding client using sample_fetch_completes by blast
  from fetched_file [OF fetch sample_aead_laws part_path_is_not_ciphertext] obtain plain
    where "dk_files (cw_disk w1) ?part = Some plain" by blast
  then have "\<exists>result w'. finish_download ?x ?env ?store sample_profile sample_download ?remote False ?part ?got w1
      = (Inr result, w')"
    by (auto simp: finish_download_def publish_download_def Let_def bind_op_def on_files_def on_database_def
        fs_create_dir_all_def fs_rename_def sample_agent_env_def no_faults_def upsert_file_def
        file_row_of_entry_def downloaded_entry_def sample_record_def i64_of_u64_def
        sample_agent_externals_def split: option.split)
  with op source limit target temporary fetch show ?thesis
    by (simp add: sample_download_run_def download_operation_def bind_op_def map_op_err_def size)
qed


definition sample_upload_run :: "(transfer_error + transfer_result) \<times> unit agent_world" where
  "sample_upload_run = upload_operation sample_agent_externals sample_agent_codecs
     (sample_agent_env sample_client_env) \<lparr>st_root = ''/d''\<rparr> sample_profile ''http://10.0.0.2:80''
     (replicate 32 CHR ''k'') sample_listing (sample_download\<lparr>op_remote_content_hash := Some ''old''\<rparr>)
     sample_agent_world"


definition sample_json_env :: "unit client_env" where
  "sample_json_env = sample_client_env\<lparr>cl_answer := \<lambda>_ peer sent.
     ([Segment (''HTTP/1.1 200 OK'' @ crlf @ crlf @ ''{}'')], peer)\<rparr>"

lemma sample_manifest_fetched:
  fixes w :: "(unit, 'z) client_world_scheme"
  shows "fst (fetch_manifest sample_agent_externals (ax_client sample_agent_codecs) sample_json_env
    ''http://10.0.0.2:80'' device (replicate 32 CHR ''k'') w) = Inr (sample_manifest ''b'' [])"
proof -
  have "is_ok (peer_address_parse ''http://10.0.0.2:80'')" by code_simp
  then obtain address where address: "peer_address_parse ''http://10.0.0.2:80'' = Inr address"
    by (auto simp: is_ok_iff)
  then obtain header where header: "signed_request_header sample_agent_externals (cl_now sample_json_env)
      \<lparr>pq_method = ''GET'', pq_endpoint = ''http://10.0.0.2:80'', pq_path = ''/manifest'', pq_device_id = device,
       pq_shared_secret_hex = replicate 32 CHR ''k'', pq_body = [], pq_extra_headers = [],
       pq_response_limit_bytes = response_limit_bytes\<rparr> = Inr header"
    by (auto simp: signed_request_header_def sign_request_def sign_request_with_body_hash_hex_def
        sample_agent_externals_def Let_def)
  let ?answer = "''HTTP/1.1 200 OK'' @ crlf @ crlf @ ''{}''"
  have answer: "cl_answer sample_json_env address (cw_peer w) (header @ []) = ([Segment ?answer], ())"
    by (simp add: sample_json_env_def)
  have faults: "cl_connect_fault sample_json_env address = None" "\<And>k. cl_send_fault sample_json_env k = None"
    by (simp_all add: sample_json_env_def sample_client_env_def)
  have bytes: "stream_bytes [Segment ?answer] = Some ?answer" by simp
  have short: "length ?answer \<le> response_limit_bytes" by (simp add: response_limit_bytes_def crlf_def)
  have "parse_json_response (ck_manifest (ax_client sample_agent_codecs)) ?answer = Inr (sample_manifest ''b'' [])"
    by code_simp
  with request_json_completes [OF _ address faults header answer bytes short,
      where body = None and decode = "ck_manifest (ax_client sample_agent_codecs)"]
  show ?thesis by (simp add: fetch_manifest_def)
qed

definition sample_queue_run :: "(agent_error + execute_output) \<times> unit agent_world" where
  "sample_queue_run = run_sync_queue sample_agent_externals sample_agent_codecs
     (sample_agent_env sample_json_env) (\<lambda>_. sample_agent_env sample_json_env) ''/d'' ''http://10.0.0.2:80''
     (replicate 32 CHR ''k'') 10 ''/dev.json'' sample_agent_world"

lemma client_database: "client_frame T w w' \<Longrightarrow> aw_db w' = aw_db w"
  by (cases w; cases w') (simp add: client_frame_def)

lemma sample_queue_run_ok: "\<exists>out w'. sample_queue_run = (Inr out, w')"
proof -
  let ?x = sample_agent_externals and ?env = "sample_agent_env sample_json_env" and ?w = sample_agent_world
  let ?ax = sample_agent_codecs
  have profile: "read_profile ?ax (ag_io ?env 0) ''/dev.json'' ?w = (Inr sample_profile, ?w)"
    by (simp add: read_profile_def local_device_profile_read_def fs_read_def sample_agent_env_def
        no_faults_def sample_agent_world_def sample_agent_codecs_def)
  have opened: "open_state AgentCore ?env 0 ?w = (Inr (), ?w)"
    by (simp add: open_state_def sample_agent_env_def)
  have "is_ok (fst (scan_local ?x ?env ''/d'' sample_profile ?w))" by code_simp
  then obtain summary w1 where scan: "scan_local ?x ?env ''/d'' sample_profile ?w = (Inr summary, w1)"
    by (cases "scan_local ?x ?env ''/d'' sample_profile ?w") (auto simp: is_ok_iff)
  have "case list_pending_download_operations ?x ''b'' 10 (aw_db (snd (scan_local ?x ?env ''/d'' sample_profile ?w))) of
      Inl _ \<Rightarrow> False
    | Inr downloads \<Rightarrow> is_ok (list_pending_upload_operations ?x ''b'' (saturating_sub 10 (len_u64 downloads))
        (aw_db (snd (scan_local ?x ?env ''/d'' sample_profile ?w))))" by code_simp
  then obtain downloads uploads where lists:
    "list_pending_download_operations ?x ''b'' 10 (aw_db w1) = Inr downloads"
    "list_pending_upload_operations ?x ''b'' (saturating_sub 10 (len_u64 downloads)) (aw_db w1) = Inr uploads"
    unfolding scan snd_conv by (auto simp: is_ok_iff split: sum.splits)
  obtain w2 where fetch: "fetch_manifest ?x (ax_client ?ax) (ag_client ?env 0) ''http://10.0.0.2:80''
      (device_id_text (lp_device_id sample_profile)) (replicate 32 CHR ''k'') w1 = (Inr (sample_manifest ''b'' []), w2)"
    using sample_manifest_fetched [of "device_id_text (lp_device_id sample_profile)" w1]
    by (metis prod.collapse sample_agent_env_def agent_env.select_convs(9))
  have "aw_db w2 = aw_db w1"
    by (rule client_database, rule within_step [OF within_json_requests(2) fetch])
  moreover have "fm_device_id (sample_manifest ''b'' []) = DeviceId ''b''" by (simp add: sample_manifest_def)
  ultimately have "sample_queue_run = execute_queue ?x ?ax (\<lambda>_. ?env) \<lparr>st_root = ''/d''\<rparr> sample_profile
      ''http://10.0.0.2:80'' (replicate 32 CHR ''k'') (sample_manifest ''b'' []) downloads uploads w2"
    using profile opened scan fetch lists
    by (simp add: sample_queue_run_def run_sync_queue_def Let_def bind_op_def map_op_err_def on_database_def)
  then show ?thesis using execute_queue_settles by (metis prod.collapse)
qed

end
