(* ===== verification/Agent_Commands.thy ===== *)
theory Agent_Commands
  imports Sync_Agent Peer_Server
begin

text \<open>
  The commands of the agent, \<open>main.rs\<close>: each is one operation on the agent's world that
  returns the value it prints, and \<open>run_command\<close> is the dispatch of \<open>main\<close>. The parsing
  of the command line (\<open>clap\<close>) and the printed JSON are not part of the model.
\<close>

section \<open>Configuration files\<close>

text \<open>\<open>create_new\<close>: a file that exists is an error; then the writes, by number.\<close>

record config_io =
  cg_create_dir :: "string \<Rightarrow> string option"
  cg_create :: "string \<Rightarrow> string option"
  cg_write :: "nat \<Rightarrow> (string \<times> string) option"

definition create_new_file :: "config_io \<Rightarrow> string \<Rightarrow> (disk, agent_error, unit) stateful" where
  "create_new_file io path d =
     (case cg_create io path of
        Some msg \<Rightarrow> (Inl (CreateConfig path msg), d)
      | None \<Rightarrow>
          if dk_files d path \<noteq> None then (Inl (CreateConfig path ''File exists (os error 17)''), d)
          else (Inr (), set_file path (Some []) d))"

definition append_file :: "config_io \<Rightarrow> nat \<Rightarrow> string \<Rightarrow> string \<Rightarrow> (disk, agent_error, unit) stateful" where
  "append_file io k path bytes d =
     (let old = (case dk_files d path of None \<Rightarrow> [] | Some content \<Rightarrow> content) in
      case cg_write io k of
        None \<Rightarrow> (Inr (), set_file path (Some (old @ bytes)) d)
      | Some (msg, part) \<Rightarrow> (Inl (WriteConfig path msg), set_file path (Some (old @ part)) d))"

definition write_json_to_writer ::
  "config_io \<Rightarrow> string + string \<Rightarrow> string \<Rightarrow> (disk, agent_error, unit) stateful" where
  "write_json_to_writer io serialized path =
     bind_op (lift_result (map_err AgentJson serialized)) (\<lambda>bytes.
     bind_op (append_file io 0 path bytes) (\<lambda>_. append_file io 1 path [newline]))"

definition write_json_file ::
  "config_io \<Rightarrow> string \<Rightarrow> string + string \<Rightarrow> (disk, agent_error, unit) stateful" where
  "write_json_file io path serialized =
     bind_op (lift_result (case path_parent path of
         None \<Rightarrow> Inr ()
       | Some parent \<Rightarrow> (case cg_create_dir io parent of
             None \<Rightarrow> Inr () | Some msg \<Rightarrow> Inl (CreateDirectory parent msg)))) (\<lambda>_.
     bind_op (create_new_file io path) (\<lambda>_.
       write_json_to_writer io serialized path))"

definition on_config :: "(disk, agent_error, 'a) stateful \<Rightarrow> ('p, 'a) agent_op" where
  "on_config m = (\<lambda>w. case m (cw_disk w) of (r, d) \<Rightarrow> (r, w\<lparr>cw_disk := d\<rparr>))"

section \<open>The accept loop of the server\<close>

text \<open>
  \<open>peer_server::run\<close>: what the listener accepts, in order, each with the answers its task
  gets. A task is run to its end before the next connection: the interleaving of tasks is
  not part of the model. The loop only ends with an error of \<open>accept\<close>; after the last
  arrival of the list it waits (\<open>None\<close>).
\<close>

datatype arrival = Accepted spool_io server_env tcp_stream | AcceptFailed string

fun peer_server_run ::
  "'x agent_externals_scheme \<Rightarrow> server_codecs \<Rightarrow> peer_server_config \<Rightarrow> arrival list
     \<Rightarrow> string list \<Rightarrow> server_world \<Rightarrow> peer_server_error option \<times> string list \<times> server_world" where
  "peer_server_run x cd config [] replies w = (None, replies, w)"
| "peer_server_run x cd config (AcceptFailed message # _) replies w = (Some (ServerIo message), replies, w)"
| "peer_server_run x cd config (Accepted io env s # arrivals) replies w =
     (case handle_stream x cd io env config s w of (_, sent, w') \<Rightarrow>
        peer_server_run x cd config arrivals (replies @ [sent]) w')"

section \<open>Devices and folders\<close>

record init_device_output =
  id_device_id :: string
  id_device_name :: string
  id_identity_public_hex :: string
  id_config_path :: string

text \<open>The answers a command gets beyond those of a step: files it creates, and random values.\<close>

record 'p command_env =
  ce_agent :: "'p agent_env"
  ce_config :: config_io
  ce_identity_secret :: string
  ce_token :: string
  ce_device_id :: device_id
  ce_folder_id :: folder_id
  ce_operation_ids :: "nat \<Rightarrow> operation_id"
  ce_supply :: "nat \<Rightarrow> string \<times> int"
  ce_operations :: "nat \<Rightarrow> 'p agent_env"
  ce_rounds :: "nat \<Rightarrow> 'p round_env"
  ce_bind_fault :: "string option"
  ce_arrivals :: "arrival list"

record command_codecs =
  cc_agent :: agent_codecs
  cc_ticket :: "pairing_ticket_document json_codec"
  cc_server :: server_codecs

definition init_device ::
  "'x agent_externals_scheme \<Rightarrow> command_codecs \<Rightarrow> 'p command_env \<Rightarrow> string \<Rightarrow> string
     \<Rightarrow> ('p, init_device_output) agent_op" where
  "init_device x cc env name config =
     bind_op (lift_result (map_err AgentCore (local_device_profile_create x (ce_identity_secret env)
        (ce_token env) (ce_device_id env) (ag_now (ce_agent env)) name))) (\<lambda>profile.
     bind_op (on_config (write_json_file (ce_config env) config
        (to_vec_pretty (ax_profile (cc_agent cc)) profile))) (\<lambda>_.
       lift_result (Inr \<lparr>id_device_id = device_id_text (lp_device_id profile),
         id_device_name = device_name_str (lp_device_name profile),
         id_identity_public_hex = lp_identity_public_hex profile, id_config_path = config\<rparr>)))"

record init_folder_output =
  if_folder_id :: string
  if_folder_path :: string
  if_config_path :: string
  if_state_db_path :: string

definition init_folder ::
  "command_codecs \<Rightarrow> 'p command_env \<Rightarrow> string \<Rightarrow> string \<Rightarrow> u64 \<Rightarrow> u8 \<Rightarrow> ('p, init_folder_output) agent_op" where
  "init_folder cc env path display_name limit_bytes warning_percent =
     bind_op (lift_result (map_err AgentCore (folder_size_limit_new limit_bytes warning_percent))) (\<lambda>limit.
     (let store = \<lparr>st_root = path\<rparr> in
      bind_op (\<lambda>w. case folder_store_initialize (ag_io (ce_agent env) 0) (ax_folder (cc_agent cc))
             (ce_folder_id env) store display_name Bidirectional limit [] (cw_disk w) of
           (r, d) \<Rightarrow> (map_err AgentCore r, w\<lparr>cw_disk := d\<rparr>)) (\<lambda>document.
      bind_op (open_state AgentCore (ce_agent env) 0) (\<lambda>_.
        lift_result (Inr \<lparr>if_folder_id = folder_id_text (fc_id (fd_folder document)), if_folder_path = path,
          if_config_path = folder_json_path store, if_state_db_path = state_db_path store\<rparr>)))))"

definition scan_folder ::
  "'x agent_externals_scheme \<Rightarrow> command_codecs \<Rightarrow> 'p command_env \<Rightarrow> string \<Rightarrow> string
     \<Rightarrow> ('p, scan_summary) agent_op" where
  "scan_folder x cc env path device_config =
     bind_op (read_profile (cc_agent cc) (ag_io (ce_agent env) 0) device_config) (\<lambda>profile.
     bind_op (open_state AgentCore (ce_agent env) 0) (\<lambda>_.
       scan_local x (ce_agent env) path profile))"

definition folder_status_command ::
  "'x agent_externals_scheme \<Rightarrow> 'p command_env \<Rightarrow> ('p, folder_status) agent_op" where
  "folder_status_command x env =
     bind_op (open_state AgentCore (ce_agent env) 0) (\<lambda>_.
       on_database AgentCore (read_op (folder_status x)))"

definition load_manifest ::
  "'x agent_externals_scheme \<Rightarrow> command_codecs \<Rightarrow> 'p command_env \<Rightarrow> string \<Rightarrow> local_device_profile
     \<Rightarrow> ('p, folder_manifest) agent_op" where
  "load_manifest x cc env path profile =
     bind_op (read_agent_folder AgentCore (cc_agent cc) (ag_io (ce_agent env) 1) \<lparr>st_root = path\<rparr>) (\<lambda>folder.
     bind_op (open_state AgentCore (ce_agent env) 0) (\<lambda>_.
       on_database AgentCore (read_op (export_manifest x (ag_now (ce_agent env)) (fc_id (fd_folder folder))
         (lp_device_id profile)))))"

definition export_manifest_command ::
  "'x agent_externals_scheme \<Rightarrow> command_codecs \<Rightarrow> 'p command_env \<Rightarrow> string \<Rightarrow> string
     \<Rightarrow> ('p, folder_manifest) agent_op" where
  "export_manifest_command x cc env path device_config =
     bind_op (read_profile (cc_agent cc) (ag_io (ce_agent env) 0) device_config)
       (load_manifest x cc env path)"

section \<open>Pairing\<close>

datatype pairing_ticket_reply = TicketWritten string string datetime | TicketPrinted pairing_ticket_document

definition pairing_ticket_command ::
  "'x agent_externals_scheme \<Rightarrow> command_codecs \<Rightarrow> 'p command_env \<Rightarrow> string \<Rightarrow> int \<Rightarrow> string
     \<Rightarrow> string option \<Rightarrow> ('p, pairing_ticket_reply) agent_op" where
  "pairing_ticket_command x cc env endpoint ttl_seconds device_config out =
     bind_op (read_profile (cc_agent cc) (ag_io (ce_agent env) 0) device_config) (\<lambda>profile.
     bind_op (lift_result (map_err AgentPeerStore (ticket_create x (ce_identity_secret env)
        (ag_now (ce_agent env)) profile endpoint ttl_seconds))) (\<lambda>ticket.
     case out of
       Some path \<Rightarrow>
         bind_op (on_config (write_json_file (ce_config env) path (to_vec_pretty (cc_ticket cc) ticket))) (\<lambda>_.
           lift_result (Inr (TicketWritten path (device_id_text (pd_device_id ticket)) (pd_expires_at ticket))))
     | None \<Rightarrow> lift_result (Inr (TicketPrinted ticket))))"

record accept_peer_output =
  ao_accepted :: bool
  ao_device_id :: string
  ao_device_name :: string
  ao_peers_path :: string

definition accept_peer ::
  "'x agent_externals_scheme \<Rightarrow> command_codecs \<Rightarrow> 'p command_env \<Rightarrow> string \<Rightarrow> string
     \<Rightarrow> ('p, accept_peer_output) agent_op" where
  "accept_peer x cc env ticket_path peers_path =
     (let io = ag_io (ce_agent env); now = ag_now (ce_agent env) in
      bind_op (read_op (\<lambda>w. map_err AgentPeerStore
        (ticket_read x (io 0) (cc_ticket cc) now ticket_path (cw_disk w)))) (\<lambda>ticket.
      bind_op (read_op (\<lambda>w. map_err AgentPeerStore
        (peer_store_read_or_default (io 1) (sx_peers (cc_server cc)) peers_path (cw_disk w)))) (\<lambda>store.
      bind_op (lift_result (case accept_ticket x now now ticket store of
          (Inl e, _) \<Rightarrow> Inl (AgentPeerStore e) | (Inr _, store') \<Rightarrow> Inr store')) (\<lambda>store'.
      bind_op (\<lambda>w. case peer_store_write (io 2) (sx_peers (cc_server cc)) peers_path store' (cw_disk w) of
          (r, d) \<Rightarrow> (map_err AgentPeerStore r, w\<lparr>cw_disk := d\<rparr>)) (\<lambda>_.
        lift_result (Inr \<lparr>ao_accepted = True, ao_device_id = device_id_text (pd_device_id ticket),
          ao_device_name = pd_device_name ticket, ao_peers_path = peers_path\<rparr>))))))"

section \<open>The peer\<close>

definition ping_peer ::
  "'x agent_externals_scheme \<Rightarrow> command_codecs \<Rightarrow> 'p command_env \<Rightarrow> string \<Rightarrow> string \<Rightarrow> string
     \<Rightarrow> ('p, presence_response) agent_op" where
  "ping_peer x cc env endpoint shared_secret device_config =
     send_presence x (cc_agent cc) (ce_agent env) endpoint shared_secret device_config"

definition fetch_manifest_command ::
  "'x agent_externals_scheme \<Rightarrow> command_codecs \<Rightarrow> 'p command_env \<Rightarrow> string \<Rightarrow> string \<Rightarrow> string
     \<Rightarrow> ('p, folder_manifest) agent_op" where
  "fetch_manifest_command x cc env endpoint shared_secret device_config =
     bind_op (read_profile (cc_agent cc) (ag_io (ce_agent env) 0) device_config) (\<lambda>profile.
       map_op_err AgentPeerClient (fetch_manifest x (ax_client (cc_agent cc)) (ag_client (ce_agent env) 0)
         endpoint (device_id_text (lp_device_id profile)) shared_secret))"

definition plan_sync ::
  "'x agent_externals_scheme \<Rightarrow> command_codecs \<Rightarrow> 'p command_env \<Rightarrow> string \<Rightarrow> string \<Rightarrow> string \<Rightarrow> string
     \<Rightarrow> ('p, sync_plan) agent_op" where
  "plan_sync x cc env path endpoint shared_secret device_config =
     build_sync_plan x (cc_agent cc) (ce_agent env) path endpoint shared_secret device_config"

definition enqueue_sync_plan_command ::
  "'x agent_externals_scheme \<Rightarrow> command_codecs \<Rightarrow> 'p command_env \<Rightarrow> string \<Rightarrow> string \<Rightarrow> string \<Rightarrow> string
     \<Rightarrow> ('p, queue_status_record \<times> sync_plan_summary) agent_op" where
  "enqueue_sync_plan_command x cc env path endpoint shared_secret device_config =
     bind_op (build_sync_plan x (cc_agent cc) (ce_agent env) path endpoint shared_secret device_config) (\<lambda>plan.
     bind_op (on_database AgentCore (enqueue_sync_plan x (ce_supply env) plan)) (\<lambda>status.
       lift_result (Inr (status, pl_summary plan))))"

section \<open>The queue\<close>

definition queue_status_command ::
  "'x agent_externals_scheme \<Rightarrow> 'p command_env
     \<Rightarrow> ('p, queue_status_record \<times> sync_operation_record list) agent_op" where
  "queue_status_command x env =
     bind_op (open_state AgentCore (ce_agent env) 0) (\<lambda>_.
     bind_op (on_database AgentCore (read_op (queue_status x))) (\<lambda>status.
     bind_op (on_database AgentCore (read_op (list_sync_operations x))) (\<lambda>operations.
       lift_result (Inr (status, operations)))))"

definition retry_failed ::
  "'x agent_externals_scheme \<Rightarrow> 'p command_env \<Rightarrow> string option \<Rightarrow> ('p, retry_failed_summary) agent_op" where
  "retry_failed x env remote_device_id =
     bind_op (open_state AgentCore (ce_agent env) 0) (\<lambda>_.
       on_database AgentCore (retry_failed_sync_operations x (ag_unixepoch (ce_agent env) 0) remote_device_id))"

datatype resolve_action_arg = ResolveArgDownload | ResolveArgUpload

fun resolution_of :: "resolve_action_arg \<Rightarrow> blocked_operation_resolution" where
  "resolution_of ResolveArgDownload = ResolveDownloadFromRemote"
| "resolution_of ResolveArgUpload = ResolveUploadToRemote"

definition resolve_blocked ::
  "'x agent_externals_scheme \<Rightarrow> 'p command_env \<Rightarrow> string \<Rightarrow> blocked_operation_resolution
     \<Rightarrow> ('p, resolve_operation_summary) agent_op" where
  "resolve_blocked x env operation_id resolution =
     bind_op (open_state AgentCore (ce_agent env) 0) (\<lambda>_.
       on_database AgentCore (resolve_blocked_sync_operation x (ag_unixepoch (ce_agent env) 0)
         operation_id resolution))"

section \<open>Deleting a file\<close>

record delete_file_output =
  dfo_path :: relative_path
  dfo_scope :: delete_scope
  dfo_local_deleted :: bool
  dfo_remote_deleted :: bool

datatype delete_scope_arg = ScopeArgLocalOnly | ScopeArgBoth

fun delete_scope_of :: "delete_scope_arg \<Rightarrow> delete_scope" where
  "delete_scope_of ScopeArgLocalOnly = LocalOnly"
| "delete_scope_of ScopeArgBoth = PropagateToPeers"

text \<open>The indexed file of the path, and the removal of the file itself.\<close>

definition remove_local_target ::
  "'p command_env \<Rightarrow> string \<Rightarrow> ('p, unit) agent_op" where
  "remove_local_target env target =
     bind_op (read_op (\<lambda>w. map_err (\<lambda>source. AgentTransfer (TransferFilesystem target source))
        (try_exists (ag_other_exists (ce_agent env)) target (cw_disk w)))) (\<lambda>target_exists.
     if target_exists
     then on_files (\<lambda>source. AgentTransfer (TransferFilesystem target source))
            (fs_remove_file (ag_remove_fault (ce_agent env)) target)
     else lift_result (Inr ()))"

text \<open>The part of the command that reaches the peer.\<close>

definition delete_at_peer ::
  "'x agent_externals_scheme \<Rightarrow> command_codecs \<Rightarrow> 'p command_env \<Rightarrow> relative_path \<Rightarrow> file_record
     \<Rightarrow> string option \<Rightarrow> string option \<Rightarrow> string \<Rightarrow> ('p, unit) agent_op" where
  "delete_at_peer x cc env p existing endpoint shared_secret device_config =
     bind_op (lift_result (ok_or MissingDeletePeerConfig endpoint)) (\<lambda>endpoint'.
     bind_op (lift_result (ok_or MissingDeletePeerConfig shared_secret)) (\<lambda>shared_secret'.
     bind_op (read_profile (cc_agent cc) (ag_io (ce_agent env) 0) device_config) (\<lambda>profile.
     bind_op (lift_result (ok_or (AgentTransfer LocalHashMissing) (rec_content_hash existing))) (\<lambda>expected_hash.
     bind_op (map_op_err AgentPeerClient (delete_file x (ax_client (cc_agent cc)) (ag_client (ce_agent env) 0)
        endpoint' (device_id_text (lp_device_id profile)) shared_secret' p expected_hash
        (rec_size_bytes existing))) (\<lambda>response.
     if \<not> dr_accepted response \<or> \<not> path_eq (path_str (dr_path response)) (path_str p)
        \<or> dr_size_bytes response \<noteq> rec_size_bytes existing \<or> dr_content_hash response \<noteq> expected_hash
     then lift_result (Inl (AgentTransfer UploadRejected))
     else lift_result (Inr ()))))))"

definition delete_file_command ::
  "'x agent_externals_scheme \<Rightarrow> command_codecs \<Rightarrow> 'p command_env \<Rightarrow> string \<Rightarrow> string \<Rightarrow> delete_scope
     \<Rightarrow> string option \<Rightarrow> string option \<Rightarrow> string \<Rightarrow> ('p, delete_file_output) agent_op" where
  "delete_file_command x cc env path file_argument scope endpoint shared_secret device_config =
     bind_op (lift_result (map_err AgentCore (relative_path_parse file_argument))) (\<lambda>p.
     bind_op (open_state AgentCore (ce_agent env) 0) (\<lambda>_.
     bind_op (on_database AgentCore (read_op (list_files x))) (\<lambda>files.
     bind_op (lift_result (ok_or (AgentTransfer LocalFileMissing)
        (find (\<lambda>record. path_eq (path_str (rec_path record)) (path_str p)) files))) (\<lambda>existing.
     bind_op (remove_local_target env (local_target \<lparr>st_root = path\<rparr> p)) (\<lambda>_.
     case scope of
       LocalOnly \<Rightarrow>
         bind_op (on_database AgentCore
            (write_op (mark_file_deleted_locally (ag_unixepoch (ce_agent env) 0) p))) (\<lambda>_.
           lift_result (Inr \<lparr>dfo_path = p, dfo_scope = scope, dfo_local_deleted = True,
             dfo_remote_deleted = False\<rparr>))
     | PropagateToPeers \<Rightarrow>
         bind_op (delete_at_peer x cc env p existing endpoint shared_secret device_config) (\<lambda>_.
         bind_op (on_database AgentCore (write_op (forget_file p))) (\<lambda>_.
           lift_result (Inr \<lparr>dfo_path = p, dfo_scope = scope, dfo_local_deleted = True,
             dfo_remote_deleted = True\<rparr>))))))))"

section \<open>Planning the limit of a folder\<close>

record pending_transfer_arg =
  pa_path :: string
  pa_size_bytes :: u64
  pa_queued_at :: datetime

text \<open>\<open>str::splitn(n, c)\<close>.\<close>

fun splitn :: "nat \<Rightarrow> 'a \<Rightarrow> 'a list \<Rightarrow> 'a list list" where
  "splitn 0 c s = []"
| "splitn (Suc 0) c s = [s]"
| "splitn (Suc (Suc n)) c s =
     (case split_once c s of None \<Rightarrow> [s] | Some (part, rest) \<Rightarrow> part # splitn (Suc n) c rest)"

text \<open>The argument is \<open>OffsetDateTime::parse\<close> with the format of RFC 3339.\<close>

definition parse_pending_transfer ::
  "(string \<Rightarrow> string + datetime) \<Rightarrow> string \<Rightarrow> agent_error + pending_transfer_arg" where
  "parse_pending_transfer parse_rfc3339 value =
     (let parts = splitn 3 CHR '':'' value in
      and_then (ok_or InvalidPendingTransfer
        (case parts of [] \<Rightarrow> None | part # _ \<Rightarrow> if part = [] then None else Some part)) (\<lambda>path.
      and_then (ok_or InvalidPendingTransfer (case parts of _ # part # _ \<Rightarrow> Some part | _ \<Rightarrow> None)) (\<lambda>size_text.
      and_then (ok_or InvalidPendingTransfer (parse_u64 size_text)) (\<lambda>size_bytes.
      and_then (ok_or InvalidPendingTransfer (case parts of _ # _ # part # _ \<Rightarrow> Some part | _ \<Rightarrow> None)) (\<lambda>time_text.
      and_then (map_err DateTime (parse_rfc3339 time_text)) (\<lambda>queued_at.
        Inr \<lparr>pa_path = path, pa_size_bytes = size_bytes, pa_queued_at = queued_at\<rparr>))))))"

definition plan_folder_limit ::
  "'p command_env \<Rightarrow> u64 \<Rightarrow> u8 \<Rightarrow> u64 \<Rightarrow> pending_transfer_arg list \<Rightarrow> agent_error + folder_limit_plan" where
  "plan_folder_limit env limit_bytes warning_percent used_bytes arguments =
     and_then (map_err AgentCore (folder_size_limit_new limit_bytes warning_percent)) (\<lambda>limit.
     and_then (map_err AgentCore (collect_results (\<lambda>(n, argument).
         and_then (relative_path_parse (pa_path argument)) (\<lambda>p.
           Inr \<lparr>pt_operation_id = ce_operation_ids env n, pt_path = p,
             pt_size_bytes = pa_size_bytes argument, pt_queued_at = pa_queued_at argument\<rparr>))
        (enumerate 0 arguments))) (\<lambda>pending.
       Inr (plan_transfers limit used_bytes pending)))"

section \<open>The commands\<close>

datatype command =
    InitDevice string string
  | InitFolder string string u64 u8
  | ScanFolder string string
  | FolderStatus string
  | ExportManifest string string
  | Serve string string string string
  | PairingTicketCommand string int string "string option"
  | AcceptPeer string string
  | PingPeer string string string
  | FetchManifest string string string
  | PlanSync string string string string
  | EnqueueSyncPlan string string string string
  | QueueStatus string
  | RetryFailed string "string option"
  | ResolveBlocked string string resolve_action_arg
  | DeleteFile string string delete_scope_arg "string option" "string option" string
  | ExecuteSyncQueue string string string u64 string
  | SyncOnce string string string u64 string
  | SyncLoop string string string u64 "u64 option" string
  | PlanFolderLimit u64 u8 u64 "pending_transfer_arg list"

text \<open>What a command prints; the server prints nothing.\<close>

datatype command_output =
    DeviceCreated init_device_output
  | FolderCreated init_folder_output
  | Scanned scan_summary
  | Status folder_status
  | Manifest folder_manifest
  | Ticket pairing_ticket_reply
  | PeerAccepted accept_peer_output
  | PeerAnswered presence_response
  | Planned sync_plan
  | Enqueued queue_status_record sync_plan_summary
  | QueueListed queue_status_record "sync_operation_record list"
  | Retried retry_failed_summary
  | Resolved resolve_operation_summary
  | FileDeleted delete_file_output
  | QueueExecuted execute_output
  | Synchronised sync_once_output
  | LimitPlanned folder_limit_plan

definition execute_sync_queue ::
  "'x agent_externals_scheme \<Rightarrow> command_codecs \<Rightarrow> 'p command_env \<Rightarrow> string \<Rightarrow> string \<Rightarrow> string \<Rightarrow> u64
     \<Rightarrow> string \<Rightarrow> ('p, execute_output) agent_op" where
  "execute_sync_queue x cc env path endpoint shared_secret limit device_config =
     run_sync_queue x (cc_agent cc) (ce_agent env) (ce_operations env) path endpoint shared_secret limit device_config"

definition sync_once ::
  "'x agent_externals_scheme \<Rightarrow> command_codecs \<Rightarrow> 'p command_env \<Rightarrow> string \<Rightarrow> string \<Rightarrow> string \<Rightarrow> u64
     \<Rightarrow> string \<Rightarrow> ('p, sync_once_output) agent_op" where
  "sync_once x cc env path endpoint shared_secret limit device_config =
     run_sync_once x (cc_agent cc) (ce_rounds env 0) path endpoint shared_secret limit device_config"

text \<open>\<open>serve\<close>: the server works on the disk and the database of the agent's world.\<close>

definition serve ::
  "'x agent_externals_scheme \<Rightarrow> command_codecs \<Rightarrow> 'p command_env \<Rightarrow> string \<Rightarrow> string \<Rightarrow> string \<Rightarrow> string
     \<Rightarrow> ('p, string list) agent_op" where
  "serve x cc env bind_address path device_config peers =
     bind_op (read_profile (cc_agent cc) (ag_io (ce_agent env) 0) device_config) (\<lambda>profile.
     bind_op (lift_result (case ce_bind_fault env of
         None \<Rightarrow> Inr () | Some message \<Rightarrow> Inl (AgentPeerServer (ServerIo message)))) (\<lambda>_ w.
     (case peer_server_run x (cc_server cc)
         \<lparr>sg_bind = bind_address, sg_folder_path = path, sg_peers_path = peers, sg_profile = profile\<rparr>
         (ce_arrivals env) [] \<lparr>sw_disk = cw_disk w, sw_db = aw_db w\<rparr> of (ended, replies, sw) \<Rightarrow>
        ((case ended of None \<Rightarrow> Inr replies | Some e \<Rightarrow> Inl (AgentPeerServer e)),
         w\<lparr>cw_disk := sw_disk sw, aw_db := sw_db sw\<rparr>))))"

text \<open>A command that prints its value: the run of the command, then the printing.\<close>

definition printed ::
  "'p command_env \<Rightarrow> ('a \<Rightarrow> command_output) \<Rightarrow> ('p, 'a) agent_op \<Rightarrow> 'p agent_world
     \<Rightarrow> ((agent_error + command_output list) \<times> 'p agent_world) option" where
  "printed env present m w =
     Some (bind_op m (\<lambda>value. bind_op (print_json (ce_agent env) (present value))
       (\<lambda>output. lift_result (Inr [output]))) w)"

text \<open>
  The dispatch of \<open>main\<close>: the outputs printed by a command that succeeds, or its error.
  \<open>None\<close> is the command that never returns, an endless \<open>SyncLoop\<close>.
\<close>

fun run_command ::
  "'x agent_externals_scheme \<Rightarrow> command_codecs \<Rightarrow> 'p command_env \<Rightarrow> command \<Rightarrow> 'p agent_world
     \<Rightarrow> ((agent_error + command_output list) \<times> 'p agent_world) option" where
  "run_command x cc env (InitDevice name config) w =
     printed env DeviceCreated (init_device x cc env name config) w"
| "run_command x cc env (InitFolder path display_name limit_bytes warning_percent) w =
     printed env FolderCreated (init_folder cc env path display_name limit_bytes warning_percent) w"
| "run_command x cc env (ScanFolder path device_config) w =
     printed env Scanned (scan_folder x cc env path device_config) w"
| "run_command x cc env (FolderStatus path) w = printed env Status (folder_status_command x env) w"
| "run_command x cc env (ExportManifest path device_config) w =
     printed env Manifest (export_manifest_command x cc env path device_config) w"
| "run_command x cc env (Serve bind_address path device_config peers) w =
     (case serve x cc env bind_address path device_config peers w of
        (Inl e, w') \<Rightarrow> Some (Inl e, w') | (Inr _, w') \<Rightarrow> Some (Inr [], w'))"
| "run_command x cc env (PairingTicketCommand endpoint ttl_seconds device_config out) w =
     printed env Ticket (pairing_ticket_command x cc env endpoint ttl_seconds device_config out) w"
| "run_command x cc env (AcceptPeer ticket peers) w =
     printed env PeerAccepted (accept_peer x cc env ticket peers) w"
| "run_command x cc env (PingPeer endpoint shared_secret device_config) w =
     printed env PeerAnswered (ping_peer x cc env endpoint shared_secret device_config) w"
| "run_command x cc env (FetchManifest endpoint shared_secret device_config) w =
     printed env Manifest (fetch_manifest_command x cc env endpoint shared_secret device_config) w"
| "run_command x cc env (PlanSync path endpoint shared_secret device_config) w =
     printed env Planned (plan_sync x cc env path endpoint shared_secret device_config) w"
| "run_command x cc env (EnqueueSyncPlan path endpoint shared_secret device_config) w =
     printed env (\<lambda>(status, summary). Enqueued status summary)
       (enqueue_sync_plan_command x cc env path endpoint shared_secret device_config) w"
| "run_command x cc env (QueueStatus path) w =
     printed env (\<lambda>(status, operations). QueueListed status operations) (queue_status_command x env) w"
| "run_command x cc env (RetryFailed path remote_device_id) w =
     printed env Retried (retry_failed x env remote_device_id) w"
| "run_command x cc env (ResolveBlocked path operation_id action) w =
     printed env Resolved (resolve_blocked x env operation_id (resolution_of action)) w"
| "run_command x cc env (DeleteFile path file_argument scope endpoint shared_secret device_config) w =
     printed env FileDeleted (delete_file_command x cc env path file_argument (delete_scope_of scope)
       endpoint shared_secret device_config) w"
| "run_command x cc env (ExecuteSyncQueue path endpoint shared_secret limit device_config) w =
     printed env QueueExecuted (execute_sync_queue x cc env path endpoint shared_secret limit device_config) w"
| "run_command x cc env (SyncOnce path endpoint shared_secret limit device_config) w =
     printed env Synchronised (sync_once x cc env path endpoint shared_secret limit device_config) w"
| "run_command x cc env (SyncLoop path endpoint shared_secret limit iterations device_config) w =
     map_option (\<lambda>(r, w'). (map_sum id (\<lambda>(outputs, output).
        map (Synchronised \<circ> fst) outputs @ [Synchronised output]) r, w'))
       (sync_loop x (cc_agent cc) (ce_rounds env) path endpoint shared_secret limit iterations device_config
         0 0 [] w)"
| "run_command x cc env (PlanFolderLimit limit_bytes warning_percent used_bytes arguments) w =
     printed env LimitPlanned
       (lift_result (plan_folder_limit env limit_bytes warning_percent used_bytes arguments)) w"

section \<open>The database under every command\<close>

text \<open>
  Keeping an invariant is a frame condition. Of the two worlds the invariant is that of the
  database: the constraints of its tables.
\<close>

definition preserving :: "('s \<Rightarrow> bool) \<Rightarrow> 's \<Rightarrow> 's \<Rightarrow> bool" where
  "preserving I s t \<longleftrightarrow> (I s \<longrightarrow> I t)"

interpretation preserved: frame_condition "preserving I" for I
  by unfold_locales (auto simp: preserving_def)

definition server_ok :: "server_world \<Rightarrow> bool" where
  "server_ok w \<longleftrightarrow> database_ok (sw_db w)"

definition agent_ok :: "'p agent_world \<Rightarrow> bool" where
  "agent_ok w \<longleftrightarrow> database_ok (aw_db w)"

named_theorems ok_intros \<open>steps that keep the constraints of the database\<close>

lemma within_option_case [ok_intros]:
  "within le m \<Longrightarrow> (\<And>a. within le (f a)) \<Longrightarrow> within le (case c of None \<Rightarrow> m | Some a \<Rightarrow> f a)"
  by (cases c) simp_all

lemma within_case_prod [ok_intros]: "(\<And>a b. within le (f a b)) \<Longrightarrow> within le (case c of (a, b) \<Rightarrow> f a b)"
  by (cases c) simp

subsection \<open>The server\<close>

lemma server_on_disk [ok_intros]: "within (preserving server_ok) (on_disk m)"
  by (auto simp: within_def preserving_def server_ok_def on_disk_def split_beta)

lemma server_read_db [ok_intros]: "within (preserving server_ok) (on_db (read_op q))"
  by (auto simp: within_def preserving_def server_ok_def on_db_def)

lemma server_on_db:
  "(\<And>db. database_ok db \<Longrightarrow> database_ok (snd (m db))) \<Longrightarrow> within (preserving server_ok) (on_db m)"
  by (auto simp: within_def preserving_def server_ok_def on_db_def split_beta)

lemma server_statements [ok_intros]:
  "within (preserving server_ok) (on_db (scan_into x clock now sc root_node))"
  "within (preserving server_ok) (on_db (upsert_file x now e))"
  "within (preserving server_ok) (on_db (write_op (forget_file p)))"
  by (rule server_on_db, simp add: scan_keeps_database_ok database_ok_statements)+

lemma server_reads [ok_intros]:
  "within (preserving server_ok) (read_folder cd env k folder_path)"
  "within (preserving server_ok) (open_database env k)"
  "within (preserving server_ok) (verified x cd env request config)"
  by (simp_all add: read_folder_def open_database_def verified_def preserved.within_lift preserved.within_read)

lemma server_steps [ok_intros]:
  "within (preserving server_ok) (server_export_manifest x cd env folder_path profile)"
  "within (preserving server_ok) (enforce_folder_limit x cd env folder_path incoming)"
  "within (preserving server_ok) (encrypted_file_response x env status shared p secret_hex)"
  "within (preserving server_ok) (finish_upload x cd env folder_path profile p size_bytes hash h)"
  unfolding server_export_manifest_def enforce_folder_limit_def encrypted_file_response_def finish_upload_def
    Let_def
  by (intro ok_intros preserved.within_intros)+

lemma server_handlers [ok_intros]:
  "within (preserving server_ok) (find_shared_file x cd env folder_path profile p)"
  "within (preserving server_ok) (prepare_upload x cd env folder_path p size_bytes hash secret_hex nonce_hex body)"
  "within (preserving server_ok) (delete_shared_file x cd env folder_path profile p size_bytes hash)"
  unfolding find_shared_file_def prepare_upload_def delete_shared_file_def Let_def
  by (intro ok_intros preserved.within_intros)+

lemma server_routes [ok_intros]:
  "within (preserving server_ok) (presence_route x cd env request config)"
  "within (preserving server_ok) (manifest_route x cd env request config)"
  "within (preserving server_ok) (get_file_route x cd env request config)"
  "within (preserving server_ok) (put_file_route x cd env request config)"
  "within (preserving server_ok) (delete_file_route x cd env request config)"
  unfolding route_defs write_uploaded_file_def by (intro ok_intros preserved.within_intros)+

lemma server_route_request: "within (preserving server_ok) (route_request x cd env request config)"
  unfolding route_request_def Let_def by (intro ok_intros preserved.within_intros)

lemma handle_stream_ok:
  assumes "server_ok w" and "handle_stream x cd io env config s w = (r, sent, w')"
  shows "server_ok w'"
proof -
  have "server_ok t" if "route_request x cd env request config (w\<lparr>sw_disk := d\<rparr>) = (q, t)" for request d q t
    using within_step [OF server_route_request that] assms(1) by (simp add: preserving_def server_ok_def)
  with assms show ?thesis
    by (auto simp: handle_stream_def server_ok_def split: prod.splits sum.splits)
qed

lemma peer_server_run_ok:
  "server_ok w \<Longrightarrow> peer_server_run x cd config arrivals replies w = (ended, replies', w') \<Longrightarrow> server_ok w'"
proof (induction x cd config arrivals replies w rule: peer_server_run.induct)
  case (3 x cd config io env s arrivals replies w)
  obtain r sent w1 where h: "handle_stream x cd io env config s w = (r, sent, w1)"
    by (metis prod_cases3)
  have "server_ok w1" by (rule handle_stream_ok [OF "3.prems"(1) h])
  with 3 h show ?case by simp
qed auto

subsection \<open>The steps of the agent\<close>

lemma agent_files [ok_intros]:
  "within (preserving agent_ok) (on_files g m)" "within (preserving agent_ok) (on_config n)"
  by (auto simp: within_def preserving_def agent_ok_def on_files_def on_config_def split_beta)

lemma agent_database:
  "(\<And>db. database_ok db \<Longrightarrow> database_ok (snd (m db))) \<Longrightarrow> within (preserving agent_ok) (on_database g m)"
  by (auto simp: within_def preserving_def agent_ok_def on_database_def split_beta)

lemma agent_statements [ok_intros]:
  "within (preserving agent_ok) (on_database g (read_op q))"
  "within (preserving agent_ok) (on_database g (scan_into x clock now sc root_node))"
  "within (preserving agent_ok) (on_database g (upsert_file x now e))"
  "within (preserving agent_ok) (on_database g (record_skipped_folder_limit x now t))"
  "within (preserving agent_ok) (on_database g (enqueue_sync_plan x supply plan))"
  "within (preserving agent_ok) (on_database g (retry_failed_sync_operations x now remote))"
  "within (preserving agent_ok) (on_database g (resolve_blocked_sync_operation x now i resolution))"
  "within (preserving agent_ok) (on_database g (write_op (mark_sync_operation_done now i)))"
  "within (preserving agent_ok) (on_database g (write_op (mark_file_deleted_locally now p)))"
  "within (preserving agent_ok) (on_database g (write_op (forget_file p)))"
  by (rule agent_database, simp add: scan_keeps_database_ok database_ok_statements)+

lemma client_agent_ok: "client_frame T w w' \<Longrightarrow> preserving agent_ok w w'"
  by (simp add: preserving_def agent_ok_def client_database)

lemma agent_client [ok_intros]:
  "within (preserving agent_ok) (fetch_file_to_path x cenv endpoint device secret p size_bytes destination)"
  "within (preserving agent_ok) (put_file_from_path x ck cenv endpoint device secret p hash file_path size_bytes)"
  "within (preserving agent_ok) (delete_file x ck cenv endpoint device secret p hash size_bytes)"
  "within (preserving agent_ok) (Peer_Client.fetch_manifest x ck cenv endpoint device secret)"
  "within (preserving agent_ok) (post_presence x ck cenv endpoint device secret presence)"
  by (intro within_mono [OF fetch_file_within [where T = UNIV]] within_mono [OF put_file_within [where T = UNIV]]
      within_mono [OF within_json_requests(1) [where T = UNIV]] within_mono [OF within_json_requests(2) [where T = UNIV]]
      within_mono [OF within_json_requests(3) [where T = UNIV]] client_agent_ok UNIV_I, assumption)+

lemma agent_steps [ok_intros]:
  "within (preserving agent_ok) (open_state g aenv k)"
  "within (preserving agent_ok) (read_profile ax f device_config)"
  "within (preserving agent_ok) (read_agent_folder g ax f store)"
  "within (preserving agent_ok) (scan_local x aenv path profile)"
  "within (preserving agent_ok) (print_json aenv value)"
  unfolding open_state_def read_profile_def read_agent_folder_def scan_local_def print_json_def
  by (intro ok_intros preserved.within_intros)+

lemma agent_transfers [ok_intros]:
  "within (preserving agent_ok) (download_operation x ax aenv store profile endpoint secret manifest operation)"
  "within (preserving agent_ok) (upload_operation x ax aenv store profile endpoint secret manifest operation)"
  unfolding download_operation_def upload_operation_def enforce_local_download_limit_def
    replaceable_target_def download_temporary_path_def finish_download_def publish_download_def
    replace_remote_target_def Let_def
  by (intro ok_intros map_op_err_within preserved.within_intros)+

lemma execute_operation_ok:
  assumes "\<And>env operation. within (preserving agent_ok) (handle env operation)"
    and "agent_ok (snd s)"
  shows "agent_ok (snd (execute_operation handle queued_size env operation s))"
proof -
  obtain out w where s: "s = (out, w)" by fastforce
  let ?w = "w\<lparr>aw_db := mark_sync_operation_started (ag_unixepoch env 3) (op_id operation) (aw_db w)\<rparr>"
  obtain r w' where h: "handle env operation ?w = (r, w')" by fastforce
  have "agent_ok ?w" using assms(2) s by (simp add: agent_ok_def database_ok_statements)
  with within_step [OF assms(1) h] have "agent_ok w'" by (simp add: preserving_def)
  then have "agent_ok (w'\<lparr>aw_db := mark_sync_operation_failed n i e (aw_db w')\<rparr>)" for n i e
    by (simp add: agent_ok_def database_ok_statements)
  with \<open>agent_ok w'\<close> s h show ?thesis by (auto simp: execute_operation_def split: sum.split)
qed

lemma execute_operations_ok:
  assumes "\<And>env operation. within (preserving agent_ok) (handle env operation)"
  shows "agent_ok (snd s) \<Longrightarrow> agent_ok (snd (execute_operations handle queued_size supply n operations s))"
  by (induction operations arbitrary: n s) (simp_all add: execute_operation_ok [OF assms])

lemma execute_queue_ok [ok_intros]:
  "within (preserving agent_ok) (execute_queue x ax supply store profile endpoint secret manifest ds us)"
proof -
  have "agent_ok (snd (execute_queue x ax supply store profile endpoint secret manifest ds us w))"
    if "agent_ok w" for w
  proof -
    let ?down = "execute_operations (\<lambda>env. download_operation x ax env store profile endpoint secret manifest)
       op_remote_size_bytes supply 0 ds (\<lparr>eo_completed = 0, eo_failed = 0, eo_results = []\<rparr>, w)"
    have "agent_ok (snd ?down)"
      by (rule execute_operations_ok [OF agent_transfers(1)]) (simp add: that)
    then have "agent_ok (snd (execute_operations
        (\<lambda>env. upload_operation x ax env store profile endpoint secret manifest)
        op_local_size_bytes supply (length ds) us ?down))"
      by (rule execute_operations_ok [OF agent_transfers(2)])
    then show ?thesis by (simp add: execute_queue_def split_beta)
  qed
  then show ?thesis by (simp add: within_def preserving_def)
qed

lemma agent_rounds [ok_intros]:
  "within (preserving agent_ok) (run_sync_queue x ax aenv supply path endpoint secret limit device_config)"
  "within (preserving agent_ok) (send_presence x ax aenv endpoint secret device_config)"
  "within (preserving agent_ok) (build_sync_plan x ax aenv path endpoint secret device_config)"
  unfolding run_sync_queue_def send_presence_def build_sync_plan_def Let_def
  by (intro ok_intros map_op_err_within preserved.within_intros)+

lemma sync_once_ok [ok_intros]:
  "within (preserving agent_ok) (run_sync_once x ax rnd path endpoint secret limit device_config)"
  unfolding run_sync_once_def by (intro ok_intros preserved.within_intros)

lemma sync_turn_ok [ok_intros]:
  "within (preserving agent_ok) (sync_turn x ax rnd path endpoint secret limit iterations device_config n)"
  unfolding sync_turn_def by (intro ok_intros preserved.within_intros)

lemmas sync_loop_induct =
  sync_loop.raw_induct [where xa = "((((((((((((x, ax), rounds), path), endpoint), secret), limit), iterations),
    device_config), n), done_so_far), outputs), w)", unfolded prod.case, rotated, consumes 1]
  for x ax rounds path endpoint secret limit iterations device_config n done_so_far outputs w

lemma sync_loop_ok:
  assumes "sync_loop x ax rounds path endpoint secret limit iterations device_config n done_so_far outputs w
      = Some (r, w')" and "agent_ok w"
  shows "agent_ok w'"
proof -
  have "agent_ok w \<longrightarrow> agent_ok (snd result)"
    if "sync_loop x ax rounds path endpoint secret limit iterations device_config n done_so_far outputs w
      = Some result" for result
    using that
  proof (induction rule: sync_loop_induct)
    case (1 loop x ax rounds path endpoint secret limit iterations device_config n done_so_far outputs w result)
    let ?turn = "sync_turn x ax (rounds n) path endpoint secret limit iterations device_config done_so_far"
    obtain q w1 where t: "?turn w = (q, w1)" by fastforce
    have "agent_ok w \<longrightarrow> agent_ok w1"
      using within_step [OF sync_turn_ok t] by (simp add: preserving_def)
    with 1 t show ?case
      by (auto split: sum.splits option.splits prod.splits)
  qed
  with assms show ?thesis by fastforce
qed

subsection \<open>The commands\<close>

lemma store_steps [ok_intros]:
  "within (preserving agent_ok) (\<lambda>w. case m (cw_disk w) of (r, d) \<Rightarrow> (map_err g r, w\<lparr>cw_disk := d\<rparr>))"
  by (auto simp: within_def preserving_def agent_ok_def split_beta)

lemma delete_command_steps [ok_intros]:
  "within (preserving agent_ok) (remove_local_target env target)"
  "within (preserving agent_ok) (delete_at_peer x cc env p existing endpoint secret device_config)"
  unfolding remove_local_target_def delete_at_peer_def
  by (intro ok_intros map_op_err_within preserved.within_intros)+

lemma delete_file_command_ok:
  "within (preserving agent_ok) (delete_file_command x cc env path argument scope endpoint secret device_config)"
  unfolding delete_file_command_def
  by (intro ok_intros preserved.within_intros, cases scope) (auto intro!: ok_intros preserved.within_intros)

lemma load_manifest_ok [ok_intros]: "within (preserving agent_ok) (load_manifest x cc env path profile)"
  unfolding load_manifest_def by (intro ok_intros preserved.within_intros)

lemma setup_commands_ok [ok_intros]:
  "within (preserving agent_ok) (init_device x cc env name config)"
  "within (preserving agent_ok) (init_folder cc env path display_name limit_bytes warning_percent)"
  "within (preserving agent_ok) (pairing_ticket_command x cc env endpoint ttl_seconds device_config target)"
  "within (preserving agent_ok) (accept_peer x cc env ticket peers)"
  unfolding init_device_def init_folder_def pairing_ticket_command_def accept_peer_def Let_def
  by (intro ok_intros preserved.within_intros)+

lemma folder_commands_ok [ok_intros]:
  "within (preserving agent_ok) (scan_folder x cc env path device_config)"
  "within (preserving agent_ok) (folder_status_command x env)"
  "within (preserving agent_ok) (export_manifest_command x cc env path device_config)"
  "within (preserving agent_ok) (queue_status_command x env)"
  "within (preserving agent_ok) (retry_failed x env remote_device_id)"
  "within (preserving agent_ok) (resolve_blocked x env operation_id resolution)"
  unfolding scan_folder_def folder_status_command_def export_manifest_command_def queue_status_command_def
    retry_failed_def resolve_blocked_def
  by (intro ok_intros preserved.within_intros)+

lemma peer_commands_ok [ok_intros]:
  "within (preserving agent_ok) (ping_peer x cc env endpoint secret device_config)"
  "within (preserving agent_ok) (fetch_manifest_command x cc env endpoint secret device_config)"
  "within (preserving agent_ok) (plan_sync x cc env path endpoint secret device_config)"
  "within (preserving agent_ok) (enqueue_sync_plan_command x cc env path endpoint secret device_config)"
  "within (preserving agent_ok) (execute_sync_queue x cc env path endpoint secret limit device_config)"
  "within (preserving agent_ok) (sync_once x cc env path endpoint secret limit device_config)"
  unfolding ping_peer_def fetch_manifest_command_def plan_sync_def enqueue_sync_plan_command_def
    execute_sync_queue_def sync_once_def
  by (intro ok_intros map_op_err_within preserved.within_intros)+

section \<open>Properties\<close>

text \<open>A session: commands one after another, each with the answers it gets.\<close>

fun run_commands ::
  "'x agent_externals_scheme \<Rightarrow> command_codecs \<Rightarrow> ('p command_env \<times> command) list \<Rightarrow> 'p agent_world
     \<Rightarrow> 'p agent_world option" where
  "run_commands x cc [] w = Some w"
| "run_commands x cc ((env, c) # cs) w =
     (case run_command x cc env c w of None \<Rightarrow> None | Some (_, w') \<Rightarrow> run_commands x cc cs w')"

lemma printed_ok:
  assumes "within (preserving agent_ok) m" and "printed env present m w = Some (r, w')" and "agent_ok w"
  shows "agent_ok w'"
proof -
  have "within (preserving agent_ok) (bind_op m (\<lambda>value. bind_op (print_json (ce_agent env) (present value))
      (\<lambda>output. lift_result (Inr [output]))))"
    by (intro ok_intros preserved.within_intros assms(1))
  from withinD [OF this, of w] assms(2,3) show ?thesis
    by (simp add: printed_def preserving_def)
qed

lemma serve_ok: "agent_ok w \<Longrightarrow> agent_ok (snd (serve x cc env bind_address path device_config peers w))"
proof -
  assume ok: "agent_ok w"
  have ran: "agent_ok (t\<lparr>cw_disk := sw_disk sw, aw_db := sw_db sw\<rparr>)"
    if "peer_server_run x cd config arrivals [] \<lparr>sw_disk = cw_disk t, sw_db = aw_db t\<rparr> = (ended, replies, sw)"
      and "agent_ok t" for x cd config arrivals ended replies sw and t :: "'a agent_world"
    using peer_server_run_ok [OF _ that(1)] that(2) by (simp add: server_ok_def agent_ok_def)
  show ?thesis unfolding serve_def
    using ok by (auto simp: bind_op_apply read_profile_def intro: ran split: sum.split prod.split option.split)
qed

lemma run_command_ok:
  assumes "run_command x cc env c w = Some (r, w')" and "agent_ok w"
  shows "agent_ok w'"
proof (cases c)
  case (Serve bind_address path device_config peers)
  with assms serve_ok [OF assms(2), of x cc env bind_address path device_config peers] show ?thesis
    by (auto split: prod.splits sum.splits)
next
  case (SyncLoop path endpoint secret limit iterations device_config)
  with assms show ?thesis by (auto split: prod.splits dest: sync_loop_ok)
next
  case (PlanFolderLimit limit_bytes warning_percent used_bytes arguments)
  with assms show ?thesis by (auto intro: printed_ok [OF preserved.within_lift])
qed (use assms in \<open>auto intro: printed_ok [OF setup_commands_ok(1)] printed_ok [OF setup_commands_ok(2)]
    printed_ok [OF setup_commands_ok(3)] printed_ok [OF setup_commands_ok(4)]
    printed_ok [OF folder_commands_ok(1)] printed_ok [OF folder_commands_ok(2)]
    printed_ok [OF folder_commands_ok(3)] printed_ok [OF folder_commands_ok(4)]
    printed_ok [OF folder_commands_ok(5)] printed_ok [OF folder_commands_ok(6)]
    printed_ok [OF peer_commands_ok(1)] printed_ok [OF peer_commands_ok(2)]
    printed_ok [OF peer_commands_ok(3)] printed_ok [OF peer_commands_ok(4)]
    printed_ok [OF peer_commands_ok(5)] printed_ok [OF peer_commands_ok(6)]
    printed_ok [OF delete_file_command_ok]\<close>)


section \<open>Documents the agent creates\<close>

text \<open>The file a command creates.\<close>

fun creates :: "command \<Rightarrow> string option" where
  "creates (InitDevice name config) = Some config"
| "creates (PairingTicketCommand endpoint ttl_seconds device_config target) = target"
| "creates _ = None"

text \<open>What creating a document does to a disk: nothing if the file exists, else only to it.\<close>

definition created :: "string \<Rightarrow> disk \<Rightarrow> bool \<Rightarrow> disk \<Rightarrow> bool" where
  "created path d success d' \<longleftrightarrow> (\<forall>q. q \<noteq> path \<longrightarrow> dk_files d' q = dk_files d q)
     \<and> (dk_files d path \<noteq> None \<longrightarrow> d' = d \<and> \<not> success)
     \<and> (success \<longrightarrow> (\<exists>bytes. dk_files d' path = Some (bytes @ [newline])))"

lemma write_json_created:
  assumes "write_json_file io path serialized d = (r, d')"
  shows "created path d (is_ok r) d'"
    and "is_ok r \<Longrightarrow> \<exists>bytes. serialized = Inr bytes \<and> dk_files d' path = Some (bytes @ [newline])"
proof -
  have "created path d (is_ok r) d' \<and> (is_ok r \<longrightarrow>
      (\<exists>bytes. serialized = Inr bytes \<and> dk_files d' path = Some (bytes @ [newline])))"
    using assms
    by (auto simp: write_json_file_def write_json_to_writer_def create_new_file_def append_file_def
        bind_op_apply created_def is_ok_def Let_def split: option.splits sum.splits if_splits)
  then show "created path d (is_ok r) d'"
    and "is_ok r \<Longrightarrow> \<exists>bytes. serialized = Inr bytes \<and> dk_files d' path = Some (bytes @ [newline])"
    by auto
qed

lemma created_nothing: "created path d False d"
  by (simp add: created_def)

lemma created_less: "created path d success d' \<Longrightarrow> created path d False d'"
  by (auto simp: created_def)

lemma on_config_created:
  "on_config (write_json_file io path serialized) w = (r, w') \<Longrightarrow> created path (cw_disk w) (is_ok r) (cw_disk w')"
  by (auto simp: on_config_def write_json_created(1) split: prod.splits)

lemma creating_commands:
  "init_device x cc env name path w = (r, w') \<Longrightarrow> created path (cw_disk w) (is_ok r) (cw_disk w')"
  "pairing_ticket_command x cc env endpoint ttl_seconds device_config (Some path) w = (q, w')
     \<Longrightarrow> created path (cw_disk w) (is_ok q) (cw_disk w')"
  by (auto simp: init_device_def pairing_ticket_command_def read_profile_def is_ok_def elim!: bind_op_cases
      dest!: on_config_created split: sum.splits intro: created_nothing)

lemma printed_cases:
  assumes "printed env present m w = Some (r, w')"
  obtains q where "m w = (q, w')" and "is_ok r \<Longrightarrow> is_ok q"
  using assms by (auto simp: printed_def print_json_def is_ok_def elim!: bind_op_cases split: sum.splits)


section \<open>Deleting files\<close>

lemma remove_local_target_Inr:
  assumes "remove_local_target env target w = (Inr u, w')"
  shows "w' = w\<lparr>cw_disk := set_file target None (cw_disk w)\<rparr>"
proof -
  have "set_file target None d = d" if "dk_files d target = None" for d :: disk
    using that by (cases d) (auto simp: set_file_def fun_upd_idem)
  with assms show ?thesis
    by (auto simp: remove_local_target_def try_exists_def on_files_def fs_remove_file_def bind_op_Inr
        and_then_Inr_iff split: if_splits option.splits prod.splits)
qed

lemma delete_at_peer_frame:
  assumes "delete_at_peer x cc env p existing endpoint secret device_config w = (r, w')"
  shows "dk_files (cw_disk w') = dk_files (cw_disk w) \<and> aw_db w' = aw_db w"
proof -
  have deletes: "within (client_frame {}) (map_op_err g (delete_file x ck cenv e device secret_hex p hash size_bytes))"
    for g :: "peer_client_error \<Rightarrow> agent_error" and ck cenv e device secret_hex hash size_bytes
    by (rule map_op_err_within, rule within_json_requests)
  have "within (client_frame {}) (delete_at_peer x cc env p existing endpoint secret device_config)"
    unfolding delete_at_peer_def read_profile_def by (intro deletes client.within_intros)
  note frame = within_step [OF this assms]
  have "dk_files (cw_disk w') = dk_files (cw_disk w)" using frame by (auto simp: disk_within_def client_frame_def)
  with client_database [OF frame] show ?thesis by simp
qed

lemma file_status_forget:
  "file_status (forget_file p db) q = (if q = path_str p then None else file_status db q)"
  by (simp add: file_status_def forget_file_def find_row_delete_key)

lemma file_status_mark_deleted:
  "file_status (mark_file_deleted_locally now p db) q =
     (if q = path_str p then map_option (\<lambda>_. ''unsynchronized_local_missing'') (file_status db q)
      else file_status db q)"
proof -
  have "find_row fr_path q (update_where (\<lambda>r. fr_path r = path_str p)
      (\<lambda>r. r\<lparr>fr_sync_state := ''unsynchronized_local_missing'', fr_modified_at_unix := now\<rparr>) (db_files db))
    = map_option (\<lambda>r. if fr_path r = path_str p
        then r\<lparr>fr_sync_state := ''unsynchronized_local_missing'', fr_modified_at_unix := now\<rparr> else r)
      (find_row fr_path q (db_files db))"
    by (rule find_row_update_where) simp
  then show ?thesis
    by (cases "find_row fr_path q (db_files db)")
      (auto simp: file_status_def mark_file_deleted_locally_def dest: find_row_key)
qed


section \<open>Examples\<close>

definition sample_command_codecs :: command_codecs where
  "sample_command_codecs =
     \<lparr>cc_agent = sample_agent_codecs,
      cc_ticket = \<lparr>to_vec_pretty = (\<lambda>ticket. Inr (pd_endpoint ticket)), from_slice = (\<lambda>_. Inl ''write only'')\<rparr>,
      cc_server = sample_server_codecs\<rparr>"

definition sample_command_env :: "unit command_env" where
  "sample_command_env =
     \<lparr>ce_agent = sample_agent_env sample_json_env,
      ce_config = \<lparr>cg_create_dir = \<lambda>_. None, cg_create = \<lambda>_. None, cg_write = \<lambda>_. None\<rparr>,
      ce_identity_secret = replicate 32 CHR ''i'', ce_token = replicate 32 CHR ''t'',
      ce_device_id = DeviceId ''new'', ce_folder_id = FolderId ''f'',
      ce_operation_ids = \<lambda>n. OperationId (show_nat n), ce_supply = \<lambda>n. (show_nat n, 1),
      ce_operations = \<lambda>_. sample_agent_env sample_json_env,
      ce_rounds = \<lambda>_. \<lparr>rn_presence = sample_agent_env sample_json_env, rn_plan = sample_agent_env sample_json_env,
        rn_queue = sample_agent_env sample_json_env, rn_operations = \<lambda>_. sample_agent_env sample_json_env,
        rn_supply = \<lambda>n. (show_nat n, 1), rn_folder_io = no_faults\<rparr>,
      ce_bind_fault = None, ce_arrivals = []\<rparr>"

definition sample_session :: "unit agent_world option" where
  "sample_session = run_commands sample_agent_externals sample_command_codecs
     [(sample_command_env, ScanFolder ''/d'' ''/dev.json''), (sample_command_env, QueueStatus ''/d''),
      (sample_command_env, RetryFailed ''/d'' None),
      (sample_command_env, DeleteFile ''/d'' ''a'' ScopeArgLocalOnly None None ''/dev.json'')] sample_agent_world"


definition sample_init :: "((agent_error + command_output list) \<times> unit agent_world) option" where
  "sample_init = run_command sample_agent_externals sample_command_codecs sample_command_env
     (InitDevice ''desk'' ''/dev.json'') sample_agent_world"


definition sample_indexed_world :: "unit agent_world" where
  "sample_indexed_world = sample_agent_world\<lparr>cw_disk := \<lparr>dk_files = [''/d/old'' \<mapsto> ''text'', ''/d/kept'' \<mapsto> ''x'']\<rparr>,
     aw_db := sample_index\<rparr>"

definition sample_local_deletion :: "(agent_error + delete_file_output) \<times> unit agent_world" where
  "sample_local_deletion = delete_file_command sample_agent_externals sample_command_codecs sample_command_env
     ''/d'' ''old'' LocalOnly None None ''/dev.json'' sample_indexed_world"


text \<open>
  Deleting on both sides without the address of the peer: the error comes after the file is
  gone, and the index still lists it as available.
\<close>

definition sample_both_deletion :: "(agent_error + delete_file_output) \<times> unit agent_world" where
  "sample_both_deletion = delete_file_command sample_agent_externals sample_command_codecs sample_command_env
     ''/d'' ''old'' PropagateToPeers None None ''/dev.json'' sample_indexed_world"

lemma delete_without_peer_loses_file:
  "fst sample_both_deletion = Inl MissingDeletePeerConfig
   \<and> dk_files (cw_disk (snd sample_both_deletion)) ''/d/old'' = None
   \<and> file_status (aw_db (snd sample_both_deletion)) ''old'' = Some ''local_available''"
proof -
  let ?x = sample_agent_externals and ?target = "local_target \<lparr>st_root = ''/d''\<rparr> (RelativePath ''old'')"
  have parsed: "relative_path_parse ''old'' = Inr (RelativePath ''old'')" by code_simp
  have "case list_files ?x (aw_db sample_indexed_world) of Inl _ \<Rightarrow> False
      | Inr files \<Rightarrow> find (\<lambda>r. path_eq (path_str (rec_path r)) ''old'') files \<noteq> None"
    by code_simp
  then obtain files existing where files: "list_files ?x (aw_db sample_indexed_world) = Inr files"
    and existing: "find (\<lambda>r. path_eq (path_str (rec_path r)) ''old'') files = Some existing"
    by (auto split: sum.splits)
  have "is_ok (fst (remove_local_target sample_command_env ?target sample_indexed_world))" by code_simp
  then obtain u w where removed: "remove_local_target sample_command_env ?target sample_indexed_world = (Inr u, w)"
    by (cases "remove_local_target sample_command_env ?target sample_indexed_world") (auto simp: is_ok_iff)
  have opened: "open_state AgentCore (ce_agent sample_command_env) 0 sample_indexed_world
      = (Inr (), sample_indexed_world)"
    by (simp add: open_state_def sample_command_env_def sample_agent_env_def)
  have ran: "sample_both_deletion = (Inl MissingDeletePeerConfig, w)"
    by (simp add: sample_both_deletion_def delete_file_command_def parsed bind_op_def opened on_database_def
        files existing removed delete_at_peer_def ok_or_def)
  moreover have "?target = ''/d/old''" by code_simp
  moreover have "file_status (aw_db sample_indexed_world) ''old'' = Some ''local_available''" by code_simp
  ultimately show ?thesis unfolding ran fst_conv snd_conv
    using remove_local_target_Inr [OF removed] by (simp add: set_file_def)
qed
end
