(* ===== verification/Peer_Exchange.thy ===== *)
theory Peer_Exchange
  imports Wire_Headers Agent_Commands
begin

text \<open>
  Client and server together: the header a client writes is the header the server reads, so
  its requests are authentic to a server that trusts it, and an upload arrives as the file
  it was made from.
\<close>


section \<open>The header a client writes\<close>

text \<open>
  What else \<open>hex\<close> and HMAC-SHA-256 document: the encoding of something is a word of two
  digits per byte, and a MAC has 32 bytes.
\<close>

definition wire_laws :: "'x agent_externals_scheme \<Rightarrow> bool" where
  "wire_laws x \<longleftrightarrow> hex_laws x \<and> (\<forall>bytes. bytes \<noteq> [] \<longrightarrow> visible (hex_encode x bytes))
     \<and> (\<forall>bytes. length (hex_encode x bytes) = 2 * length bytes)
     \<and> (\<forall>key payload mac. hmac_sha256 x key payload = Some mac \<longrightarrow> length mac = 32)"

lemma visible_mac: "wire_laws x \<Longrightarrow> hmac_sha256 x key payload = Some mac \<Longrightarrow> visible (hex_encode x mac)"
proof -
  assume laws: "wire_laws x" and "hmac_sha256 x key payload = Some mac"
  then have "length mac = 32" by (simp add: wire_laws_def)
  then have "mac \<noteq> []" by auto
  with laws show "visible (hex_encode x mac)" by (simp add: wire_laws_def)
qed

definition signed_fields :: "peer_address \<Rightarrow> peer_request \<Rightarrow> int \<Rightarrow> string \<Rightarrow> (string \<times> string) list" where
  "signed_fields address request timestamp signature =
     [(''host'', pa_host address), (''x-syncer-device-id'', pq_device_id request),
      (''x-syncer-timestamp'', show_int timestamp), (''x-syncer-signature'', signature),
      (''content-type'', ''application/octet-stream''),
      (''content-length'', show_nat (length (pq_body request)))]
     @ pq_extra_headers request @ [(''connection'', ''close'')]"

definition signed_names :: "string set" where
  "signed_names = {''x-syncer-device-id'', ''x-syncer-timestamp'', ''x-syncer-signature'', ''content-length''}"

text \<open>
  A request that can be written on the wire: its parts are words, and no extra header takes
  the place of a signed one.
\<close>

definition proper_request :: "peer_request \<Rightarrow> bool" where
  "proper_request request \<longleftrightarrow> visible (pq_method request) \<and> wire_path (pq_path request)
     \<and> visible (pq_device_id request) \<and> fields_ok (pq_extra_headers request)
     \<and> fst ` set (pq_extra_headers request) \<inter> signed_names = {}
     \<and> (\<forall>address. peer_address_parse (pq_endpoint request) = Inr address \<longrightarrow> visible (pa_host address))"

lemma header_line_field: "header_line n v = field_text (n, v) @ crlf"
  by (simp add: header_line_def field_text_def)

lemma header_lines: "concat (map (\<lambda>(n, v). header_line n v) fs) = concat (map (\<lambda>l. l @ crlf) (map field_text fs))"
  by (induction fs) (auto simp: header_line_field)

lemma head_text_lines:
  "request_line verb path @ crlf @ concat (map (\<lambda>l. l @ crlf) (map field_text fs)) = head_text verb path fs @ crlf"
  using concat_crlf_lines [of "request_line verb path # map field_text fs"] by (simp add: head_text_def)

lemma signed_header_message:
  assumes "signed_request_header x now request = Inr header"
  shows "\<exists>address signature. peer_address_parse (pq_endpoint request) = Inr address
    \<and> sign_request x (pq_method request) (pq_path request) (pq_device_id request) (unix_timestamp x now)
        (pq_body request) (pq_shared_secret_hex request) = Inr signature
    \<and> header = head_text (pq_method request) (pq_path request)
        (signed_fields address request (unix_timestamp x now) signature) @ crlf @ crlf"
proof -
  let ?t = "unix_timestamp x now"
  from assms obtain address signature where a: "peer_address_parse (pq_endpoint request) = Inr address"
    and s: "sign_request x (pq_method request) (pq_path request) (pq_device_id request) ?t
        (pq_body request) (pq_shared_secret_hex request) = Inr signature"
    and h: "header = pq_method request @ '' '' @ pq_path request @ '' HTTP/1.1'' @ crlf
         @ header_line ''host'' (pa_host address)
         @ header_line ''x-syncer-device-id'' (pq_device_id request)
         @ header_line ''x-syncer-timestamp'' (show_int ?t)
         @ header_line ''x-syncer-signature'' signature
         @ header_line ''content-type'' ''application/octet-stream''
         @ header_line ''content-length'' (show_nat (length (pq_body request)))
         @ concat (map (\<lambda>(name, value). header_line name value) (pq_extra_headers request))
         @ header_line ''connection'' ''close'' @ crlf"
    by (auto simp: signed_request_header_def Let_def and_then_Inr_iff)
  have "header = (request_line (pq_method request) (pq_path request) @ crlf
      @ concat (map (\<lambda>(n, v). header_line n v) (signed_fields address request ?t signature))) @ crlf"
    by (simp add: h request_line_def signed_fields_def)
  then have "header = head_text (pq_method request) (pq_path request)
      (signed_fields address request ?t signature) @ crlf @ crlf"
    unfolding header_lines head_text_lines by simp
  with a s show ?thesis by blast
qed

lemma signature_made:
  assumes "sign_request_with_body_hash_hex x verb path device t hash secret_hex = Inr signature"
  shows "\<exists>key mac. hex_decode x secret_hex = Inr key
    \<and> hmac_sha256 x key (canonical_payload_with_body_hash_hex verb path device t hash) = Some mac
    \<and> signature = hex_encode x mac"
  using assms by (auto simp: sign_request_with_body_hash_hex_def and_then_Inr_iff)

lemma field_names:
  "field_name ''host''" "field_name ''x-syncer-device-id''" "field_name ''x-syncer-timestamp''"
  "field_name ''x-syncer-signature''" "field_name ''content-type''" "field_name ''content-length''"
  "field_name ''connection''" "visible ''application/octet-stream''" "visible ''close''"
  by code_simp+

lemma signed_fields_ok:
  assumes "proper_request request" and "peer_address_parse (pq_endpoint request) = Inr address"
    and "visible signature"
  shows "fields_ok (signed_fields address request t signature)"
  using assms field_names visible_show_int visible_show_nat
  by (auto simp: fields_ok_def signed_fields_def proper_request_def)

lemma signed_fields_lookup:
  assumes "proper_request request"
  shows "map_of (rev (signed_fields address request t signature)) ''x-syncer-device-id'' = Some (pq_device_id request)"
    and "map_of (rev (signed_fields address request t signature)) ''x-syncer-timestamp'' = Some (show_int t)"
    and "map_of (rev (signed_fields address request t signature)) ''x-syncer-signature'' = Some signature"
    and "map_of (rev (signed_fields address request t signature)) ''content-length''
      = Some (show_nat (length (pq_body request)))"
proof -
  have "map_of (rev (pq_extra_headers request)) n = None" if "n \<in> signed_names" for n
    using assms that by (auto simp: proper_request_def map_of_eq_None_iff)
  then have "map_of (rev (pq_extra_headers request)) ''x-syncer-device-id'' = None"
    "map_of (rev (pq_extra_headers request)) ''x-syncer-timestamp'' = None"
    "map_of (rev (pq_extra_headers request)) ''x-syncer-signature'' = None"
    "map_of (rev (pq_extra_headers request)) ''content-length'' = None"
    by (simp_all add: signed_names_def)
  then show "map_of (rev (signed_fields address request t signature)) ''x-syncer-device-id'' = Some (pq_device_id request)"
    and "map_of (rev (signed_fields address request t signature)) ''x-syncer-timestamp'' = Some (show_int t)"
    and "map_of (rev (signed_fields address request t signature)) ''x-syncer-signature'' = Some signature"
    and "map_of (rev (signed_fields address request t signature)) ''content-length''
      = Some (show_nat (length (pq_body request)))"
    by (simp_all add: signed_fields_def map_of_append map_add_def)
qed

section \<open>Trust\<close>

text \<open>The server trusts the device under the secret; the clocks are at most five minutes apart.\<close>

definition trusts ::
  "server_codecs \<Rightarrow> server_env \<Rightarrow> string \<Rightarrow> disk \<Rightarrow> string \<Rightarrow> string \<Rightarrow> bool" where
  "trusts cd env peers_path d device_text secret_hex \<longleftrightarrow>
     (\<exists>device peers peer. sx_uuid cd device_text = Some device \<and> device_id_text device = device_text
        \<and> peer_store_read_or_default (sv_io env 0) (sx_peers cd) peers_path d = Inr peers
        \<and> trusted_peer peers device = Some peer \<and> tp_shared_secret_hex peer = secret_hex)"

lemma authentic_if_signed:
  assumes "wire_laws x" and "i64_range t"
    and "sign_request_with_body_hash_hex x (hr_method request) (hr_path request) device_text t
      (hr_body_sha256_hex request) secret_hex = Inr signature"
    and "hr_headers request ''x-syncer-device-id'' = Some device_text"
    and "hr_headers request ''x-syncer-timestamp'' = Some (show_int t)"
    and "hr_headers request ''x-syncer-signature'' = Some signature"
    and "trusts cd env peers_path d device_text secret_hex"
    and "\<bar>unix_timestamp x (sv_now env) - t\<bar> \<le> 300"
  shows "authentic_request x cd env request peers_path d secret_hex"
proof -
  from signature_made [OF assms(3)] obtain key mac where k: "hex_decode x secret_hex = Inr key"
    "hmac_sha256 x key (canonical_payload_with_body_hash_hex (hr_method request) (hr_path request)
       device_text t (hr_body_sha256_hex request)) = Some mac" "signature = hex_encode x mac" by blast
  have "hex_decode x signature = Inr mac" using assms(1) k(3) by (simp add: wire_laws_def hex_laws_def)
  with k assms(4-8) parse_i64_show [OF assms(2)] show ?thesis
    unfolding authentic_request_def trusts_def by auto
qed

text \<open>
  C6: Trust works from end to end. The bytes a client sends for any of its requests without a
  file, cut into segments in any way, are read by the server as exactly that request, and if
  the server's document names the client's device with the client's secret and the clocks are
  at most five minutes apart, the request is authentic.
\<close>

theorem trusted_clients_are_admitted:
  assumes "wire_laws x" and "time_laws x" and "proper_request request" and "pq_method request \<noteq> ''PUT''"
    and "signed_request_header x now request = Inr header"
    and "stream_bytes s = Some (header @ pq_body request)" and "length header + 4096 \<le> max_header_bytes"
    and "length (pq_body request) \<le> unat max_memory_body_bytes" and "no_spool_faults io"
    and "trusts cd env peers_path d (pq_device_id request) (pq_shared_secret_hex request)"
    and "\<bar>unix_timestamp x (sv_now env) - unix_timestamp x now\<bar> \<le> 300"
  shows "\<exists>received. outcome (read_request x io folder uuid (s, d)) = (Inr received, d)
    \<and> hr_method received = pq_method request \<and> hr_path received = pq_path request
    \<and> hr_body received = MemoryBody (pq_body request)
    \<and> authentic_request x cd env received peers_path d (pq_shared_secret_hex request)"
proof -
  let ?t = "unix_timestamp x now"
  from signed_header_message [OF assms(5)] obtain address signature where
    a: "peer_address_parse (pq_endpoint request) = Inr address"
    and signed: "sign_request x (pq_method request) (pq_path request) (pq_device_id request) ?t
        (pq_body request) (pq_shared_secret_hex request) = Inr signature"
    and h: "header = head_text (pq_method request) (pq_path request)
        (signed_fields address request ?t signature) @ crlf @ crlf" by blast
  let ?fs = "signed_fields address request ?t signature"
  let ?received = "\<lparr>hr_method = pq_method request, hr_path = pq_path request, hr_headers = map_of (rev ?fs),
     hr_body_sha256_hex = hex_encode x (sha256 x (pq_body request)), hr_body = MemoryBody (pq_body request)\<rparr>"
  have "visible signature"
    using signature_made [OF signed [unfolded sign_request_def]] visible_mac [OF assms(1)] by auto
  from signed_fields_ok [OF assms(3) a this] have fields: "fields_ok ?fs" .
  have limit: "unat max_memory_body_bytes < 2 ^ 64" by (rule unat_u64_lt)
  have announced: "announces ?fs (pq_body request)"
    using signed_fields_lookup(4) [OF assms(3)] assms(8) limit by (simp add: announces_def)
  have bytes: "stream_bytes s = Some (message (pq_method request) (pq_path request) ?fs (pq_body request))"
    using assms(6) h by (simp add: message_def)
  have room: "length (head_text (pq_method request) (pq_path request) ?fs) + 4100 \<le> max_header_bytes"
    using assms(7) h by (simp add: crlf_def)
  have proper: "visible (pq_method request)" "wire_path (pq_path request)"
    using assms(3) by (simp_all add: proper_request_def)
  have "i64_range ?t" using assms(2) by (simp add: time_laws_def)
  from authentic_if_signed [OF assms(1) this, of ?received "pq_device_id request" "pq_shared_secret_hex request"]
  have "authentic_request x cd env ?received peers_path d (pq_shared_secret_hex request)"
    using signed [unfolded sign_request_def] signed_fields_lookup [OF assms(3)] assms(10,11) by simp
  with message_read [OF proper fields announced bytes room assms(9,4,8), of x folder uuid d]
  show ?thesis by (intro exI [of _ ?received]) simp
qed

section \<open>An example with letters for bytes\<close>

text \<open>Two letters for a byte, in the place of \<open>hex\<close>.\<close>

definition letters_of :: "string \<Rightarrow> string" where
  "letters_of bytes = concat (map (\<lambda>c. [char_of (97 + byte_of c div 16), char_of (97 + byte_of c mod 16)]) bytes)"

fun bytes_of :: "string \<Rightarrow> string + string" where
  "bytes_of [] = Inr []"
| "bytes_of [c] = Inl ''Odd number of digits''"
| "bytes_of (c # d # s) = and_then (bytes_of s) (\<lambda>r.
     Inr (char_of (16 * (byte_of c - 97) + (byte_of d - 97)) # r))"

definition sample_wire_externals :: agent_externals where
  "sample_wire_externals = sample_agent_externals\<lparr>hex_encode := letters_of, hex_decode := bytes_of,
     hmac_sha256 := \<lambda>key payload. Some (take 32 (CHR ''m'' # rev payload @ key @ replicate 32 CHR ''0''))\<rparr>"

lemma byte_of_bound: "byte_of c < 256"
  by (cases c) (simp add: byte_of_def)

lemma letter_bytes:
  "byte_of (char_of (97 + byte_of c div 16)) = 97 + byte_of c div 16"
  "byte_of (char_of (97 + byte_of c mod 16)) = 97 + byte_of c mod 16"
proof -
  have "byte_of c div 16 < 16" using byte_of_bound [of c] by simp
  then show "byte_of (char_of (97 + byte_of c div 16)) = 97 + byte_of c div 16"
    and "byte_of (char_of (97 + byte_of c mod 16)) = 97 + byte_of c mod 16"
    by (simp_all add: byte_of_def)
qed

lemma bytes_of_letters: "bytes_of (letters_of s) = Inr s"
proof (induction s)
  case (Cons c s)
  have "16 * (byte_of c div 16) + byte_of c mod 16 = byte_of c" by simp
  moreover have "char_of (byte_of c) = c" by (simp add: byte_of_def)
  ultimately show ?case using Cons by (simp add: letters_of_def letter_bytes)
qed (simp add: letters_of_def)

lemma visible_letters: "s \<noteq> [] \<Longrightarrow> visible (letters_of s)"
proof -
  have "byte_of c div 16 \<le> 15" "byte_of c mod 16 \<le> 15" for c using byte_of_bound [of c] by simp_all
  then have "byte_of c div 16 \<le> 29" "byte_of c mod 16 \<le> 29" for c by (meson le_trans numeral_le_iff semiring_norm)+
  then show "s \<noteq> [] \<Longrightarrow> visible (letters_of s)"
    by (cases s) (auto simp: letters_of_def visible_def list_all_iff letter_bytes)
qed

lemma length_letters: "length (letters_of s) = 2 * length s"
  by (induction s) (simp_all add: letters_of_def)

lemma sample_wire_laws: "wire_laws sample_wire_externals"
  by (auto simp: wire_laws_def hex_laws_def sample_wire_externals_def bytes_of_letters visible_letters length_letters)

lemma sample_wire_time: "time_laws sample_wire_externals"
  by (auto simp: time_laws_def sample_wire_externals_def sample_agent_externals_def i64_range_def)

definition sample_request :: peer_request where
  "sample_request = \<lparr>pq_method = ''GET'', pq_endpoint = ''http://10.0.0.2:80'', pq_path = ''/manifest'',
     pq_device_id = ''b'', pq_shared_secret_hex = replicate 32 CHR ''k'', pq_body = [],
     pq_extra_headers = [], pq_response_limit_bytes = response_limit_bytes\<rparr>"

theorem trusted_clients_are_admitted_witness:
  "\<exists>header received. signed_request_header sample_wire_externals 150 sample_request = Inr header
    \<and> outcome (read_request sample_wire_externals
        \<lparr>sp_create_dir = None, sp_create = None, sp_write = \<lambda>_. None, sp_sync = None\<rparr> ''/d'' ''u''
        ([Segment (take 10 header), Segment (drop 10 header)], sw_disk sample_world)) = (Inr received, sw_disk sample_world)
    \<and> authentic_request sample_wire_externals sample_server_codecs (sample_env ''1'') received
        (sg_peers_path sample_config) (sw_disk sample_world) (replicate 32 CHR ''k'')"
proof -
  let ?x = sample_wire_externals
  let ?io = "\<lparr>sp_create_dir = None, sp_create = None, sp_write = \<lambda>_. None, sp_sync = None\<rparr>"
  have "case bytes_of (replicate 32 CHR ''k'') of Inl _ \<Rightarrow> False | Inr key \<Rightarrow> length key = 16" by code_simp
  then obtain key where key: "bytes_of (replicate 32 CHR ''k'') = Inr key" "length key = 16"
    by (auto split: sum.splits)
  have "case peer_address_parse ''http://10.0.0.2:80'' of Inl _ \<Rightarrow> False | Inr a \<Rightarrow> length (pa_host a) < 20"
    by code_simp
  then obtain address where address: "peer_address_parse ''http://10.0.0.2:80'' = Inr address"
    "length (pa_host address) < 20" by (auto split: sum.splits)
  have time: "unix_timestamp ?x 150 = 150" by (simp add: sample_wire_externals_def sample_agent_externals_def i64_range_def)
  have numbers: "length (show_int 150) = 3" "length (show_nat 0) = 1" by code_simp+
  have no_body: "sha256 ?x [] = []" by (simp add: sample_wire_externals_def sample_agent_externals_def)
  let ?payload = "canonical_payload_with_body_hash_hex ''GET'' ''/manifest'' ''b'' 150 (letters_of [])"
  have payload: "length ?payload < 100" by code_simp
  have signed: "sign_request ?x ''GET'' ''/manifest'' ''b'' 150 [] (replicate 32 CHR ''k'')
      = Inr (letters_of (take 32 (CHR ''m'' # rev ?payload @ key @ replicate 32 CHR ''0'')))"
    using key by (simp add: sign_request_def sign_request_with_body_hash_hex_def no_body)
      (simp add: sample_wire_externals_def)
  then obtain header where h: "signed_request_header ?x 150 sample_request = Inr header"
    using address by (auto simp: signed_request_header_def sample_request_def time Let_def)
  with signed address have len: "10 < length header" "length header < 10000"
    using key payload numbers
    by (auto simp: signed_request_header_def sample_request_def time Let_def header_line_def crlf_def length_letters)
  have proper: "proper_request sample_request"
  proof -
    have "visible ''GET''" "wire_path ''/manifest''" "visible ''b''" by code_simp+
    moreover have "(case peer_address_parse ''http://10.0.0.2:80'' of Inl _ \<Rightarrow> True | Inr a \<Rightarrow> visible (pa_host a))"
      by code_simp
    ultimately show ?thesis by (auto simp: proper_request_def sample_request_def fields_ok_def)
  qed
  have fields: "pq_method sample_request = ''GET''" "pq_body sample_request = []"
    "pq_device_id sample_request = ''b''" "pq_shared_secret_hex sample_request = replicate 32 CHR ''k''"
    by (simp_all add: sample_request_def)
  have bytes: "stream_bytes [Segment (take 10 header), Segment (drop 10 header)]
      = Some (header @ pq_body sample_request)" using len by (auto simp: fields)
  have trusted: "trusts sample_server_codecs (sample_env ''1'') (sg_peers_path sample_config) (sw_disk sample_world)
      (pq_device_id sample_request) (pq_shared_secret_hex sample_request)"
  proof -
    have "(case peer_store_read_or_default (sv_io (sample_env ''1'') 0) (sx_peers sample_server_codecs)
        (sg_peers_path sample_config) (sw_disk sample_world) of Inl _ \<Rightarrow> False
      | Inr peers \<Rightarrow> map_option tp_shared_secret_hex (trusted_peer peers (DeviceId ''b'')) = Some (replicate 32 CHR ''k''))"
      by code_simp
    then show ?thesis by (auto simp: trusts_def fields sample_server_codecs_def split: sum.splits)
  qed
  have clock: "\<bar>unix_timestamp ?x (sv_now (sample_env ''1'')) - unix_timestamp ?x 150\<bar> \<le> 300" by code_simp
  from trusted_clients_are_admitted [OF sample_wire_laws sample_wire_time proper _ h bytes _ _ _ trusted clock,
      of ?io "''/d''" "''u''"] len h
  show ?thesis by (auto simp: fields no_spool_faults_def max_header_bytes_def)
qed

section \<open>An answer that counts\<close>

definition status_line :: "u16 \<Rightarrow> string \<Rightarrow> string" where
  "status_line status reason = ''HTTP/1.1 '' @ show_nat (unat status) @ '' '' @ reason"

lemma parse_u16_show: "parse_u16 (show_nat (unat (st :: u16))) = Some st"
proof -
  have "unat st < 65536" using unsigned_less [of st, where ?'a = nat] by simp
  then show ?thesis by (simp add: parse_u16_def strip_plus_show parse_digits_show)
qed

lemma printable_status_line: "printable reason \<Longrightarrow> printable (status_line status reason)"
proof -
  assume "printable reason"
  moreover have "printable ''HTTP/1.1 ''" "printable '' ''" by code_simp+
  ultimately show ?thesis
    using visible_printable [OF visible_show_nat] by (simp add: status_line_def printable_def)
qed

lemma status_line_words:
  assumes "printable reason"
  shows "split_whitespace (status_line status reason)
    = ''HTTP/1.1'' # show_nat (unat status) # filter (\<lambda>p. p \<noteq> []) (whitespace_pieces (map (\<lambda>c. [c]) reason))"
proof -
  have "utf8_chars (status_line status reason) = map (\<lambda>c. [c]) ''HTTP/1.1'' @ [CHR '' '']
      # map (\<lambda>c. [c]) (show_nat (unat status)) @ [CHR '' ''] # map (\<lambda>c. [c]) reason"
    using printable_chars [OF printable_ascii [OF printable_status_line [OF assms]]] by (simp add: status_line_def)
  moreover have "list_all (\<lambda>c. 33 \<le> byte_of c \<and> byte_of c \<le> 126) ''HTTP/1.1''"
    "list_all (\<lambda>c. 33 \<le> byte_of c \<and> byte_of c \<le> 126) (show_nat (unat status))"
    using visible_version visible_show_nat by (simp_all add: visible_def)
  ultimately have "whitespace_pieces (utf8_chars (status_line status reason))
      = ''HTTP/1.1'' # show_nat (unat status) # whitespace_pieces (map (\<lambda>c. [c]) reason)"
    by (simp only: whitespace_pieces_blank)
  then show ?thesis by (simp add: split_whitespace_def show_nat_nonempty)
qed

definition answer :: "u16 \<Rightarrow> string \<Rightarrow> string list \<Rightarrow> string \<Rightarrow> string" where
  "answer status reason ls body = crlf_lines (status_line status reason # ls) @ crlf @ crlf @ body"

text \<open>A client that got a value from an answer, even a truncated one, got it with status 200.\<close>

lemma decoded_answer_status:
  assumes "parse_json_response decode response = Inr a" and "answer status reason ls body = response @ tail"
    and "printable reason" and "\<forall>l \<in> set ls. printable l"
  shows "status = 200"
proof -
  let ?lines = "status_line status reason # ls"
  have lines: "\<forall>l \<in> set ?lines. printable l" using assms(3,4) by (simp add: printable_status_line)
  from assms(1) obtain n header where n: "find_header_end response = Some n"
    and header: "from_utf8 (take n response) = Some header" and status: "response_status header = Inr 200"
    by (auto simp: parse_json_response_def and_then_Inr_iff split: if_splits)
  from find_header_end_append [OF n, of tail] assms(2) find_header_end_lines [OF _ lines, of body]
  have "n = length (crlf_lines ?lines)" by (simp add: answer_def)
  moreover have "take n (response @ tail) = take n response" using find_header_end_bound [OF n] by simp
  moreover have "take (length (crlf_lines ?lines)) (response @ tail) = crlf_lines ?lines"
    unfolding assms(2) [symmetric] answer_def by simp
  ultimately have "take n response = crlf_lines ?lines" by metis
  with header from_utf8_lines [OF lines] have "header = crlf_lines ?lines" by simp
  with str_lines_crlf [OF _ lines] have "response_status header = Inr status"
    by (simp add: response_status_def first_piece_def status_line_words [OF assms(3)] parse_u16_show)
  with status show ?thesis by simp
qed

lemma printable_reason: "printable (reason_phrase status)"
proof -
  have "printable ''OK''" "printable ''Bad Request''" "printable ''Unauthorized''" "printable ''Not Found''"
    "printable ''Conflict''" "printable ''Payload Too Large''" "printable ''Internal Server Error''"
    by code_simp+
  then show ?thesis by (simp add: reason_phrase_def)
qed

lemma binary_response_answer:
  "binary_response status ''application/json'' body = answer status (reason_phrase status)
     [''content-type: application/json'', ''content-length: '' @ show_nat (unat (len_u64 body)),
      ''connection: close''] body"
  by (simp add: binary_response_def response_header_def answer_def status_line_def)

lemma error_answer:
  "\<exists>status reason ls body. error_response to_vec e = BytesResponse (answer status reason ls body)
     \<and> status \<noteq> 200 \<and> printable reason \<and> (\<forall>l \<in> set ls. printable l)"
proof (cases "to_vec (ErrorReply (public_code e))")
  case (Inl message)
  have "error_response to_vec e = BytesResponse (answer 500 ''Internal Server Error''
      [''content-length: 0'', ''connection: close''] [])"
  proof -
    have "show_nat (unat (500 :: u16)) = ''500''" by code_simp
    with Inl show ?thesis by (simp add: error_response_def json_response_def answer_def status_line_def)
  qed
  moreover have "printable ''Internal Server Error''" "printable ''content-length: 0''" "printable ''connection: close''"
    by code_simp+
  ultimately show ?thesis by force
next
  case (Inr body)
  let ?ls = "[''content-type: application/json'', ''content-length: '' @ show_nat (unat (len_u64 body)),
      ''connection: close'']"
  have "error_response to_vec e
      = BytesResponse (answer (error_status e) (reason_phrase (error_status e)) ?ls body)"
    using Inr by (simp add: error_response_def json_response_def binary_response_answer)
  moreover have "error_status e \<noteq> 200" by (cases e) simp_all
  moreover have "printable ''content-length: ''" "printable ''content-type: application/json''"
    "printable ''connection: close''" by code_simp+
  then have "\<forall>l \<in> set ?ls. printable l"
    using printable_append [OF _ visible_printable [OF visible_show_nat], of "''content-length: ''"] by simp
  ultimately show ?thesis using printable_reason by blast
qed

section \<open>A PUT that counts\<close>

lemma sent_answer: "send env k bytes [] = (r, sent) \<Longrightarrow> sent = bytes \<or> sent = []"
  by (auto simp: send_def split: option.splits)

lemma put_route_bytes:
  "put_file_route x cd env request config w = (Inr response, w') \<Longrightarrow> \<exists>bytes. response = BytesResponse bytes"
  by (auto simp: put_file_route_def bind_op_Inr lift_result_Inr json_response_def and_then_Inr_iff split: if_splits)

lemma put_served:
  assumes "handle_stream x cd io env config s w = (r, reply, w')"
    and "wire_path path" and "fields_ok fs" and "announces fs body" and "no_spool_faults io"
    and "stream_bytes s = Some (message ''PUT'' path fs body)" and "starts_with ''/file/'' path" and "body \<noteq> []"
    and "parse_json_response decode response = Inr a" and "reply = response @ tail"
  shows "\<exists>answered w1. put_file_route x cd env
      (spooled_request x (sg_folder_path config) (sv_body_uuid env) path fs body) config
      (w\<lparr>sw_disk := set_file (path_push (requests_dir (sg_folder_path config)) (sv_body_uuid env @ ''.body''))
        (Some body) (sw_disk w)\<rparr>) = (Inr answered, w1) \<and> w' = w1"
proof -
  have refused: "False" if "error_response (sx_reply cd) e = BytesResponse bytes"
    "reply = bytes \<or> reply = []" for e bytes
  proof -
    obtain status reason ls b where e: "error_response (sx_reply cd) e = BytesResponse (answer status reason ls b)"
      "status \<noteq> 200" "printable reason" "\<forall>l \<in> set ls. printable l" using error_answer by blast
    have "reply \<noteq> []" using assms(9,10) by (auto simp: parse_json_response_def)
    with that e(1) assms(10) have "answer status reason ls b = response @ tail" by auto
    from decoded_answer_status [OF assms(9) this e(3,4)] e(2) show False by simp
  qed
  obtain q c where q: "read_request x io (sg_folder_path config) (sv_body_uuid env) (s, sw_disk w) = (q, c)"
    by (metis prod.exhaust)
  define bytes_of_error where "bytes_of_error e =
    (case error_response (sx_reply cd) e of BytesResponse b \<Rightarrow> b | FileResponse _ _ _ \<Rightarrow> [])" for e
  have err: "error_response (sx_reply cd) e = BytesResponse (bytes_of_error e)" for e
    using error_answer [of "sx_reply cd" e] by (auto simp: bytes_of_error_def)
  show ?thesis
  proof (cases q)
    case (Inl e)
    with assms(1) q err [of e] refused [OF err [of e]] show ?thesis
      by (auto simp: handle_stream_def split: prod.splits dest!: sent_answer)
  next
    case (Inr request)
    note spooled = message_spooled [OF assms(2,3,4,6,5,7,8) q [unfolded Inr]]
    let ?w = "w\<lparr>sw_disk := snd c\<rparr>"
    have route: "route_request x cd env request config ?w = put_file_route x cd env request config ?w"
      using assms(7) by (simp add: spooled(1) route_request_def spooled_request_def Let_def)
    obtain t w1 where t: "put_file_route x cd env request config ?w = (t, w1)" by (metis prod.exhaust)
    show ?thesis
    proof (cases t)
      case (Inl e)
      with assms(1) q \<open>q = Inr request\<close> t route err [of e] refused [OF err [of e]] show ?thesis
        by (auto simp: handle_stream_def split: prod.splits dest!: sent_answer)
    next
      case (Inr answered)
      from put_route_bytes [OF t [unfolded Inr]] obtain bytes where "answered = BytesResponse bytes" by blast
      with assms(1) q \<open>q = Inr request\<close> t route Inr have "w' = w1"
        by (auto simp: handle_stream_def split: prod.splits dest!: sent_answer)
      with t Inr spooled show ?thesis by auto
    qed
  qed
qed

section \<open>What an accepted PUT stores\<close>

lemma verified_secret:
  assumes "verify_peer_request x cd env request peers_path d = Inr secret'"
    and "trusts cd env peers_path d device_text secret_hex"
    and "hr_headers request ''x-syncer-device-id'' = Some device_text"
  shows "secret' = secret_hex"
  using assms unfolding verify_peer_request_iff authentic_request_def trusts_def by auto

lemma prepared_decryption:
  assumes "prepare_upload x cd env folder_path p size_bytes hash secret_hex nonce_hex body w = (Inr h, w')"
  shows "\<exists>f d. decrypt_path x (sv_crypto_io env) (sv_partial env) (fb_path body) (plaintext_path env folder_path)
      secret_hex nonce_hex \<lparr>cx_direction = ''upload'', cx_path = p, cx_content_hash = hash,
        cx_plaintext_size = size_bytes\<rparr> (sw_disk w) = (Inr f, d)
    \<and> w' = w\<lparr>sw_disk := d\<rparr>"
  using assms
  by (auto simp: prepare_upload_def Let_def op_success dest!: fs_create_dir_all_Inr
      enforce_folder_limit_Inr split: if_splits)

lemma uploaded_content:
  assumes "write_uploaded_file x cd env folder_path profile p size_bytes hash secret_hex nonce_hex body w
      = (Inr reply, w')"
    and "dk_files (sw_disk w) (fb_path body) = Some cipher"
    and "decrypt_file_to_path x (sv_crypto_io env) cipher secret_hex nonce_hex
      \<lparr>cx_direction = ''upload'', cx_path = p, cx_content_hash = hash, cx_plaintext_size = size_bytes\<rparr>
      = Inr (f, content)"
  shows "dk_files (sw_disk w') (path_push folder_path (path_str p)) = Some content"
proof -
  from assms(1) obtain h w1 where prepared:
    "prepare_upload x cd env folder_path p size_bytes hash secret_hex nonce_hex body w = (Inr h, w1)"
    and finished: "finish_upload x cd env folder_path profile p size_bytes hash h w1 = (Inr reply, w')"
    by (auto simp: write_uploaded_file_def bind_op_Inr)
  from prepared_decryption [OF prepared] assms(2,3)
  have "sw_disk w1 = set_file (plaintext_path env folder_path) (Some content) (sw_disk w)"
    by (auto simp: decrypt_path_def cipher_source_def cipher_into_def)
  with finish_upload_Inr [OF finished] show ?thesis by (auto simp: set_file_def)
qed

definition upload_fields ::
  "peer_address \<Rightarrow> string \<Rightarrow> int \<Rightarrow> string \<Rightarrow> cryptographic_file \<Rightarrow> string \<Rightarrow> u64 \<Rightarrow> (string \<times> string) list" where
  "upload_fields address device timestamp signature encrypted content_hash size_bytes =
     [(''host'', pa_host address), (''x-syncer-device-id'', device),
      (''x-syncer-timestamp'', show_int timestamp), (''x-syncer-signature'', signature),
      (''content-type'', ''application/octet-stream''),
      (''content-length'', show_nat (unat (cf_size_bytes encrypted))),
      (''x-syncer-content-hash'', content_hash), (''x-syncer-file-size'', show_nat (unat size_bytes)),
      (''x-syncer-encryption'', encryption_algorithm), (''x-syncer-nonce'', cf_nonce_hex encrypted),
      (''connection'', ''close'')]"

lemma upload_header_message:
  "upload_header address path device timestamp signature encrypted content_hash size_bytes @ body
    = message ''PUT'' path (upload_fields address device timestamp signature encrypted content_hash size_bytes) body"
proof -
  let ?fs = "upload_fields address device timestamp signature encrypted content_hash size_bytes"
  have "upload_header address path device timestamp signature encrypted content_hash size_bytes
      = (request_line ''PUT'' path @ crlf @ concat (map (\<lambda>(n, v). header_line n v) ?fs)) @ crlf"
    by (simp add: upload_header_def request_line_def upload_fields_def)
  also have "\<dots> = head_text ''PUT'' path ?fs @ crlf @ crlf"
    unfolding header_lines head_text_lines by simp
  finally show ?thesis by (simp add: message_def)
qed

lemma put_route_stores:
  assumes "put_file_route x cd env (spooled_request x folder uuid path
      (upload_fields address device t signature f hash size_bytes) cipher) config w = (Inr answered, w')"
    and "requested_path path = Inr p"
    and "trusts cd env (sg_peers_path config) (sw_disk w) device secret_hex"
    and "dk_files (sw_disk w) (path_push (requests_dir folder) (uuid @ ''.body'')) = Some cipher"
    and "decrypt_file_to_path x (sv_crypto_io env) cipher secret_hex (cf_nonce_hex f)
      \<lparr>cx_direction = ''upload'', cx_path = p, cx_content_hash = hash, cx_plaintext_size = size_bytes\<rparr>
      = Inr (f', content)"
  shows "dk_files (sw_disk w') (path_push (sg_folder_path config) (path_str p)) = Some content"
proof -
  let ?request = "spooled_request x folder uuid path (upload_fields address device t signature f hash size_bytes) cipher"
  have header: "hr_headers ?request ''x-syncer-device-id'' = Some device"
    "required_u64_header ?request ''x-syncer-file-size'' = Inr size_bytes"
    "required_header ?request ''x-syncer-content-hash'' = Inr hash"
    "required_header ?request ''x-syncer-nonce'' = Inr (cf_nonce_hex f)"
    and path: "hr_path ?request = path" and body: "hr_body ?request = SpooledBody (spooled x folder uuid cipher)"
    using unat_u64_lt [of size_bytes]
    by (simp_all add: spooled_request_def upload_fields_def required_u64_header_def required_header_def parse_u64_show)
  from assms(1) obtain secret' reply where
    secret: "verify_peer_request x cd env ?request (sg_peers_path config) (sw_disk w) = Inr secret'"
    and written: "write_uploaded_file x cd env (sg_folder_path config) (sg_profile config) p size_bytes hash
      secret' (cf_nonce_hex f) (spooled x folder uuid cipher) w = (Inr reply, w')"
    unfolding put_file_route_def path body
    by (auto simp: bind_op_Inr lift_result_Inr verified_def read_op_Inr assms(2) header split: if_splits)
  have same: "secret' = secret_hex" by (rule verified_secret [OF secret assms(3) header(1)])
  show ?thesis
    by (rule uploaded_content [OF written [unfolded same] _ assms(5)]) (simp add: spooled_def assms(4))
qed

section \<open>What the client sends\<close>

lemma send_parts_all:
  "send_parts env k (map Inr bs) sent = (Inr (), sent') \<Longrightarrow> sent' = sent @ concat bs"
proof (induction bs arbitrary: k sent)
  case (Cons b bs)
  then show ?case by (auto split: if_splits option.splits dest!: Cons.IH)
qed simp

lemma exchange_Inr:
  assumes "exchange env address (map Inr bs) w = (Inr s, w')"
  shows "cl_answer env address (cw_peer w) (concat bs) = (s, cw_peer w')"
proof -
  obtain r sent where sent: "send_parts env 0 (map Inr bs) [] = (r, sent)" by fastforce
  with assms have "r = Inr ()" by (cases r) (auto simp: exchange_def split: option.splits prod.splits)
  with send_parts_all [of env 0 bs "[]"] sent have "sent = concat bs" by simp
  with assms sent \<open>r = Inr ()\<close> show ?thesis by (auto simp: exchange_def split: option.splits prod.splits sum.splits)
qed

lemma put_file_sends:
  assumes "put_file_from_path x ck env endpoint device secret_hex p hash file_path size_bytes w = (Inr response, w')"
    and "dk_files (cw_disk w) file_path = Some content" and "cl_reads env = (\<lambda>bytes. map Inr (file_pieces bytes))"
    and "encrypt_file_to_path x (cl_crypto_io env) (map Inr (file_pieces content)) (cl_nonce env) secret_hex
      \<lparr>cx_direction = ''upload'', cx_path = p, cx_content_hash = hash, cx_plaintext_size = size_bytes\<rparr>
      = Inr (f, cipher)"
  shows "\<exists>address signature s r. peer_address_parse endpoint = Inr address
    \<and> sign_request_with_body_hash_hex x ''PUT'' (''/file/'' @ encode_relative_path p) device
        (unix_timestamp x (cl_now env)) (hex_encode x (sha256 x cipher)) secret_hex = Inr signature
    \<and> cl_answer env address (cw_peer w) (message ''PUT'' (''/file/'' @ encode_relative_path p)
        (upload_fields address device (unix_timestamp x (cl_now env)) signature f hash size_bytes) cipher)
        = (s, cw_peer w')
    \<and> fst (read_to_end response_limit_bytes [] s) = Inr r \<and> parse_json_response (ck_upload ck) r = Inr response"
proof -
  let ?path = "''/file/'' @ encode_relative_path p" and ?t = "unix_timestamp x (cl_now env)"
  let ?target = "encrypted_upload_path (cl_uuid env) file_path"
  let ?w = "w\<lparr>cw_disk := set_file ?target (Some cipher) (cw_disk w)\<rparr>"
  have encrypted: "encrypt_path x (cl_crypto_io env) (cl_partial env) (cl_reads env) (cl_nonce env) file_path
      ?target secret_hex \<lparr>cx_direction = ''upload'', cx_path = p, cx_content_hash = hash,
        cx_plaintext_size = size_bytes\<rparr> (cw_disk w) = (Inr f, set_file ?target (Some cipher) (cw_disk w))"
    using assms(2,3,4) by (simp add: encrypt_path_def cipher_source_def cipher_into_def)
  have hashed: "file_sha256_hex x (cl_hash_fault env) ?target (set_file ?target (Some cipher) (cw_disk w)) = Inr h \<Longrightarrow>
      h = hex_encode x (sha256 x cipher)" for h
    by (auto simp: file_sha256_hex_def set_file_def split: option.splits)
  have parts: "upload_parts env header ?target (cw_disk ?w) = map Inr (header # file_pieces cipher)" for header
    by (simp add: upload_parts_def set_file_def assms(3))
  from assms(1) obtain signature address s w1 r where
    signed: "sign_request_with_body_hash_hex x ''PUT'' ?path device ?t (hex_encode x (sha256 x cipher)) secret_hex
      = Inr signature"
    and address: "peer_address_parse endpoint = Inr address"
    and exchanged: "exchange env address (upload_parts env (upload_header address ?path device ?t signature f hash size_bytes)
      ?target (cw_disk ?w)) ?w = (Inr s, w1)"
    and r: "fst (read_to_end response_limit_bytes [] s) = Inr r" "parse_json_response (ck_upload ck) r = Inr response"
    and peer: "cw_peer w' = cw_peer w1"
    unfolding put_file_from_path_def Let_def
    by (auto simp: bind_op_Inr lift_result_Inr read_op_Inr on_local_Inr map_op_err_Inr encrypted
        and_then_Inr_iff dest!: hashed split: if_splits)
  from exchange_Inr [OF exchanged [unfolded parts]] have
    "cl_answer env address (cw_peer w) (message ''PUT'' ?path (upload_fields address device ?t signature f hash size_bytes) cipher)
      = (s, cw_peer w1)"
    by (simp add: concat_file_pieces upload_header_message [symmetric])
  with signed address r peer show ?thesis by metis
qed

section \<open>Uploads from end to end\<close>

text \<open>
  The peer of a client is a server: what was sent reaches it in segments, and what it replies
  comes back in segments.
\<close>

definition served_by ::
  "'x agent_externals_scheme \<Rightarrow> server_codecs \<Rightarrow> spool_io \<Rightarrow> server_env \<Rightarrow> peer_server_config
     \<Rightarrow> (string \<Rightarrow> tcp_stream) \<Rightarrow> (string \<Rightarrow> tcp_stream) \<Rightarrow> peer_address \<Rightarrow> server_world \<Rightarrow> string
     \<Rightarrow> tcp_stream \<times> server_world" where
  "served_by x cd io senv config segments deliver = (\<lambda>_ w bytes.
     case handle_stream x cd io senv config (segments bytes) w of (_, reply, w') \<Rightarrow> (deliver reply, w'))"

text \<open>What a lossless connection does to bytes, and a client that reads its files in full.\<close>

definition lossless :: "(string \<Rightarrow> tcp_stream) \<Rightarrow> bool" where
  "lossless segments \<longleftrightarrow> (\<forall>bytes. stream_bytes (segments bytes) = Some bytes)"

definition reads_in_full :: "'p client_env \<Rightarrow> bool" where
  "reads_in_full env \<longleftrightarrow> cl_reads env = (\<lambda>bytes. map Inr (file_pieces bytes))
     \<and> no_io_faults (cl_crypto_io env) \<and> length (cl_nonce env) = 16"

definition sendable :: "relative_path \<Rightarrow> bool" where
  "sendable p \<longleftrightarrow> safe_path p \<and> trim (path_str p) = path_str p \<and> utf8_wf (map byte_of (path_str p))"

lemma read_to_end_prefix:
  assumes "fst (read_to_end limit response s) = Inr r" and "stream_bytes s = Some rest"
  shows "\<exists>tail. response @ rest = r @ tail"
  using assms
proof (induction limit response s arbitrary: rest rule: read_to_end.induct)
  case (1 limit response s)
  show ?case
  proof (cases "limit = 0 \<or> rest = []")
    case True
    with 1(2,3) show ?thesis
      by (auto simp: read_to_end.simps [of limit] stream_bytes_Nil client_read_end split: if_splits)
  next
    case False
    then have "0 < limit" and ne: "rest \<noteq> []" by auto
    then obtain b s1 rest1 where r: "client_read limit s = (Inr b, s1)" "b \<noteq> []" "rest = b @ rest1"
      "stream_bytes s1 = Some rest1"
      using client_read_delivers [OF 1(3) ne, of limit] by metis
    have "limit \<noteq> 0" using False by simp
    from 1(1) [OF this r(1)[symmetric] refl r(2) _ r(4)] 1(2) r False show ?thesis
      by (simp add: read_to_end.simps [of limit])
  qed
qed

lemma sent_path:
  assumes "sendable p"
  shows "wire_path (''/file/'' @ encode_relative_path p)"
    and "requested_path (''/file/'' @ encode_relative_path p) = Inr p"
proof -
  let ?e = "encode_relative_path p"
  have "33 \<le> byte_of c \<and> byte_of c \<le> 126 \<and> c \<noteq> CHR ''?''" if "unreserved c \<or> c = CHR ''%''" for c
    using that by (auto simp: unreserved_def byte_of_def Let_def)
  then have chars: "list_all (\<lambda>c. 33 \<le> byte_of c \<and> byte_of c \<le> 126 \<and> c \<noteq> CHR ''?'') ?e"
    using encoded_path_is_unreserved [of p] by (auto simp: list_all_iff)
  have "wire_path ''/file/''" by code_simp
  with chars show "wire_path (''/file/'' @ ?e)"
    by (auto simp: wire_path_def visible_def list_all_iff)
  have parsed: "relative_path_parse (path_str p) = Inr p"
    using assms by (simp add: sendable_def relative_path_parse_normal)
  have "\<not> starts_with ''/file/'' ?e"
  proof (cases "path_str p")
    case Nil
    then show ?thesis by (simp add: encode_relative_path_def starts_with_def)
  next
    case (Cons c cs)
    have "c \<noteq> CHR ''/''"
    proof
      assume "c = CHR ''/''"
      with Cons have "[] \<in> set (split_on CHR ''/'' (path_str p))" by simp
      with assms show False by (auto simp: sendable_def safe_path_def safe_names_def plain_names_def plain_name_def
          list_all_iff)
    qed
    with Cons show ?thesis
      by (auto simp: encode_relative_path_def percent_byte_def starts_with_def)
  qed
  then have "trim_start_matches ''/file/'' (''/file/'' @ ?e) = ?e"
    by (subst trim_start_matches.simps, simp add: starts_with_def, subst trim_start_matches.simps)
      (simp add: starts_with_def)
  then show "requested_path (''/file/'' @ ?e) = Inr p"
    using assms parsed by (simp add: requested_path_def decode_encode_path sendable_def)
qed

lemma upload_fields_ok:
  assumes "visible device" and "visible (pa_host address)" and "visible signature" and "visible hash"
    and "visible (cf_nonce_hex f)"
  shows "fields_ok (upload_fields address device t signature f hash size_bytes)"
proof -
  have "field_name ''x-syncer-content-hash''" "field_name ''x-syncer-file-size''"
    "field_name ''x-syncer-encryption''" "field_name ''x-syncer-nonce''" "visible encryption_algorithm" by code_simp+
  then show ?thesis
    using assms field_names visible_show_int visible_show_nat by (simp add: fields_ok_def upload_fields_def)
qed

lemma encrypted_length:
  assumes "length content < 2 ^ 63"
    and "length cipher = length content + 16 * unat (chunk_count (of_nat (length content)))"
  shows "unat (encrypted_len (of_nat (length content))) = length cipher" and "length cipher < 2 ^ 64"
    and "cipher \<noteq> []"
proof -
  let ?w = "of_nat (length content) :: u64"
  have w: "unat ?w = length content" using assms(1) by (simp add: unat_of_nat)
  have ceiling: "n \<noteq> 0 \<Longrightarrow> 1 \<le> (n + 65535) div 65536 \<and> (n + 65535) div 65536 \<le> n div 65536 + 1" for n :: nat
  proof -
    assume "n \<noteq> 0"
    then obtain m where m: "n = Suc m" by (cases n) auto
    have "(n + 65535) div 65536 = m div 65536 + 1" using div_add_self2 [of 65536 m] by (simp add: m)
    moreover have "m div 65536 \<le> n div 65536" by (rule div_le_mono) (simp add: m)
    ultimately show ?thesis by simp
  qed
  have "unat (chunk_count ?w) \<le> length content div 65536 + 1 \<and> 1 \<le> unat (chunk_count ?w)"
  proof (cases "length content = 0")
    case True
    then show ?thesis by (simp add: chunk_count_def)
  next
    case False
    then have "?w \<noteq> 0" using w by (metis unat_0)
    with ceiling [OF False] show ?thesis unfolding unat_chunk_count w by simp
  qed
  then have chunks: "unat (chunk_count ?w) \<le> length content div 65536 + 1" and one: "1 \<le> unat (chunk_count ?w)"
    by auto
  have small: "length content + 16 * unat (chunk_count ?w) < 2 ^ 64"
    using chunks assms(1) by simp
  then show "unat (encrypted_len ?w) = length cipher"
    using w assms(2) by (simp add: encrypted_len_def unat_saturating_add unat_saturating_mul unat_tag_size mult.commute)
  show "length cipher < 2 ^ 64" and "cipher \<noteq> []" using small one assms(2) by auto
qed

lemma trusts_elsewhere:
  assumes "peers_path \<noteq> q"
  shows "trusts cd env peers_path (set_file q c d) device secret_hex = trusts cd env peers_path d device secret_hex"
proof -
  have "peer_store_read_or_default f j peers_path (set_file q c d) = peer_store_read_or_default f j peers_path d" for f j
  proof -
    have "dk_files (set_file q c d) peers_path = dk_files d peers_path" using assms by (simp add: set_file_def)
    then show ?thesis by (simp only: peer_store_read_or_default_def fs_read_def)
  qed
  then show ?thesis by (simp add: trusts_def)
qed

text \<open>The ciphertext of an upload, from either side.\<close>

definition upload_context :: "relative_path \<Rightarrow> string \<Rightarrow> string \<Rightarrow> file_cipher_context" where
  "upload_context p hash content = \<lparr>cx_direction = ''upload'', cx_path = p, cx_content_hash = hash,
     cx_plaintext_size = of_nat (length content)\<rparr>"

lemma encrypted_upload:
  assumes "wire_laws x" and "aead_laws x" and "reads_in_full env" and "no_io_faults io'"
    and "hex_decode x secret_hex = Inr secret" and "length secret = 32" and "length content < 2 ^ 63"
  obtains f f' cipher where
    "encrypt_file_to_path x (cl_crypto_io env) (map Inr (file_pieces content)) (cl_nonce env) secret_hex
       (upload_context p hash content) = Inr (f, cipher)"
    "cf_content_hash f = blake3_hex x content" "unat (cf_size_bytes f) = length cipher"
    "cf_size_bytes f = encrypted_len (of_nat (length content))"
    "length cipher < 2 ^ 64" "cipher \<noteq> []" "visible (cf_nonce_hex f)"
    "decrypt_file_to_path x io' cipher secret_hex (cf_nonce_hex f) (upload_context p hash content) = Inr (f', content)"
proof -
  let ?cx = "upload_context p hash content"
  have hex: "hex_laws x" using assms(1) by (simp add: wire_laws_def)
  have full: "no_io_faults (cl_crypto_io env)" "length (cl_nonce env) = 16"
    using assms(3) by (simp_all add: reads_in_full_def)
  have size: "cx_plaintext_size ?cx = of_nat (length content)" by (simp add: upload_context_def)
  have "length content < 2 ^ 64" using assms(7) by simp
  from encrypted_file_decrypts [OF assms(2) hex full(2) assms(5,6) full(1) assms(4) this size]
  obtain f f' cipher where enc: "encrypt_file_to_path x (cl_crypto_io env) (map Inr (file_pieces content))
      (cl_nonce env) secret_hex ?cx = Inr (f, cipher)" "cf_content_hash f = blake3_hex x content"
      "cf_size_bytes f = encrypted_len (of_nat (length content))"
    and dec: "decrypt_file_to_path x io' cipher secret_hex (cf_nonce_hex f) ?cx = Inr (f', content)"
    by (auto simp: size)
  have "length cipher = length content + 16 * unat (chunk_count (of_nat (length content)))"
    using decrypted_file_lengths [OF assms(2) dec] size by simp
  note cipher = encrypted_length [OF assms(7) this]
  have "cl_nonce env \<noteq> []" using full(2) by auto
  then have "visible (hex_encode x (cl_nonce env))" using assms(1) by (simp add: wire_laws_def)
  moreover have "cf_nonce_hex f = hex_encode x (cl_nonce env)"
    using enc(1) by (auto simp: encrypt_file_to_path_def and_then_Inr_iff split: if_splits)
  ultimately show thesis using that [OF enc(1,2) _ enc(3) cipher(2,3) _ dec] cipher(1) enc(3) by simp
qed

text \<open>
  C1: An upload the peer accepted is on its disk. A client sends a file to a server over a
  lossless connection that cuts the bytes anywhere; the server trusts the client under the
  same secret. If the client's call succeeds, the server holds exactly the client's file at
  the path, whatever the server's handling of it does besides: encryption, hashing, headers,
  routing, decryption and publication of both sides fit together.
\<close>

theorem uploads_arrive:
  assumes "wire_laws x" and "aead_laws x"
    and "cl_answer env = served_by x cd io senv config segments deliver"
    and "lossless segments" and "lossless deliver" and "no_spool_faults io" and "no_io_faults (sv_crypto_io senv)"
    and "reads_in_full env" and "hex_decode x secret_hex = Inr secret" and "length secret = 32"
    and "dk_files (cw_disk w) file_path = Some content" and "length content < 2 ^ 63"
    and "size_bytes = of_nat (length content)" and "sendable p" and "visible device" and "visible hash"
    and "\<And>address. peer_address_parse endpoint = Inr address \<Longrightarrow> visible (pa_host address)"
    and "trusts cd senv (sg_peers_path config) (sw_disk (cw_peer w)) device secret_hex"
    and "sg_peers_path config \<noteq> path_push (requests_dir (sg_folder_path config)) (sv_body_uuid senv @ ''.body'')"
    and "put_file_from_path x ck env endpoint device secret_hex p hash file_path size_bytes w = (Inr response, w')"
  shows "dk_files (sw_disk (cw_peer w')) (path_push (sg_folder_path config) (path_str p)) = Some content"
proof -
  let ?path = "''/file/'' @ encode_relative_path p" and ?t = "unix_timestamp x (cl_now env)"
  let ?body_path = "path_push (requests_dir (sg_folder_path config)) (sv_body_uuid senv @ ''.body'')"
  obtain f f' cipher where enc: "encrypt_file_to_path x (cl_crypto_io env) (map Inr (file_pieces content))
      (cl_nonce env) secret_hex (upload_context p hash content) = Inr (f, cipher)"
    and cipher: "unat (cf_size_bytes f) = length cipher" "length cipher < 2 ^ 64" "cipher \<noteq> []"
    and nonce: "visible (cf_nonce_hex f)"
    and dec: "decrypt_file_to_path x (sv_crypto_io senv) cipher secret_hex (cf_nonce_hex f)
      (upload_context p hash content) = Inr (f', content)"
    using encrypted_upload [OF assms(1,2,8,7,9,10,12)] by metis
  have full: "cl_reads env = (\<lambda>bytes. map Inr (file_pieces bytes))" using assms(8) by (simp add: reads_in_full_def)
  have cx: "upload_context p hash content = \<lparr>cx_direction = ''upload'', cx_path = p, cx_content_hash = hash,
      cx_plaintext_size = size_bytes\<rparr>" by (simp add: upload_context_def assms(13))
  from put_file_sends [OF assms(20,11) full enc [unfolded cx]] obtain address signature s r where
    address: "peer_address_parse endpoint = Inr address"
    and signed: "sign_request_with_body_hash_hex x ''PUT'' ?path device ?t (hex_encode x (sha256 x cipher)) secret_hex
      = Inr signature"
    and answered: "cl_answer env address (cw_peer w)
      (message ''PUT'' ?path (upload_fields address device ?t signature f hash size_bytes) cipher) = (s, cw_peer w')"
    and r: "fst (read_to_end response_limit_bytes [] s) = Inr r" "parse_json_response (ck_upload ck) r = Inr response"
    by blast
  let ?fs = "upload_fields address device ?t signature f hash size_bytes"
  obtain q reply where handled: "handle_stream x cd io senv config (segments (message ''PUT'' ?path ?fs cipher)) (cw_peer w)
      = (q, reply, cw_peer w')" and "s = deliver reply"
    using answered unfolding assms(3) by (auto simp: served_by_def split: prod.splits)
  with assms(5) have "stream_bytes s = Some reply" by (simp add: lossless_def)
  from read_to_end_prefix [OF r(1) this] obtain tail where reply: "reply = r @ tail" by auto
  have "visible signature" using signature_made [OF signed] visible_mac [OF assms(1)] by auto
  with nonce have fields: "fields_ok ?fs"
    by (intro upload_fields_ok assms(15,16) assms(17) [OF address])
  have announced: "announces ?fs cipher"
    using cipher by (simp add: announces_def upload_fields_def)
  have sent: "stream_bytes (segments (message ''PUT'' ?path ?fs cipher)) = Some (message ''PUT'' ?path ?fs cipher)"
    using assms(4) by (simp add: lossless_def)
  let ?w = "(cw_peer w)\<lparr>sw_disk := set_file ?body_path (Some cipher) (sw_disk (cw_peer w))\<rparr>"
  from put_served [OF handled sent_path(1) [OF assms(14)] fields announced assms(6) sent starts_with_append cipher(3) r(2) reply]
  obtain answered' where put: "put_file_route x cd senv (spooled_request x (sg_folder_path config) (sv_body_uuid senv)
      ?path ?fs cipher) config ?w = (Inr answered', cw_peer w')" by auto
  have "trusts cd senv (sg_peers_path config) (sw_disk ?w) device secret_hex"
    using assms(18,19) by (simp add: trusts_elsewhere)
  from put_route_stores [OF put sent_path(2) [OF assms(14)] this _ dec [unfolded cx]] show ?thesis
    by (simp add: set_file_def)
qed

section \<open>Uploads that complete\<close>

text \<open>Nothing fails on the server's side.\<close>

definition calm_server :: "server_env \<Rightarrow> bool" where
  "calm_server env \<longleftrightarrow> (\<forall>k. sv_io env k = no_faults) \<and> (\<forall>k. sv_open_db env k = None)
     \<and> (\<forall>k. sv_send_fault env k = None) \<and> no_io_faults (sv_crypto_io env)"

text \<open>The target is free, the folder's limit leaves room, and the entry can be indexed.\<close>

definition room_for ::
  "'x agent_externals_scheme \<Rightarrow> server_codecs \<Rightarrow> server_env \<Rightarrow> peer_server_config \<Rightarrow> relative_path \<Rightarrow> u64
     \<Rightarrow> string \<Rightarrow> server_world \<Rightarrow> bool" where
  "room_for x cd env config p size_bytes hash w \<longleftrightarrow>
     (let folder = sg_folder_path config; target = path_push folder (path_str p) in
      sv_other_exists env target = Inr False \<and> dk_files (sw_disk w) target = None
      \<and> (\<exists>document status. folder_store_read no_faults (sx_folder cd) \<lparr>st_root = folder\<rparr> (sw_disk w) = Inr document
          \<and> folder_status x (sw_db w) = Inr status
          \<and> size_bytes \<le> remaining_bytes (fc_size_limit (fd_folder document)) (fs_indexed_bytes status))
      \<and> is_ok (file_row_of_entry x (sv_unixepoch env) (uploaded_entry env (sg_profile config) p size_bytes hash)))"

text \<open>The names of the request's temporaries and of the server's documents do not collide.\<close>

definition spool_path :: "server_env \<Rightarrow> string \<Rightarrow> string" where
  "spool_path env folder = path_push (requests_dir folder) (sv_body_uuid env @ ''.body'')"

definition names_apart :: "server_env \<Rightarrow> peer_server_config \<Rightarrow> relative_path \<Rightarrow> bool" where
  "names_apart env config p \<longleftrightarrow>
     distinct [spool_path env (sg_folder_path config), plaintext_path env (sg_folder_path config),
       folder_json_path \<lparr>st_root = sg_folder_path config\<rparr>, path_push (sg_folder_path config) (path_str p)]
     \<and> sg_peers_path config \<noteq> spool_path env (sg_folder_path config)"

lemma folder_read_elsewhere:
  assumes "q \<noteq> folder_json_path st"
  shows "folder_store_read f j st (set_file q c d) = folder_store_read f j st d"
proof -
  have "dk_files (set_file q c d) (folder_json_path st) = dk_files d (folder_json_path st)"
    using assms by (simp add: set_file_def)
  then show ?thesis by (simp only: folder_store_read_def fs_read_def Let_def)
qed

lemma room_for_elsewhere:
  assumes "names_apart env config p"
  shows "room_for x cd env config p size_bytes hash (w\<lparr>sw_disk := set_file (spool_path env (sg_folder_path config)) c (sw_disk w)\<rparr>)
    = room_for x cd env config p size_bytes hash w"
  using assms by (auto simp: room_for_def names_apart_def folder_read_elsewhere Let_def)

lemma prepare_completes:
  assumes "calm_server env" and "room_for x cd env config p size_bytes hash w" and "names_apart env config p"
    and "dk_files (sw_disk w) (fb_path body) = Some cipher" and "fb_size_bytes body = encrypted_len size_bytes"
    and "decrypt_file_to_path x (sv_crypto_io env) cipher secret_hex nonce_hex
      \<lparr>cx_direction = ''upload'', cx_path = p, cx_content_hash = hash, cx_plaintext_size = size_bytes\<rparr>
      = Inr (f, content)"
    and "cf_content_hash f = hash"
  shows "prepare_upload x cd env (sg_folder_path config) p size_bytes hash secret_hex nonce_hex body w
    = (Inr hash, w\<lparr>sw_disk := set_file (plaintext_path env (sg_folder_path config)) (Some content) (sw_disk w)\<rparr>)"
proof -
  let ?folder = "sg_folder_path config" and ?plain = "plaintext_path env (sg_folder_path config)"
  let ?d = "set_file ?plain (Some content) (sw_disk w)"
  have io: "sv_io env 0 = no_faults" "sv_open_db env 0 = None" using assms(1) by (simp_all add: calm_server_def)
  have decrypted: "decrypt_path x (sv_crypto_io env) (sv_partial env) (fb_path body) ?plain secret_hex nonce_hex
      \<lparr>cx_direction = ''upload'', cx_path = p, cx_content_hash = hash, cx_plaintext_size = size_bytes\<rparr> (sw_disk w)
      = (Inr f, ?d)"
    using assms(4,6) by (simp add: decrypt_path_def cipher_source_def cipher_into_def)
  from assms(2,3) obtain document status where
    "folder_store_read no_faults (sx_folder cd) \<lparr>st_root = ?folder\<rparr> ?d = Inr document"
    "folder_status x (sw_db w) = Inr status"
    "size_bytes \<le> remaining_bytes (fc_size_limit (fd_folder document)) (fs_indexed_bytes status)"
    by (auto simp: room_for_def names_apart_def folder_read_elsewhere Let_def)
  then have limit: "enforce_folder_limit x cd env ?folder size_bytes (w\<lparr>sw_disk := ?d\<rparr>) = (Inr (), w\<lparr>sw_disk := ?d\<rparr>)"
    by (simp add: enforce_folder_limit_def read_folder_def io bind_op_def open_database_def on_db_def Let_def not_less)
  have free: "try_exists (sv_other_exists env) (path_push ?folder (path_str p)) ?d = Inr False"
    using assms(2,3) by (auto simp: room_for_def names_apart_def try_exists_def Let_def set_file_def)
  show ?thesis
    using assms(5,7)
    by (simp add: prepare_upload_def Let_def bind_op_def on_disk_def map_op_err_def fs_create_dir_all_def io
        no_faults_def decrypted limit free)
qed

lemma finish_completes:
  assumes "calm_server env" and "room_for x cd env config p size_bytes hash w" and "names_apart env config p"
  shows "\<exists>w'. finish_upload x cd env (sg_folder_path config) (sg_profile config) p size_bytes hash hash
      (w\<lparr>sw_disk := set_file (plaintext_path env (sg_folder_path config)) (Some content) (sw_disk w)\<rparr>)
    = (Inr (UploadFileReply True p size_bytes hash), w')"
proof -
  let ?folder = "sg_folder_path config" and ?plain = "plaintext_path env (sg_folder_path config)"
  let ?target = "path_push ?folder (path_str p)"
  let ?d = "set_file ?target (Some content) (set_file ?plain None (set_file ?plain (Some content) (sw_disk w)))"
  have io: "sv_io env 0 = no_faults" "sv_io env 1 = no_faults" "sv_open_db env 1 = None"
    using assms(1) by (simp_all add: calm_server_def)
  have published: "publish_uploaded_file no_faults ?folder p ?plain (set_file ?plain (Some content) (sw_disk w)) = (Inr (), ?d)"
    by (auto simp: publish_uploaded_file_def Let_def bind_op_def map_op_err_def fs_create_dir_all_def
        fs_rename_def no_faults_def set_file_def split: option.split)
  from assms(2,3) obtain document row where
    "folder_store_read no_faults (sx_folder cd) \<lparr>st_root = ?folder\<rparr> ?d = Inr document"
    and "file_row_of_entry x (sv_unixepoch env) (uploaded_entry env (sg_profile config) p size_bytes hash) = Inr row"
    by (auto simp: room_for_def names_apart_def folder_read_elsewhere Let_def is_ok_iff)
  then show ?thesis
    using published
    by (simp add: finish_upload_def bind_op_def on_disk_def read_folder_def open_database_def on_db_def
        upsert_file_def io [unfolded One_nat_def])
qed

lemma put_route_completes:
  assumes "calm_server env" and "room_for x cd env config p size_bytes hash w" and "names_apart env config p"
    and "wire_laws x" and "i64_range t" and "requested_path path = Inr p"
    and "sign_request_with_body_hash_hex x ''PUT'' path device t (hex_encode x (sha256 x cipher)) secret_hex
      = Inr signature"
    and "trusts cd env (sg_peers_path config) (sw_disk w) device secret_hex"
    and "\<bar>unix_timestamp x (sv_now env) - t\<bar> \<le> 300"
    and "dk_files (sw_disk w) (spool_path env (sg_folder_path config)) = Some cipher"
    and "of_nat (length cipher) = encrypted_len size_bytes"
    and "decrypt_file_to_path x (sv_crypto_io env) cipher secret_hex (cf_nonce_hex f)
      \<lparr>cx_direction = ''upload'', cx_path = p, cx_content_hash = hash, cx_plaintext_size = size_bytes\<rparr>
      = Inr (f', content)" and "cf_content_hash f' = hash"
    and "sx_reply cd (UploadFileReply True p size_bytes hash) = Inr reply_bytes"
  shows "\<exists>w'. put_file_route x cd env (spooled_request x (sg_folder_path config) (sv_body_uuid env) path
      (upload_fields address device t signature f hash size_bytes) cipher) config w
    = (Inr (BytesResponse (binary_response 200 ''application/json'' reply_bytes)), w')"
proof -
  let ?body = "spooled x (sg_folder_path config) (sv_body_uuid env) cipher"
  let ?request = "spooled_request x (sg_folder_path config) (sv_body_uuid env) path
      (upload_fields address device t signature f hash size_bytes) cipher"
  have header: "required_u64_header ?request ''x-syncer-file-size'' = Inr size_bytes"
    "required_header ?request ''x-syncer-content-hash'' = Inr hash"
    "required_header ?request ''x-syncer-encryption'' = Inr encryption_algorithm"
    "required_header ?request ''x-syncer-nonce'' = Inr (cf_nonce_hex f)"
    and path: "hr_path ?request = path" and body: "hr_body ?request = SpooledBody ?body"
    using unat_u64_lt [of size_bytes]
    by (simp_all add: spooled_request_def upload_fields_def required_u64_header_def required_header_def parse_u64_show)
  have "authentic_request x cd env ?request (sg_peers_path config) (sw_disk w) secret_hex"
    by (rule authentic_if_signed [OF assms(4,5)])
      (use assms(7,8,9) in \<open>simp_all add: spooled_request_def upload_fields_def\<close>)
  then have verified: "verified x cd env ?request config w = (Inr secret_hex, w)"
    by (simp add: verified_def verify_peer_request_iff)
  have stored: "dk_files (sw_disk w) (fb_path ?body) = Some cipher" and size: "fb_size_bytes ?body = encrypted_len size_bytes"
    using assms(10,11) by (simp_all add: spooled_def spool_path_def)
  obtain w' where "write_uploaded_file x cd env (sg_folder_path config) (sg_profile config) p size_bytes hash
      secret_hex (cf_nonce_hex f) ?body w = (Inr (UploadFileReply True p size_bytes hash), w')"
    using prepare_completes [OF assms(1,2,3) stored size assms(12,13)] finish_completes [OF assms(1,2,3), of content]
    by (auto simp: write_uploaded_file_def bind_op_def)
  then show ?thesis
    by (simp add: put_file_route_def path body bind_op_def verified assms(6,14) header json_response_def)
qed

lemma handle_put_completes:
  assumes "put_file_route x cd env (spooled_request x (sg_folder_path config) (sv_body_uuid env) path fs cipher) config
      (w\<lparr>sw_disk := set_file (spool_path env (sg_folder_path config)) (Some cipher) (sw_disk w)\<rparr>)
      = (Inr (BytesResponse bytes), w1)"
    and "wire_path path" and "starts_with ''/file/'' path" and "fields_ok fs" and "announces fs cipher" and "cipher \<noteq> []"
    and "stream_bytes s = Some (message ''PUT'' path fs cipher)" and "no_spool_faults io"
    and "length (head_text ''PUT'' path fs) + 4100 \<le> max_header_bytes" and "sv_send_fault env 0 = None"
  shows "\<exists>w'. handle_stream x cd io env config s w = (Inr (), bytes, w')"
proof -
  have put: "visible ''PUT''" by code_simp
  have "outcome (read_request x io (sg_folder_path config) (sv_body_uuid env) (s, sw_disk w))
      = (Inr (spooled_request x (sg_folder_path config) (sv_body_uuid env) path fs cipher),
         set_file (spool_path env (sg_folder_path config)) (Some cipher) (sw_disk w))"
    unfolding spool_path_def
    by (rule trans [OF read_request_whole [OF assms(7) message_framed(1) [OF put assms(2,4)] assms(9)
          message_length [OF put assms(2,4,5)] assms(8)] parse_spooled [OF assms(2,4,5,8,3,6)]])
  then obtain rest where "read_request x io (sg_folder_path config) (sv_body_uuid env) (s, sw_disk w)
      = (Inr (spooled_request x (sg_folder_path config) (sv_body_uuid env) path fs cipher), rest,
         set_file (spool_path env (sg_folder_path config)) (Some cipher) (sw_disk w))"
    by (cases "read_request x io (sg_folder_path config) (sv_body_uuid env) (s, sw_disk w)") (auto simp: outcome_def)
  moreover have "route_request x cd env (spooled_request x (sg_folder_path config) (sv_body_uuid env) path fs cipher) config
      = put_file_route x cd env (spooled_request x (sg_folder_path config) (sv_body_uuid env) path fs cipher) config"
    using assms(3) by (simp add: route_request_def spooled_request_def Let_def fun_eq_iff)
  ultimately show ?thesis using assms(1,10) by (simp add: handle_stream_def send_def)
qed

lemma decoded_answer:
  assumes "printable reason" and "\<forall>l \<in> set ls. printable l"
  shows "parse_json_response decode (answer 200 reason ls body) = map_err ClientJson (decode body)"
proof -
  let ?lines = "status_line 200 reason # ls"
  have lines: "\<forall>l \<in> set ?lines. printable l" using assms by (simp add: printable_status_line)
  have "find_header_end (answer 200 reason ls body) = Some (length (crlf_lines ?lines))"
    using find_header_end_lines [OF _ lines, of body] by (simp add: answer_def)
  moreover have "take (length (crlf_lines ?lines)) (answer 200 reason ls body) = crlf_lines ?lines"
    "drop (length (crlf_lines ?lines) + 4) (answer 200 reason ls body) = body"
    by (simp_all add: answer_def crlf_def)
  moreover have "response_status (crlf_lines ?lines) = Inr 200"
    using str_lines_crlf [OF _ lines] parse_u16_show [of 200]
    by (simp add: response_status_def first_piece_def status_line_words [OF assms(1)])
  ultimately show ?thesis
    using from_utf8_lines [OF lines] by (simp add: parse_json_response_def)
qed

lemma decoded_binary_response:
  "parse_json_response decode (binary_response 200 ''application/json'' body) = map_err ClientJson (decode body)"
proof -
  have "printable ''content-length: ''" "printable ''content-type: application/json''"
    "printable ''connection: close''" by code_simp+
  then have "\<forall>l \<in> set [''content-type: application/json'', ''content-length: '' @ show_nat (unat (len_u64 body)),
      ''connection: close'']. printable l"
    using printable_append [OF _ visible_printable [OF visible_show_nat], of "''content-length: ''"] by simp
  from decoded_answer [OF printable_reason this] show ?thesis by (simp only: binary_response_answer)
qed

text \<open>The client's side: nothing fails locally and the answer is short.\<close>

definition calm_client :: "'p client_env \<Rightarrow> bool" where
  "calm_client env \<longleftrightarrow> reads_in_full env \<and> (\<forall>address. cl_connect_fault env address = None)
     \<and> (\<forall>k. cl_send_fault env k = None) \<and> cl_hash_fault env = None"

lemma send_parts_calm:
  "(\<And>k. cl_send_fault env k = None) \<Longrightarrow> send_parts env k (map Inr bs) sent = (Inr (), sent @ concat bs)"
  by (induction bs arbitrary: k sent) auto

lemma remove_quietly_ok: "\<exists>d'. remove_quietly f path d = (Inr (), d')"
  by (simp add: remove_quietly_def)

lemma put_file_completes:
  assumes "calm_client env" and "dk_files (cw_disk w) file_path = Some content"
    and "encrypt_file_to_path x (cl_crypto_io env) (map Inr (file_pieces content)) (cl_nonce env) secret_hex
      \<lparr>cx_direction = ''upload'', cx_path = p, cx_content_hash = hash, cx_plaintext_size = size_bytes\<rparr>
      = Inr (f, cipher)" and "cf_content_hash f = hash"
    and "sign_request_with_body_hash_hex x ''PUT'' (''/file/'' @ encode_relative_path p) device
      (unix_timestamp x (cl_now env)) (hex_encode x (sha256 x cipher)) secret_hex = Inr signature"
    and "peer_address_parse endpoint = Inr address"
    and "cl_answer env address (cw_peer w) (message ''PUT'' (''/file/'' @ encode_relative_path p)
        (upload_fields address device (unix_timestamp x (cl_now env)) signature f hash size_bytes) cipher) = (s, peer')"
    and "stream_bytes s = Some reply" and "length reply \<le> response_limit_bytes"
    and "parse_json_response (ck_upload ck) reply = Inr response"
  shows "\<exists>w'. put_file_from_path x ck env endpoint device secret_hex p hash file_path size_bytes w = (Inr response, w')"
proof -
  let ?path = "''/file/'' @ encode_relative_path p" and ?t = "unix_timestamp x (cl_now env)"
  let ?target = "encrypted_upload_path (cl_uuid env) file_path"
  let ?w = "w\<lparr>cw_disk := set_file ?target (Some cipher) (cw_disk w)\<rparr>"
  let ?header = "upload_header address ?path device ?t signature f hash size_bytes"
  have calm: "cl_reads env = (\<lambda>bytes. map Inr (file_pieces bytes))" "cl_connect_fault env address = None"
    "\<And>k. cl_send_fault env k = None" "cl_hash_fault env = None"
    using assms(1) by (simp_all add: calm_client_def reads_in_full_def)
  have encrypted: "encrypt_path x (cl_crypto_io env) (cl_partial env) (cl_reads env) (cl_nonce env) file_path
      ?target secret_hex \<lparr>cx_direction = ''upload'', cx_path = p, cx_content_hash = hash,
        cx_plaintext_size = size_bytes\<rparr> (cw_disk w) = (Inr f, set_file ?target (Some cipher) (cw_disk w))"
    using assms(2,3) calm(1) by (simp add: encrypt_path_def cipher_source_def cipher_into_def)
  have "upload_parts env ?header ?target (cw_disk ?w) = map Inr (?header # file_pieces cipher)"
    by (simp add: upload_parts_def set_file_def calm(1))
  moreover have "concat (?header # file_pieces cipher) = message ''PUT'' ?path
      (upload_fields address device ?t signature f hash size_bytes) cipher"
    by (simp add: concat_file_pieces upload_header_message [symmetric])
  ultimately have exchanged: "exchange env address (upload_parts env ?header ?target (cw_disk ?w)) ?w
      = (Inr s, ?w\<lparr>cw_peer := peer'\<rparr>)"
    using send_parts_calm [OF calm(3), of 0 "?header # file_pieces cipher" "[]"] assms(7) calm(2)
    by (simp add: exchange_def del: list.map concat.simps)
  have hashed: "file_sha256_hex x (cl_hash_fault env) ?target (cw_disk ?w) = Inr (hex_encode x (sha256 x cipher))"
    by (simp add: file_sha256_hex_def calm(4) set_file_def)
  obtain d' where removed: "remove_quietly (cl_remove_fault env) ?target (cw_disk ?w) = (Inr (), d')"
    using remove_quietly_ok by blast
  have "fst (read_to_end response_limit_bytes [] s) = Inr reply"
    using read_to_end_delivers [OF assms(8,9), of "[]"] by simp
  with exchanged hashed removed assms(4,5,6,10) encrypted show ?thesis
    by (simp add: put_file_from_path_def Let_def bind_op_def on_local_def map_op_err_def)
qed

text \<open>How long a header of an upload can get.\<close>

lemma length_show_nat: "n < 10 ^ k \<Longrightarrow> 0 < k \<Longrightarrow> length (show_nat n) \<le> k"
proof (induction n arbitrary: k rule: show_nat.induct)
  case (1 n)
  show ?case
  proof (cases "n < 10")
    case True
    with 1(3) show ?thesis by (subst show_nat.simps) simp
  next
    case False
    with 1(2,3) have "1 < k" by (cases "k = 1") auto
    then obtain j where k: "k = Suc j" "0 < j" by (cases k) simp_all
    with 1(2) have "n div 10 < 10 ^ j" by (simp add: less_mult_imp_div_less mult.commute)
    from 1(1) [OF False this k(2)] False k(1) show ?thesis by (subst show_nat.simps) simp
  qed
qed

lemma length_show_u64: "length (show_nat (unat (n :: u64))) \<le> 20"
proof (rule length_show_nat)
  have "(2 :: nat) ^ 64 \<le> 10 ^ 20" by simp
  then show "unat n < 10 ^ 20" using unat_u64_lt [of n] by linarith
qed simp

lemma length_show_i64: "i64_range t \<Longrightarrow> length (show_int t) \<le> 21"
proof -
  assume "i64_range t"
  then have "nat t < 10 ^ 20" "nat (- t) < 10 ^ 20" by (auto simp: i64_range_def)
  from this [THEN length_show_nat] show ?thesis by (simp add: show_int_def)
qed

lemma upload_head_length:
  assumes "i64_range t" and "length signature = 64" and "length (cf_nonce_hex f) = 32"
    and "length path + length (pa_host address) + length device + length hash \<le> 11000"
  shows "length (head_text ''PUT'' path (upload_fields address device t signature f hash size_bytes)) + 4100
    \<le> max_header_bytes"
proof -
  let ?fs = "upload_fields address device t signature f hash size_bytes"
  have "length encryption_algorithm < 100" by code_simp
  moreover have "length (upload_header address path device t signature f hash size_bytes)
      = length (head_text ''PUT'' path ?fs) + 4"
    using upload_header_message [of address path device t signature f hash size_bytes "[]"]
    by (simp add: message_def crlf_def)
  ultimately show ?thesis
    using assms length_show_i64 [OF assms(1)] length_show_u64 [of "cf_size_bytes f"] length_show_u64 [of size_bytes]
    by (simp add: upload_header_def header_line_def crlf_def max_header_bytes_def)
qed

text \<open>Both sides together.\<close>

lemma upload_completes:
  assumes "wire_laws x" and "aead_laws x" and "time_laws x" and "\<And>key payload. hmac_sha256 x key payload \<noteq> None"
    and "cl_answer env = served_by x cd io senv config segments deliver"
    and "lossless segments" and "lossless deliver" and "no_spool_faults io" and "calm_server senv" and "calm_client env"
    and "hex_decode x secret_hex = Inr secret" and "length secret = 32"
    and "dk_files (cw_disk w) file_path = Some content" and "length content < 2 ^ 63"
    and "size_bytes = of_nat (length content)" and "blake3_hex x content = hash"
    and "sendable p" and "visible device" and "visible hash"
    and "peer_address_parse endpoint = Inr address" and "visible (pa_host address)"
    and "length (encode_relative_path p) + length (pa_host address) + length device + length hash \<le> 10000"
    and "trusts cd senv (sg_peers_path config) (sw_disk (cw_peer w)) device secret_hex"
    and "\<bar>unix_timestamp x (sv_now senv) - unix_timestamp x (cl_now env)\<bar> \<le> 300"
    and "names_apart senv config p" and "room_for x cd senv config p size_bytes hash (cw_peer w)"
    and "sx_reply cd (UploadFileReply True p size_bytes hash) = Inr reply_bytes"
    and "length (binary_response 200 ''application/json'' reply_bytes) \<le> response_limit_bytes"
    and "ck_upload ck reply_bytes = Inr response"
  shows "\<exists>w'. put_file_from_path x ck env endpoint device secret_hex p hash file_path size_bytes w = (Inr response, w')"
proof -
  let ?path = "''/file/'' @ encode_relative_path p" and ?t = "unix_timestamp x (cl_now env)"
  let ?reply = "binary_response 200 ''application/json'' reply_bytes"
  have full: "reads_in_full env" and calm: "no_io_faults (sv_crypto_io senv)"
    using assms(9,10) by (simp_all add: calm_client_def calm_server_def)
  obtain f f' cipher where enc: "encrypt_file_to_path x (cl_crypto_io env) (map Inr (file_pieces content))
      (cl_nonce env) secret_hex (upload_context p hash content) = Inr (f, cipher)"
    and cipher: "cf_content_hash f = blake3_hex x content" "unat (cf_size_bytes f) = length cipher"
      "cf_size_bytes f = encrypted_len (of_nat (length content))" "length cipher < 2 ^ 64" "cipher \<noteq> []"
    and nonce: "visible (cf_nonce_hex f)"
    and dec: "decrypt_file_to_path x (sv_crypto_io senv) cipher secret_hex (cf_nonce_hex f)
      (upload_context p hash content) = Inr (f', content)"
    using encrypted_upload [OF assms(1,2) full calm assms(11,12,14)] by metis
  have cx: "upload_context p hash content = \<lparr>cx_direction = ''upload'', cx_path = p, cx_content_hash = hash,
      cx_plaintext_size = size_bytes\<rparr>" by (simp add: upload_context_def assms(15))
  from assms(4) obtain mac where mac: "hmac_sha256 x secret (canonical_payload_with_body_hash_hex ''PUT'' ?path device ?t
      (hex_encode x (sha256 x cipher))) = Some mac" by blast
  let ?signature = "hex_encode x mac"
  let ?fs = "upload_fields address device ?t ?signature f hash size_bytes"
  have signed: "sign_request_with_body_hash_hex x ''PUT'' ?path device ?t (hex_encode x (sha256 x cipher)) secret_hex
      = Inr ?signature" using mac assms(11) by (simp add: sign_request_with_body_hash_hex_def)
  have lengths: "length ?signature = 64" "length (cf_nonce_hex f) = 32"
    using mac assms(1) full enc
    by (auto simp: wire_laws_def encrypt_file_to_path_def and_then_Inr_iff reads_in_full_def split: if_splits)
  have range: "i64_range ?t" using assms(3) by (simp add: time_laws_def)
  have fields: "fields_ok ?fs" by (intro upload_fields_ok assms(18,19,21) visible_mac [OF assms(1) mac] nonce)
  have announced: "announces ?fs cipher" using cipher by (simp add: announces_def upload_fields_def)
  let ?message = "message ''PUT'' ?path ?fs cipher"
  let ?w = "(cw_peer w)\<lparr>sw_disk := set_file (spool_path senv (sg_folder_path config)) (Some cipher) (sw_disk (cw_peer w))\<rparr>"
  have trusted: "trusts cd senv (sg_peers_path config) (sw_disk ?w) device secret_hex"
    using assms(23,25) by (simp add: names_apart_def trusts_elsewhere)
  have room: "room_for x cd senv config p size_bytes hash ?w" using assms(25,26) by (simp add: room_for_elsewhere)
  have stored: "dk_files (sw_disk ?w) (spool_path senv (sg_folder_path config)) = Some cipher" by (simp add: set_file_def)
  have size: "of_nat (length cipher) = encrypted_len size_bytes" using cipher(2,3) assms(15) by (metis of_nat_unat_u64)
  have hash: "cf_content_hash f' = hash" using decrypted_file_lengths [OF assms(2) dec] assms(16) by simp
  from put_route_completes [OF assms(9) room assms(25,1) range sent_path(2) [OF assms(17)] signed trusted assms(24)
      stored size dec [unfolded cx] hash assms(27), of address]
  obtain w1 where "put_file_route x cd senv (spooled_request x (sg_folder_path config) (sv_body_uuid senv) ?path ?fs cipher)
      config ?w = (Inr (BytesResponse ?reply), w1)" by blast
  moreover have "stream_bytes (segments ?message) = Some ?message" using assms(6) by (simp add: lossless_def)
  moreover have "length (head_text ''PUT'' ?path ?fs) + 4100 \<le> max_header_bytes"
    by (rule upload_head_length [OF range lengths]) (use assms(22) in simp)
  moreover have "sv_send_fault senv 0 = None" using assms(9) by (simp add: calm_server_def)
  ultimately obtain w2 where "handle_stream x cd io senv config (segments ?message) (cw_peer w) = (Inr (), ?reply, w2)"
    using handle_put_completes [OF _ sent_path(1) [OF assms(17)] starts_with_append fields announced cipher(5) _ assms(8)]
    by blast
  then have answered: "cl_answer env address (cw_peer w) ?message = (deliver ?reply, w2)"
    by (simp add: assms(5) served_by_def)
  have "stream_bytes (deliver ?reply) = Some ?reply" using assms(7) by (simp add: lossless_def)
  from put_file_completes [OF assms(10,13) enc [unfolded cx] _ signed assms(20) answered this assms(28)]
  show ?thesis using cipher(1) assms(16,29) by (simp add: decoded_binary_response)
qed

text \<open>
  C4: An upload between two calm sides completes. The server trusts the client under the same
  secret, the clocks are at most five minutes apart, the connection is lossless, the target
  is free and fits the limit, the name is short enough for a header, and nothing fails: then
  the call of the client succeeds and returns the server's confirmation.
\<close>

theorem uploads_complete:
  assumes "wire_laws x" and "aead_laws x" and "time_laws x" and "\<And>key payload. hmac_sha256 x key payload \<noteq> None"
    and "cl_answer env = served_by x cd io senv config segments deliver"
    and "lossless segments" and "lossless deliver" and "no_spool_faults io" and "calm_server senv" and "calm_client env"
    and "hex_decode x secret_hex = Inr secret" and "length secret = 32"
    and "dk_files (cw_disk w) file_path = Some content" and "length content < 2 ^ 63"
    and "size_bytes = of_nat (length content)" and "blake3_hex x content = hash"
    and "sendable p" and "visible device" and "visible hash"
    and "peer_address_parse endpoint = Inr address" and "visible (pa_host address)"
    and "length (encode_relative_path p) + length (pa_host address) + length device + length hash \<le> 10000"
    and "trusts cd senv (sg_peers_path config) (sw_disk (cw_peer w)) device secret_hex"
    and "\<bar>unix_timestamp x (sv_now senv) - unix_timestamp x (cl_now env)\<bar> \<le> 300"
    and "names_apart senv config p" and "room_for x cd senv config p size_bytes hash (cw_peer w)"
    and "sx_reply cd (UploadFileReply True p size_bytes hash) = Inr reply_bytes"
    and "length (binary_response 200 ''application/json'' reply_bytes) \<le> response_limit_bytes"
    and "ck_upload ck reply_bytes = Inr response"
  shows "\<exists>w'. put_file_from_path x ck env endpoint device secret_hex p hash file_path size_bytes w = (Inr response, w')"
  by (rule upload_completes [OF assms])

section \<open>An upload that takes place\<close>

definition sample_secret :: string where
  "sample_secret = letters_of (replicate 32 CHR ''k'')"

definition sample_link_codecs :: server_codecs where
  "sample_link_codecs = sample_server_codecs\<lparr>sx_peers := \<lparr>to_vec_pretty = (\<lambda>_. Inl ''read only''),
     from_slice = (\<lambda>_. Inr \<lparr>ps_schema_version = 1, ps_peers =
       [\<lparr>tp_device_id = DeviceId ''b'', tp_device_name = ''phone'', tp_endpoint = ''host:1'',
         tp_identity_public_hex = ''p'', tp_shared_secret_hex = sample_secret, tp_trusted_at = 1\<rparr>]\<rparr>)\<rparr>\<rparr>"

definition whole :: "string \<Rightarrow> tcp_stream" where
  "whole bytes = (if bytes = [] then [] else [Segment bytes])"

definition sample_link_io :: spool_io where
  "sample_link_io = \<lparr>sp_create_dir = None, sp_create = None, sp_write = \<lambda>_. None, sp_sync = None\<rparr>"

definition sample_link_env :: "server_world client_env" where
  "sample_link_env = \<lparr>cl_now = 150, cl_connect_fault = \<lambda>_. None, cl_send_fault = \<lambda>_. None,
     cl_answer = served_by sample_wire_externals sample_link_codecs sample_link_io (sample_env ''3'') sample_config
       whole whole, cl_crypto_io = sample_io, cl_partial = None,
     cl_reads = (\<lambda>bytes. map Inr (file_pieces bytes)), cl_nonce = replicate 16 CHR ''n'',
     cl_hash_fault = None, cl_store_io = sample_link_io, cl_remove_fault = \<lambda>_. None, cl_uuid = ''u''\<rparr>"

definition sample_link_world :: "server_world client_world" where
  "sample_link_world = \<lparr>cw_disk = \<lparr>dk_files = [''/c/b'' \<mapsto> ''hello'']\<rparr>, cw_peer = sample_world\<rparr>"

definition sample_confirmation :: upload_file_response where
  "sample_confirmation = \<lparr>ur_accepted = True, ur_path = RelativePath ''b'', ur_size_bytes = 5,
     ur_content_hash = ''hello''\<rparr>"

definition sample_client_codecs :: client_codecs where
  "sample_client_codecs = \<lparr>ck_presence = (\<lambda>_. Inr []), ck_presence_response = (\<lambda>_. Inl ''unsupported''),
     ck_manifest = (\<lambda>_. Inl ''unsupported''), ck_upload = (\<lambda>_. Inr sample_confirmation),
     ck_delete = (\<lambda>_. Inl ''unsupported'')\<rparr>"

lemma sample_link:
  "lossless whole" "no_spool_faults sample_link_io" "calm_server (sample_env ''3'')"
  "no_io_faults (sv_crypto_io (sample_env ''3''))" "reads_in_full sample_link_env" "calm_client sample_link_env"
  "cl_answer sample_link_env = served_by sample_wire_externals sample_link_codecs sample_link_io (sample_env ''3'')
     sample_config whole whole"
  "dk_files (cw_disk sample_link_world) ''/c/b'' = Some ''hello''"
  by (simp_all add: lossless_def whole_def no_spool_faults_def sample_link_io_def calm_server_def sample_env_def
      calm_client_def reads_in_full_def sample_link_env_def sample_link_world_def no_io_faults_def sample_io_def)

lemma sample_wire_aead: "aead_laws sample_wire_externals"
  by (auto simp: aead_laws_def sample_wire_externals_def sample_agent_externals_def)

lemma sample_link_secret: "hex_decode sample_wire_externals sample_secret = Inr (replicate 32 CHR ''k'')"
  by (simp add: sample_secret_def sample_wire_externals_def bytes_of_letters)

lemma sample_link_trusts:
  "trusts sample_link_codecs (sample_env ''3'') (sg_peers_path sample_config)
     (sw_disk (cw_peer sample_link_world)) ''b'' sample_secret"
proof -
  have "dk_files (sw_disk sample_world) ''/p.json'' = Some ''p''" by code_simp
  then have "peer_store_read_or_default (sv_io (sample_env ''3'') 0) (sx_peers sample_link_codecs)
      (sg_peers_path sample_config) (sw_disk (cw_peer sample_link_world)) = Inr \<lparr>ps_schema_version = 1, ps_peers =
       [\<lparr>tp_device_id = DeviceId ''b'', tp_device_name = ''phone'', tp_endpoint = ''host:1'',
         tp_identity_public_hex = ''p'', tp_shared_secret_hex = sample_secret, tp_trusted_at = 1\<rparr>]\<rparr>"
    by (simp add: peer_store_read_or_default_def fs_read_def ok_or_def sample_env_def no_faults_def sample_config_def
        sample_link_world_def sample_link_codecs_def)
  then show ?thesis
    by (simp add: trusts_def sample_link_codecs_def sample_server_codecs_def trusted_peer_def find_row_def)
qed

lemma sample_link_room:
  "names_apart (sample_env ''3'') sample_config (RelativePath ''b'')"
  "room_for sample_wire_externals sample_link_codecs (sample_env ''3'') sample_config (RelativePath ''b'') 5 ''hello''
     (cw_peer sample_link_world)"
proof -
  show "names_apart (sample_env ''3'') sample_config (RelativePath ''b'')" by code_simp
  have "case folder_store_read no_faults sample_codec \<lparr>st_root = ''/d''\<rparr> (sw_disk sample_world) of
      Inr document \<Rightarrow> 5 \<le> remaining_bytes (fc_size_limit (fd_folder document)) 0 | _ \<Rightarrow> False" by code_simp
  then obtain document where document:
    "folder_store_read no_faults sample_codec \<lparr>st_root = ''/d''\<rparr> (sw_disk sample_world) = Inr document"
    "5 \<le> remaining_bytes (fc_size_limit (fd_folder document)) 0" by (auto split: sum.splits)
  have "is_ok (file_row_of_entry sample_agent_externals 101
      (uploaded_entry (sample_env ''3'') (sg_profile sample_config) (RelativePath ''b'') 5 ''hello''))" by code_simp
  then have row: "is_ok (file_row_of_entry sample_wire_externals 101
      (uploaded_entry (sample_env ''3'') (sg_profile sample_config) (RelativePath ''b'') 5 ''hello''))"
    by (simp add: file_row_of_entry_def sample_wire_externals_def)
  have free: "path_push ''/d'' ''b'' = ''/d/b''" "dk_files (sw_disk sample_world) ''/d/b'' = None" by code_simp+
  have server: "sx_folder sample_link_codecs = sample_codec" "sv_other_exists (sample_env ''3'') = (\<lambda>_. Inr False)"
    "sv_unixepoch (sample_env ''3'') = 101" "sg_folder_path sample_config = ''/d''"
    "cw_peer sample_link_world = sample_world" "sw_db sample_world = empty_database"
    by (simp_all add: sample_link_codecs_def sample_server_codecs_def sample_env_def sample_config_def
        sample_link_world_def sample_world_def)
  have "\<exists>s. folder_status sample_wire_externals empty_database = Inr s \<and> fs_indexed_bytes s = 0"
    by (simp add: folder_status_def list_files_def list_skipped_files_def empty_database_def)
  with document row free show "room_for sample_wire_externals sample_link_codecs (sample_env ''3'') sample_config
      (RelativePath ''b'') 5 ''hello'' (cw_peer sample_link_world)"
    by (auto simp: room_for_def Let_def server)
qed

lemma sample_link_names:
  "sendable (RelativePath ''b'')" "visible ''b''" "visible ''hello''"
  "(case peer_address_parse ''http://10.0.0.2:80'' of Inl _ \<Rightarrow> False
    | Inr a \<Rightarrow> visible (pa_host a) \<and> length (pa_host a) < 20)"
  "length (encode_relative_path (RelativePath ''b'')) < 20"
  by code_simp+

lemma sample_link_clocks:
  "\<bar>unix_timestamp sample_wire_externals (sv_now (sample_env ''3''))
     - unix_timestamp sample_wire_externals (cl_now sample_link_env)\<bar> \<le> 300"
  by (simp add: sample_wire_externals_def sample_agent_externals_def sample_env_def sample_link_env_def i64_range_def)

definition sample_link_upload :: "(peer_client_error + upload_file_response) \<times> server_world client_world" where
  "sample_link_upload = put_file_from_path sample_wire_externals sample_client_codecs sample_link_env
     ''http://10.0.0.2:80'' ''b'' sample_secret (RelativePath ''b'') ''hello'' ''/c/b'' 5 sample_link_world"

lemma sample_link_address:
  obtains address where "peer_address_parse ''http://10.0.0.2:80'' = Inr address" "visible (pa_host address)"
    "length (pa_host address) < 20"
  using sample_link_names(4) by (auto split: sum.splits)

lemma sample_link_reply:
  "sx_reply sample_link_codecs (UploadFileReply True (RelativePath ''b'') 5 ''hello'') = Inr ''{}''"
  "length (binary_response 200 ''application/json'' ''{}'') \<le> response_limit_bytes"
  "ck_upload sample_client_codecs ''{}'' = Inr sample_confirmation"
proof -
  have "length (binary_response 200 ''application/json'' ''{}'') < 1000" by code_simp
  then show "length (binary_response 200 ''application/json'' ''{}'') \<le> response_limit_bytes"
    by (simp add: response_limit_bytes_def)
qed (simp_all add: sample_link_codecs_def sample_server_codecs_def sample_client_codecs_def)

lemma sample_link_sizes:
  "(5 :: u64) = of_nat (length ''hello'')" "length ''hello'' < (2 :: nat) ^ 63" "length (replicate 32 CHR ''k'') = 32"
  "blake3_hex sample_wire_externals ''hello'' = ''hello''"
  "hmac_sha256 sample_wire_externals key payload \<noteq> None"
  by (simp_all add: sample_wire_externals_def sample_agent_externals_def)

lemma sample_link_completes: "\<exists>w'. sample_link_upload = (Inr sample_confirmation, w')"
proof (rule sample_link_address)
  fix address
  assume a: "peer_address_parse ''http://10.0.0.2:80'' = Inr address" "visible (pa_host address)"
    "length (pa_host address) < 20"
  have short: "length (encode_relative_path (RelativePath ''b'')) + length (pa_host address) + length ''b''
      + length ''hello'' \<le> 10000" using a(3) sample_link_names(5) by simp
  show ?thesis
    unfolding sample_link_upload_def
    by (rule upload_completes [OF sample_wire_laws sample_wire_aead sample_wire_time sample_link_sizes(5)
          sample_link(7,1,1,2,3,6) sample_link_secret sample_link_sizes(3) sample_link(8) sample_link_sizes(2,1,4)
          sample_link_names(1,2,3) a(1,2) short sample_link_trusts sample_link_clocks sample_link_room
          sample_link_reply])
qed

theorem uploads_complete_witness:
  "\<exists>w'. sample_link_upload = (Inr sample_confirmation, w')"
proof (rule sample_link_address)
  fix address
  assume a: "peer_address_parse ''http://10.0.0.2:80'' = Inr address" "visible (pa_host address)"
    "length (pa_host address) < 20"
  have short: "length (encode_relative_path (RelativePath ''b'')) + length (pa_host address) + length ''b''
      + length ''hello'' \<le> 10000" using a(3) sample_link_names(5) by simp
  show ?thesis
    unfolding sample_link_upload_def
    by (rule uploads_complete [OF sample_wire_laws sample_wire_aead sample_wire_time sample_link_sizes(5)
          sample_link(7,1,1,2,3,6) sample_link_secret sample_link_sizes(3) sample_link(8) sample_link_sizes(2,1,4)
          sample_link_names(1,2,3) a(1,2) short sample_link_trusts sample_link_clocks sample_link_room
          sample_link_reply])
qed

theorem uploads_arrive_witness:
  "dk_files (sw_disk (cw_peer (snd sample_link_upload))) ''/d/b'' = Some ''hello''"
proof -
  obtain w' where w: "sample_link_upload = (Inr sample_confirmation, w')" using sample_link_completes by blast
  have host: "visible (pa_host address)" if "peer_address_parse ''http://10.0.0.2:80'' = Inr address" for address
    using sample_link_names(4) by (simp add: that)
  have apart: "sg_peers_path sample_config
      \<noteq> path_push (requests_dir (sg_folder_path sample_config)) (sv_body_uuid (sample_env ''3'') @ ''.body'')"
    by code_simp
  have target: "path_push (sg_folder_path sample_config) (path_str (RelativePath ''b'')) = ''/d/b''" by code_simp
  have "dk_files (sw_disk (cw_peer w')) (path_push (sg_folder_path sample_config) (path_str (RelativePath ''b'')))
      = Some ''hello''"
    by (rule uploads_arrive [OF sample_wire_laws sample_wire_aead sample_link(7,1,1,2,4,5) sample_link_secret
          sample_link_sizes(3) sample_link(8) sample_link_sizes(2,1) sample_link_names(1,2,3) host sample_link_trusts
          apart w [unfolded sample_link_upload_def]])
  then show ?thesis by (simp only: w snd_conv target)
qed

end
