(* ===== verification/Peer_Downloads.thy ===== *)
theory Peer_Downloads
  imports Peer_Exchange
begin

text \<open>
  Downloads from end to end: the answer of the server to a request for a file is read by the
  client as the head and the ciphertext the server wrote, so a fetch that succeeds has stored
  the file of the server, and a fetch between two calm sides succeeds.
\<close>

section \<open>The length of a ciphertext\<close>

text \<open>What else BLAKE3 documents: a hash in hexadecimal has 64 digits.\<close>

definition digest_laws :: "'x agent_externals_scheme \<Rightarrow> bool" where
  "digest_laws x \<longleftrightarrow> (\<forall>bytes. visible (blake3_hex x bytes) \<and> length (blake3_hex x bytes) = 64)"

lemma unat_chunk_count_le: "unat (chunk_count w) \<le> unat w div 65536 + 1"
proof (cases "w = 0")
  case True
  then show ?thesis by (simp add: chunk_count_def)
next
  case False
  have "unat w + 65535 \<le> unat w + 65536" by simp
  then have "(unat w + 65535) div 65536 \<le> (unat w + 65536) div 65536" by (rule div_le_mono)
  with False show ?thesis by (simp add: unat_chunk_count)
qed

lemma unat_encrypted_len:
  "unat (encrypted_len w) = min (unat w + 16 * unat (chunk_count w)) (2 ^ 64 - 1)"
proof -
  have "unat (chunk_count w) * 16 < 2 ^ 64"
    using unat_chunk_count_le [of w] unat_u64_lt [of w] by simp
  then show ?thesis
    by (simp add: encrypted_len_def unat_saturating_add unat_saturating_mul unat_tag_size mult.commute)
qed

lemma chunk_count_mono: "unat v \<le> unat w \<Longrightarrow> unat (chunk_count v) \<le> unat (chunk_count w)"
proof (cases "v = 0")
  case True
  have "1 \<le> unat (chunk_count w)"
  proof (cases "w = 0")
    case False
    then have "0 < unat w" by (simp add: unat_gt_0)
    then have "1 \<le> (unat w + 65535) div 65536" by (simp add: div_greater_zero_iff Suc_le_eq)
    with False show ?thesis by (simp add: unat_chunk_count)
  qed (simp add: chunk_count_def)
  then show ?thesis using True by (simp add: chunk_count_def)
next
  case False
  assume "unat v \<le> unat w"
  moreover from this False have "w \<noteq> 0" by (auto simp: unat_eq_0)
  ultimately show ?thesis using False by (simp add: unat_chunk_count div_le_mono)
qed

lemma encrypted_len_inj:
  assumes "encrypted_len w = encrypted_len v" and "unat v < 2 ^ 63"
  shows "w = v"
proof -
  have v: "unat v + 16 * unat (chunk_count v) < 2 ^ 64 - 1"
    using unat_chunk_count_le [of v] assms(2) by simp
  have eq: "min (unat w + 16 * unat (chunk_count w)) (2 ^ 64 - 1) = unat v + 16 * unat (chunk_count v)"
    using assms(1) unat_encrypted_len [of w] unat_encrypted_len [of v] v by simp
  have "unat w = unat v"
  proof (rule ccontr)
    assume "unat w \<noteq> unat v"
    then consider "unat w < unat v" | "unat v < unat w" by linarith
    then show False
    proof cases
      case 1
      with chunk_count_mono [of w v] eq v show False by linarith
    next
      case 2
      with chunk_count_mono [of v w] eq v show False by linarith
    qed
  qed
  then show ?thesis by (simp add: word_unat_eq_iff)
qed

section \<open>Heads of answers\<close>

lemma answer_head: "answer status reason ls body = answer status reason ls [] @ body"
  by (simp add: answer_def)

lemma parsed_answer_head:
  assumes "printable reason" and "fields_ok fs" and "map_of (rev fs) ''content-length'' = Some (show_nat (unat n))"
  shows "parse_response_head (answer status reason (map field_text fs) [])
    = Inr \<lparr>rh_status = status, rh_content_length = n, rh_headers = map_of (rev fs)\<rparr>"
    and "find_header_end (answer status reason (map field_text fs) [])
    = Some (length (answer status reason (map field_text fs) []) - 4)"
proof -
  let ?lines = "status_line status reason # map field_text fs"
  have lines: "\<forall>l \<in> set ?lines. printable l"
    using printable_status_line [OF assms(1)] printable_field [OF assms(2)] by auto
  have found: "find_header_end (answer status reason (map field_text fs) []) = Some (length (crlf_lines ?lines))"
    using find_header_end_lines [OF _ lines, of "[]"] by (simp add: answer_def)
  then show "find_header_end (answer status reason (map field_text fs) [])
      = Some (length (answer status reason (map field_text fs) []) - 4)" by (simp add: answer_def crlf_def)
  have "response_status (crlf_lines ?lines) = Inr status"
    using str_lines_crlf [OF _ lines]
    by (simp add: response_status_def first_piece_def status_line_words [OF assms(1)] parse_u16_show)
  moreover have "response_headers (crlf_lines ?lines) = map_of (rev fs)"
    using str_lines_crlf [OF _ lines] fold_insert_header [OF assms(2), of "\<lambda>_. None"]
    by (simp add: response_headers_def map_add_def)
  moreover have "parse_u64 (show_nat (unat n)) = Some n"
    using parse_u64_show [of "unat n"] unat_u64_lt [of n] by (simp add: of_nat_unat_u64)
  ultimately show "parse_response_head (answer status reason (map field_text fs) [])
      = Inr \<lparr>rh_status = status, rh_content_length = n, rh_headers = map_of (rev fs)\<rparr>"
    using found from_utf8_lines [OF lines] assms(3)
    by (simp add: parse_response_head_def answer_def Let_def)
qed

text \<open>The head a client got is the beginning of what it was sent, and has its status.\<close>

lemma response_head_loop_prefix:
  assumes "response_head_loop buffer s = (Inr head, s')" and "stream_bytes s = Some bytes"
  shows "\<exists>rest. buffer @ bytes = head @ rest"
  using assms
proof (induction buffer s arbitrary: bytes rule: response_head_loop.induct)
  case (1 buffer s)
  show ?case
  proof (cases "bytes = []")
    case True
    with 1(3) have "s = []" by (simp add: stream_bytes_Nil)
    with 1(2) show ?thesis by (subst (asm) response_head_loop.simps) (simp add: client_read_end)
  next
    case False
    then obtain b s1 rest1 where r: "client_read 1 s = (Inr b, s1)" "b \<noteq> []" "bytes = b @ rest1"
      "stream_bytes s1 = Some rest1"
      using client_read_delivers [OF 1(3) False, of 1] by (metis zero_less_one)
    show ?thesis
    proof (cases "response_header_limit_bytes < length (buffer @ b)")
      case True
      with 1(2) r(1,2) show ?thesis by (subst (asm) response_head_loop.simps) simp
    next
      case fits: False
      show ?thesis
      proof (cases "ends_with (crlf @ crlf) (buffer @ b)")
        case True
        with 1(2) r fits have "head = buffer @ b" by (subst (asm) response_head_loop.simps) simp
        with r(3) show ?thesis by simp
      next
        case False
        with 1(2) r(1,2) fits have "response_head_loop (buffer @ b) s1 = (Inr head, s')"
          by (subst (asm) response_head_loop.simps) simp
        from 1(1) [OF r(1)[symmetric] refl r(2) fits False this r(4)] r(3) show ?thesis by simp
      qed
    qed
  qed
qed

lemma received_head_status:
  assumes "received_head s = Inr (h, s')" and "stream_bytes s = Some (answer status reason ls body)"
    and "printable reason" and "\<forall>l \<in> set ls. printable l"
  shows "rh_status h = status"
proof -
  let ?lines = "status_line status reason # ls"
  have lines: "\<forall>l \<in> set ?lines. printable l" using assms(3,4) by (simp add: printable_status_line)
  from assms(1) obtain head where loop: "response_head_loop [] s = (Inr head, s')"
    and parsed: "parse_response_head head = Inr h"
    by (auto simp: received_head_def read_response_head_def bind_op_def and_then_Inr_iff split: prod.splits sum.splits)
  from response_head_loop_prefix [OF loop assms(2)] obtain rest where
    head: "answer status reason ls body = head @ rest" by auto
  from parsed obtain n header where n: "find_header_end head = Some n"
    and header: "from_utf8 (take n head) = Some header" and st: "response_status header = Inr (rh_status h)"
    by (auto simp: parse_response_head_def and_then_Inr_iff Let_def)
  from find_header_end_append [OF n, of rest] head find_header_end_lines [OF _ lines, of body]
  have "n = length (crlf_lines ?lines)" by (simp add: answer_def)
  moreover have "take n (head @ rest) = take n head" using find_header_end_bound [OF n] by simp
  moreover have "take (length (crlf_lines ?lines)) (head @ rest) = crlf_lines ?lines"
    unfolding head [symmetric] answer_def by simp
  ultimately have "take n head = crlf_lines ?lines" by metis
  with header from_utf8_lines [OF lines] have "header = crlf_lines ?lines" by simp
  with str_lines_crlf [OF _ lines] have "response_status header = Inr status"
    by (simp add: response_status_def first_piece_def status_line_words [OF assms(3)] parse_u16_show)
  with st show ?thesis by simp
qed

lemma no_head: "stream_bytes s = Some [] \<Longrightarrow> \<not> is_ok (received_head s)"
  by (simp add: stream_bytes_Nil received_head_def read_response_head_def bind_op_def
      response_head_loop.simps [of "[]" "[]"] client_read_end)

lemma store_write_Inr: "store_write io k b st = (Inr (), st') \<Longrightarrow> st' = (fst st, snd st @ b)"
  by (auto simp: store_write_def split: option.splits)

lemma copy_exact_Inr:
  assumes "copy_exact io k len (s, content) = (Inr (), s', content')" and "stream_bytes s = Some rest"
  shows "\<exists>got more. rest = got @ more \<and> length got = unat len \<and> content' = content @ got"
  using assms
proof (induction io k len "(s, content)" arbitrary: s content rest rule: copy_exact.induct)
  case (1 io k len s content)
  show ?case
  proof (cases "0 < len")
    case False
    with 1(2) have "content' = content" by (simp add: copy_exact.simps [of io k len])
    moreover have "len = 0" using False by (simp add: word_neq_0_conv [symmetric])
    ultimately show ?thesis by simp
  next
    case lt: True
    let ?n = "unat (min len (64 * 1024))"
    have n: "0 < ?n" "?n \<le> unat len" using lt by (auto simp: min_def word_less_nat_alt word_le_nat_alt)
    show ?thesis
    proof (cases "rest = []")
      case True
      with 1(3) have "s = []" by (simp add: stream_bytes_Nil)
      with 1(2) lt show ?thesis by (simp add: copy_exact.simps [of io k len] client_read_end)
    next
      case False
      then obtain b s1 rest1 where r: "client_read ?n s = (Inr b, s1)" "b \<noteq> []" "length b \<le> ?n"
        "rest = b @ rest1" "stream_bytes s1 = Some rest1"
        using client_read_delivers [OF 1(3) False n(1)] by metis
      obtain q st where w: "store_write io k b (s1, content) = (q, st)" by (metis prod.exhaust)
      have "q = Inr ()" using 1(2) lt r(1,2) w by (cases q) (auto simp: copy_exact.simps [of io k len])
      with w store_write_Inr [of io k b "(s1, content)" st] have st: "st = (s1, content @ b)" by simp
      have w': "store_write io k b (s1, content) = (Inr (), s1, content @ b)"
        using w st \<open>q = Inr ()\<close> by simp
      with 1(2) lt r(1,2) have next_step: "copy_exact io (k + 1) (saturating_sub len (len_u64 b)) (s1, content @ b) = (Inr (), s', content')"
        by (simp add: copy_exact.simps [of io k len])
      have small: "length b < 2 ^ 64" using r(3) n(2) unat_u64_lt [of len] by simp
      from 1(1) [OF lt r(1)[symmetric] refl r(2) w'[symmetric] refl next_step r(5)]
      obtain got more where "rest1 = got @ more" "length got = unat (saturating_sub len (len_u64 b))"
        "content' = (content @ b) @ got" by blast
      then show ?thesis using r(3,4) n(2) small
        by (intro exI [of _ "b @ got"] exI [of _ more]) (simp add: u64_simps)
    qed
  qed
qed

section \<open>What the server sends\<close>

definition download_fields :: "cryptographic_file \<Rightarrow> shared_file \<Rightarrow> (string \<times> string) list" where
  "download_fields f shared =
     [(''content-type'', ''application/octet-stream''),
      (''content-length'', show_nat (unat (cf_size_bytes f))),
      (''x-syncer-encryption'', encryption_algorithm), (''x-syncer-nonce'', cf_nonce_hex f),
      (''x-syncer-content-hash'', sf_content_hash shared),
      (''x-syncer-plaintext-size'', show_nat (unat (sf_size_bytes shared))), (''connection'', ''close'')]"

definition download_head :: "cryptographic_file \<Rightarrow> shared_file \<Rightarrow> string" where
  "download_head f shared = answer 200 (reason_phrase 200) (map field_text (download_fields f shared)) []"

lemma download_header:
  "response_header 200 ''application/octet-stream'' (cf_size_bytes f)
     [(''x-syncer-encryption'', encryption_algorithm), (''x-syncer-nonce'', cf_nonce_hex f),
      (''x-syncer-content-hash'', sf_content_hash shared),
      (''x-syncer-plaintext-size'', show_nat (unat (sf_size_bytes shared)))] = download_head f shared"
  by (simp add: response_header_def download_head_def answer_def status_line_def download_fields_def field_text_def)

lemma download_fields_ok:
  assumes "visible (cf_nonce_hex f)" and "visible (sf_content_hash shared)"
  shows "fields_ok (download_fields f shared)"
proof -
  have "field_name ''x-syncer-content-hash''" "field_name ''x-syncer-plaintext-size''"
    "field_name ''x-syncer-encryption''" "field_name ''x-syncer-nonce''" "visible encryption_algorithm" by code_simp+
  then show ?thesis using assms field_names visible_show_nat by (simp add: fields_ok_def download_fields_def)
qed

lemma download_head_parsed:
  assumes "visible (cf_nonce_hex f)" and "visible (sf_content_hash shared)"
  shows "parse_response_head (download_head f shared) = Inr \<lparr>rh_status = 200, rh_content_length = cf_size_bytes f,
      rh_headers = map_of (rev (download_fields f shared))\<rparr>"
    and "find_header_end (download_head f shared) = Some (length (download_head f shared) - 4)"
proof -
  have "map_of (rev (download_fields f shared)) ''content-length'' = Some (show_nat (unat (cf_size_bytes f)))"
    by (simp add: download_fields_def)
  from parsed_answer_head [OF printable_reason download_fields_ok [OF assms] this, of 200 200]
  show "parse_response_head (download_head f shared) = Inr \<lparr>rh_status = 200, rh_content_length = cf_size_bytes f,
      rh_headers = map_of (rev (download_fields f shared))\<rparr>"
    and "find_header_end (download_head f shared) = Some (length (download_head f shared) - 4)"
    by (simp_all add: download_head_def)
qed

lemma download_head_checked:
  "check_download_head \<lparr>rh_status = 200, rh_content_length = cf_size_bytes f,
      rh_headers = map_of (rev (download_fields f shared))\<rparr> size_bytes
   = (if cf_size_bytes f = encrypted_len size_bytes then Inr (cf_nonce_hex f, sf_content_hash shared)
      else Inl (UnexpectedContentLength (encrypted_len size_bytes) (cf_size_bytes f)))"
  by (simp add: check_download_head_def download_fields_def)

lemma download_head_length:
  assumes "length (cf_nonce_hex f) = 32" and "length (sf_content_hash shared) = 64"
  shows "4 \<le> length (download_head f shared)" and "length (download_head f shared) \<le> response_header_limit_bytes"
proof -
  have "length encryption_algorithm < 100" "length (reason_phrase 200) < 100" "length (show_nat (unat (200 :: u16))) < 100"
    by code_simp+
  with assms length_show_u64 [of "cf_size_bytes f"] length_show_u64 [of "sf_size_bytes shared"]
  show "length (download_head f shared) \<le> response_header_limit_bytes"
    unfolding download_header [symmetric]
    by (simp add: response_header_def crlf_def response_header_limit_bytes_def)
  show "4 \<le> length (download_head f shared)" by (simp add: download_head_def answer_def crlf_def)
qed

text \<open>A server that reads its files in full.\<close>

definition serves_in_full :: "server_env \<Rightarrow> bool" where
  "serves_in_full env \<longleftrightarrow> sv_reads env = (\<lambda>bytes. map Inr (file_pieces bytes))
     \<and> no_io_faults (sv_crypto_io env) \<and> length (sv_nonce env) = 16"

lemma send_reads_prefix:
  "\<exists>n. snd (send_reads env path k (map Inr bs) sent) = sent @ take n (concat bs)"
proof (induction bs arbitrary: k sent)
  case (Cons b bs)
  show ?case
  proof (cases "b = [] \<or> sv_send_fault env k \<noteq> None")
    case True
    then show ?thesis by (auto simp: send_def bind_op_def intro!: exI [of _ 0])
  next
    case False
    with Cons [of "k + 1" "sent @ b"] obtain n where
      "snd (send_reads env path k (map Inr (b # bs)) sent) = sent @ b @ take n (concat bs)"
      by (auto simp: send_def bind_op_def)
    then show ?thesis by (intro exI [of _ "length b + n"]) simp
  qed
qed simp

lemma file_sent_prefix:
  assumes "write_response env (FileResponse header path delete_after_send) d = (r, sent, d')"
    and "sv_reads env = (\<lambda>bytes. map Inr (file_pieces bytes))" and "dk_files d path = Some cipher"
  shows "sent = [] \<or> (\<exists>n. sent = header @ take n cipher)"
proof (cases "sv_send_fault env 0")
  case (Some msg)
  with assms(1) show ?thesis by (auto simp: send_def bind_op_def)
next
  case None
  show ?thesis
  proof (cases "fs_read (sv_io env 2) path d")
    case (Inl msg)
    with None assms(1) show ?thesis by (auto simp: send_def bind_op_def intro!: exI [of _ 0])
  next
    case (Inr bytes)
    with assms(3) have "bytes = cipher" by (auto simp: fs_read_def split: option.splits)
    with None Inr assms(1,2) have "sent = snd (send_reads env path 1 (map Inr (file_pieces cipher)) header)"
      by (auto simp: send_def bind_op_def split: prod.splits sum.splits)
    with send_reads_prefix [of env path 1 "file_pieces cipher" header] show ?thesis
      by (auto simp: concat_file_pieces)
  qed
qed

lemma encrypt_loop_processed:
  assumes "encrypt_loop x key pre cx io (map Inr cs) processed hashed i out = Inr (processed', hashed', out')"
    and "[] \<notin> set cs" and "unat processed + length (concat cs) < 2 ^ 64"
  shows "unat processed' = unat processed + length (concat cs)"
  using assms
proof (induction cs arbitrary: processed hashed i out)
  case Nil
  then show ?case by (auto simp: encrypt_end_def and_then_Inr_iff split: if_splits)
next
  case (Cons c cs)
  from Cons.prems obtain out1 where
    "encrypt_loop x key pre cx io (map Inr cs) (saturating_add processed (len_u64 c)) (hashed @ c)
       (saturating_add i 1) out1 = Inr (processed', hashed', out')"
    by (auto simp: and_then_Inr_iff)
  moreover have "unat (saturating_add processed (len_u64 c)) = unat processed + length c"
    using Cons.prems(3) by (simp add: u64_simps)
  ultimately show ?case using Cons.IH Cons.prems(2,3) by simp
qed

lemma encrypted_size:
  assumes "encrypt_file_to_path x io (map Inr (file_pieces s)) pre secret_hex cx = Inr (f, cipher)"
    and "length s < 2 ^ 64"
  shows "cx_plaintext_size cx = of_nat (length s)"
proof -
  from assms(1) obtain key hashed out where
    "encrypt_loop x key pre cx io (map Inr (file_pieces s)) 0 [] 0 [] = Inr (cx_plaintext_size cx, hashed, out)"
    by (auto simp: encrypt_file_to_path_def and_then_Inr_iff split: if_splits)
  from encrypt_loop_processed [OF this file_pieces_nonempty] assms(2)
  have "unat (cx_plaintext_size cx) = length s" by (simp add: concat_file_pieces)
  then show ?thesis using of_nat_unat_u64 by metis
qed

section \<open>The request for a file\<close>

definition refused :: "string \<Rightarrow> bool" where
  "refused reply \<longleftrightarrow> reply = [] \<or> (\<exists>status reason ls body. reply = answer status reason ls body \<and> status \<noteq> 200
     \<and> printable reason \<and> (\<forall>l \<in> set ls. printable l))"

lemma refused_error:
  assumes "write_response env (error_response to_vec e) d = (r, reply, d')"
  shows "refused reply"
proof -
  obtain status reason ls body where e: "error_response to_vec e = BytesResponse (answer status reason ls body)"
    "status \<noteq> 200" "printable reason" "\<forall>l \<in> set ls. printable l" using error_answer by blast
  from assms e(1) have "reply = answer status reason ls body \<or> reply = []"
    by (auto split: prod.splits dest!: sent_answer)
  with e(2-4) show ?thesis unfolding refused_def by blast
qed

lemma refused_is_no_file:
  assumes "refused reply" and "stream_bytes s = Some reply" and "received_head s = Inr (h, s')"
  shows "check_download_head h size_bytes \<noteq> Inr nonce_hash"
proof (cases "reply = []")
  case True
  with no_head [of s] assms(2,3) show ?thesis by simp
next
  case False
  with assms(1) obtain status reason ls body where "reply = answer status reason ls body" "status \<noteq> 200"
    "printable reason" "\<forall>l \<in> set ls. printable l" unfolding refused_def by blast
  with received_head_status [OF assms(3), of status reason ls body] assms(2) have "rh_status h \<noteq> 200" by simp
  then show ?thesis by (simp add: check_download_head_def)
qed

definition file_request :: "string \<Rightarrow> string \<Rightarrow> string \<Rightarrow> relative_path \<Rightarrow> peer_request" where
  "file_request endpoint device secret_hex p =
     \<lparr>pq_method = ''GET'', pq_endpoint = endpoint, pq_path = ''/file/'' @ encode_relative_path p,
      pq_device_id = device, pq_shared_secret_hex = secret_hex, pq_body = [],
      pq_extra_headers = [], pq_response_limit_bytes = response_limit_bytes\<rparr>"

lemma proper_file_request:
  assumes "sendable p" and "visible device"
    and "\<And>address. peer_address_parse endpoint = Inr address \<Longrightarrow> visible (pa_host address)"
  shows "proper_request (file_request endpoint device secret_hex p)"
proof -
  have "visible ''GET''" by code_simp
  with assms sent_path(1) [OF assms(1)] show ?thesis
    by (simp add: proper_request_def file_request_def fields_ok_def)
qed

lemma get_served:
  assumes "handle_stream x cd io env config s w = (r, reply, w')" and "wire_laws x"
    and "sendable p" and "visible device"
    and "\<And>address. peer_address_parse endpoint = Inr address \<Longrightarrow> visible (pa_host address)"
    and "signed_request_header x now (file_request endpoint device secret_hex p) = Inr header"
    and "stream_bytes s = Some header" and "no_spool_faults io"
  shows "refused reply \<or> (\<exists>received response w1 d'.
      hr_headers received ''x-syncer-device-id'' = Some device
    \<and> hr_path received = ''/file/'' @ encode_relative_path p
    \<and> get_file_route x cd env received config w = (Inr response, w1)
    \<and> write_response env response (sw_disk w1) = (r, reply, d') \<and> w' = w1\<lparr>sw_disk := d'\<rparr>)"
proof -
  let ?request = "file_request endpoint device secret_hex p" and ?path = "''/file/'' @ encode_relative_path p"
  have proper: "proper_request ?request" by (rule proper_file_request [OF assms(3,4,5)])
  have request: "pq_method ?request = ''GET''" "pq_path ?request = ?path" "pq_body ?request = []"
    "pq_device_id ?request = device" by (simp_all add: file_request_def)
  from signed_header_message [OF assms(6)] obtain address signature where
    a: "peer_address_parse (pq_endpoint ?request) = Inr address"
    and signed: "sign_request x ''GET'' ?path device (unix_timestamp x now) [] (pq_shared_secret_hex ?request)
      = Inr signature"
    and h: "header = head_text ''GET'' ?path (signed_fields address ?request (unix_timestamp x now) signature) @ crlf @ crlf"
    unfolding request by blast
  let ?fs = "signed_fields address ?request (unix_timestamp x now) signature"
  have "visible signature"
    using signature_made [OF signed [unfolded sign_request_def]] visible_mac [OF assms(2)] by auto
  from signed_fields_ok [OF proper a this] have fields: "fields_ok ?fs" .
  note found = signed_fields_lookup [OF proper, of address "unix_timestamp x now" signature, unfolded request]
  have announced: "announces ?fs []" using found(4) by (simp add: announces_def)
  have get: "visible ''GET''" by code_simp
  have bytes: "stream_bytes s = Some (message ''GET'' ?path ?fs [])" using assms(7) h by (simp add: message_def)
  obtain q c where q: "read_request x io (sg_folder_path config) (sv_body_uuid env) (s, sw_disk w) = (q, c)"
    by (metis prod.exhaust)
  show ?thesis
  proof (cases q)
    case (Inl e)
    with assms(1) q have "write_response env (error_response (sx_reply cd) e) (snd c) = (r, reply, sw_disk w')"
      by (auto simp: handle_stream_def split: prod.splits)
    with refused_error show ?thesis by blast
  next
    case (Inr received)
    let ?received = "\<lparr>hr_method = ''GET'', hr_path = ?path, hr_headers = map_of (rev ?fs),
       hr_body_sha256_hex = hex_encode x (sha256 x []), hr_body = MemoryBody []\<rparr>"
    have "outcome (q, c) = (Inr ?received, sw_disk w)"
      using message_parsed_Inr [OF get sent_path(1) [OF assms(3)] fields announced bytes assms(8) q [unfolded Inr]]
        parse_message [OF get sent_path(1) [OF assms(3)] fields announced, of x io "sg_folder_path config"
          "sv_body_uuid env" "sw_disk w"] q by simp
    then have c: "received = ?received" "snd c = sw_disk w" using Inr by (auto simp: outcome_def)
    obtain t w1 where t: "get_file_route x cd env ?received config w = (t, w1)" by (metis prod.exhaust)
    have route: "route_request x cd env ?received config w = (t, w1)"
      using t by (simp add: route_request_def Let_def starts_with_def)
    show ?thesis
    proof (cases t)
      case (Inl e)
      with assms(1) q Inr c route
      have "write_response env (error_response (sx_reply cd) e) (sw_disk w1) = (r, reply, sw_disk w')"
        by (auto simp: handle_stream_def split: prod.splits)
      with refused_error show ?thesis by blast
    next
      case served: (Inr response)
      obtain d' where "write_response env response (sw_disk w1) = (r, reply, d')" "w' = w1\<lparr>sw_disk := d'\<rparr>"
        using assms(1) q Inr c route served by (auto simp: handle_stream_def split: prod.splits)
      with t served found(1) show ?thesis
        by (intro disjI2 exI [of _ ?received] exI [of _ response] exI [of _ w1] exI [of _ d']) simp
    qed
  qed
qed

lemma find_shared_file_disk:
  "find_shared_file x cd env folder_path profile p w = (r, w') \<Longrightarrow> sw_disk w' = sw_disk w"
  using server_export_manifest_disk [of x cd env folder_path profile w]
  by (auto simp: find_shared_file_def bind_op_def split: prod.splits sum.splits)

definition download_context :: "relative_path \<Rightarrow> shared_file \<Rightarrow> file_cipher_context" where
  "download_context p shared = \<lparr>cx_direction = ''download'', cx_path = p, cx_content_hash = sf_content_hash shared,
     cx_plaintext_size = sf_size_bytes shared\<rparr>"

definition response_file :: "server_env \<Rightarrow> peer_server_config \<Rightarrow> relative_path \<Rightarrow> string" where
  "response_file env config p = path_with_extension (path_push (sg_folder_path config) (path_str p))
     (''syncer-response-'' @ sv_response_uuid env @ ''.enc'')"

lemma get_route_Inr:
  assumes "get_file_route x cd env received config w = (Inr response, w1)"
    and "hr_headers received ''x-syncer-device-id'' = Some device"
    and "requested_path (hr_path received) = Inr p"
    and "trusts cd env (sg_peers_path config) (sw_disk w) device secret_hex"
    and "dk_files (sw_disk w) (path_push (sg_folder_path config) (path_str p)) = Some content"
  shows "\<exists>shared wp f cipher. find_shared_file x cd env (sg_folder_path config) (sg_profile config) p w = (Inr shared, wp)
    \<and> encrypt_file_to_path x (sv_crypto_io env) (sv_reads env content) (sv_nonce env) secret_hex
        (download_context p shared) = Inr (f, cipher)
    \<and> response = FileResponse (download_head f shared) (response_file env config p) True
    \<and> sw_disk w1 = set_file (response_file env config p) (Some cipher) (sw_disk w)"
proof -
  from assms(1,3) obtain secret' shared wp where
    secret: "verify_peer_request x cd env received (sg_peers_path config) (sw_disk w) = Inr secret'"
    and shared: "find_shared_file x cd env (sg_folder_path config) (sg_profile config) p w = (Inr shared, wp)"
    and answered: "encrypted_file_response x env 200 shared p secret' wp = (Inr response, w1)"
    by (auto simp: get_file_route_def bind_op_Inr lift_result_Inr verified_def read_op_Inr)
  have same: "secret' = secret_hex" by (rule verified_secret [OF secret assms(4,2)])
  note disk = find_shared_file_disk [OF shared] and path = find_shared_file_path [OF shared]
  from answered obtain f d where
    encrypted: "encrypt_path x (sv_crypto_io env) (sv_partial env) (sv_reads env) (sv_nonce env)
      (path_push (sg_folder_path config) (path_str p)) (response_file env config p) secret_hex
      (download_context p shared) (sw_disk w) = (Inr f, d)"
    and response: "response = FileResponse (download_head f shared) (response_file env config p) True"
    and w1: "sw_disk w1 = d"
    by (auto simp: encrypted_file_response_def Let_def op_success path disk same response_file_def
        download_context_def download_header)
  from encrypted assms(5) obtain cipher where
    "encrypt_file_to_path x (sv_crypto_io env) (sv_reads env content) (sv_nonce env) secret_hex
       (download_context p shared) = Inr (f, cipher)"
    "d = set_file (response_file env config p) (Some cipher) (sw_disk w)"
    by (auto simp: encrypt_path_def cipher_source_def cipher_into_def split: sum.splits)
  with shared response w1 show ?thesis by blast
qed

section \<open>Downloads that arrive\<close>

text \<open>The client's side of a fetch that succeeded.\<close>

lemma fetch_steps:
  assumes "fetch_file_to_path x env endpoint device secret_hex p size_bytes destination w = (Inr t, w')"
  shows "\<exists>address header s h s' nonce hash d1 f d2 d3. peer_address_parse endpoint = Inr address
    \<and> signed_request_header x (cl_now env) (file_request endpoint device secret_hex p) = Inr header
    \<and> cl_answer env address (cw_peer w) header = (s, cw_peer w')
    \<and> received_head s = Inr (h, s') \<and> check_download_head h size_bytes = Inr (nonce, hash)
    \<and> store_download (cl_store_io env) (encrypted_download_path (cl_uuid env) destination) (rh_content_length h) s'
        (cw_disk w) = (Inr (), d1)
    \<and> decrypt_path x (cl_crypto_io env) (cl_partial env) (encrypted_download_path (cl_uuid env) destination) destination
        secret_hex nonce \<lparr>cx_direction = ''download'', cx_path = p, cx_content_hash = hash,
          cx_plaintext_size = size_bytes\<rparr> d1 = (Inr f, d2)
    \<and> remove_quietly (cl_remove_fault env) (encrypted_download_path (cl_uuid env) destination) d2 = (Inr (), d3)
    \<and> cw_disk w' = d3 \<and> tf_content_hash t = cf_content_hash f"
proof -
  from assms obtain address header s w1 h s' nonce hash d1 f d2 d3 where
    address: "peer_address_parse endpoint = Inr address"
    and header: "signed_request_header x (cl_now env) (file_request endpoint device secret_hex p) = Inr header"
    and sent: "exchange env address [Inr header] w = (Inr s, w1)"
    and rest: "received_head s = Inr (h, s')" "check_download_head h size_bytes = Inr (nonce, hash)"
      "store_download (cl_store_io env) (encrypted_download_path (cl_uuid env) destination) (rh_content_length h) s'
        (cw_disk w1) = (Inr (), d1)"
      "decrypt_path x (cl_crypto_io env) (cl_partial env) (encrypted_download_path (cl_uuid env) destination) destination
        secret_hex nonce \<lparr>cx_direction = ''download'', cx_path = p, cx_content_hash = hash,
          cx_plaintext_size = size_bytes\<rparr> d1 = (Inr f, d2)"
      "remove_quietly (cl_remove_fault env) (encrypted_download_path (cl_uuid env) destination) d2 = (Inr (), d3)"
      "cw_disk w' = d3" "tf_content_hash t = cf_content_hash f" "cw_peer w' = cw_peer w1"
    unfolding fetch_file_to_path_def file_request_def
    by (auto simp: bind_op_Inr lift_result_Inr on_local_Inr map_op_err_Inr Let_def)
  from exchange_disk [OF sent] have "cw_disk w1 = cw_disk w" .
  moreover from exchange_Inr [of env address "[header]" w s w1] sent
  have "cl_answer env address (cw_peer w) header = (s, cw_peer w1)" by simp
  ultimately show ?thesis using address header rest by metis
qed

text \<open>What the client stores of an answer that is a file.\<close>

lemma stored_answer:
  assumes "stream_bytes s = Some (download_head f shared @ take n cipher)" and "received_head s = Inr (h, s')"
    and "visible (cf_nonce_hex f)" and "length (cf_nonce_hex f) = 32"
    and "visible (sf_content_hash shared)" and "length (sf_content_hash shared) = 64"
    and "check_download_head h size_bytes = Inr (nonce, hash)"
    and "store_download io path (rh_content_length h) s' d = (Inr (), d1)"
    and "unat (cf_size_bytes f) = length cipher"
  shows "cf_size_bytes f = encrypted_len size_bytes \<and> nonce = cf_nonce_hex f \<and> hash = sf_content_hash shared
    \<and> d1 = set_file path (Some cipher) d"
proof -
  let ?head = "download_head f shared"
  let ?h = "\<lparr>rh_status = 200, rh_content_length = cf_size_bytes f, rh_headers = map_of (rev (download_fields f shared))\<rparr>"
  note parsed = download_head_parsed [OF assms(3,5)] and long = download_head_length [OF assms(4,6)]
  have "?head \<noteq> []" using long(1) by auto
  with response_head_loop_delivers [of s ?head "take n cipher" "[]" "length ?head - 4"] assms(1) parsed(2) long
  obtain s1 where loop: "response_head_loop [] s = (Inr ?head, s1)" "stream_bytes s1 = Some (take n cipher)" by auto
  then have "received_head s = Inr (?h, s1)"
    using parsed(1) by (simp add: received_head_def read_response_head_def bind_op_def)
  with assms(2) have h: "h = ?h" "s' = s1" by simp_all
  with assms(7) have checked: "cf_size_bytes f = encrypted_len size_bytes" "nonce = cf_nonce_hex f"
    "hash = sf_content_hash shared"
    by (auto simp: download_head_checked split: if_splits)
  from assms(8) h obtain st content where copied: "copy_exact io 0 (cf_size_bytes f) (s1, []) = (Inr (), st, content)"
    "d1 = set_file path (Some content) d"
    by (auto simp: store_download_def and_then_Inr_iff split: option.splits prod.splits)
  from copy_exact_Inr [OF copied(1) loop(2)] obtain more where m: "take n cipher = content @ more"
    "length content = length cipher" using assms(9) by auto
  have "length (take n cipher) = length cipher + length more" unfolding m(1) using m(2) by simp
  then have "min (length cipher) n = length cipher + length more" by simp
  then have "length cipher \<le> n" "length more = 0" by linarith+
  with m have "content = cipher" by simp
  with copied(2) checked show ?thesis by simp
qed

lemma encrypted_download:
  assumes "wire_laws x" and "aead_laws x" and "serves_in_full env" and "no_io_faults io'"
    and "hex_decode x secret_hex = Inr secret" and "length secret = 32" and "length content < 2 ^ 63"
    and "encrypt_file_to_path x (sv_crypto_io env) (sv_reads env content) (sv_nonce env) secret_hex
       (download_context p shared) = Inr (f, cipher)"
  shows "sf_size_bytes shared = of_nat (length content)"
    and "visible (cf_nonce_hex f)" and "length (cf_nonce_hex f) = 32"
    and "unat (cf_size_bytes f) = length cipher" and "cf_size_bytes f = encrypted_len (of_nat (length content))"
    and "\<exists>f'. decrypt_file_to_path x io' cipher secret_hex (cf_nonce_hex f) (download_context p shared) = Inr (f', content)
      \<and> cf_content_hash f' = blake3_hex x content"
proof -
  let ?cx = "download_context p shared"
  have hex: "hex_laws x" using assms(1) by (simp add: wire_laws_def)
  have full: "sv_reads env content = map Inr (file_pieces content)" "no_io_faults (sv_crypto_io env)"
    "length (sv_nonce env) = 16" using assms(3) by (simp_all add: serves_in_full_def)
  have short: "length content < 2 ^ 64" using assms(7) by simp
  from encrypted_size [OF assms(8) [unfolded full(1)] short] have size: "cx_plaintext_size ?cx = of_nat (length content)" .
  then show "sf_size_bytes shared = of_nat (length content)" by (simp add: download_context_def)
  from encrypted_file_decrypts [OF assms(2) hex full(3) assms(5,6) full(2) assms(4) short size] assms(8) full(1)
  obtain f' where f: "cf_size_bytes f = encrypted_len (of_nat (length content))"
    and dec: "decrypt_file_to_path x io' cipher secret_hex (cf_nonce_hex f) ?cx = Inr (f', content)"
      "cf_content_hash f' = blake3_hex x content"
    by (auto simp: size)
  show "cf_size_bytes f = encrypted_len (of_nat (length content))" by (rule f)
  show "\<exists>f'. decrypt_file_to_path x io' cipher secret_hex (cf_nonce_hex f) ?cx = Inr (f', content)
      \<and> cf_content_hash f' = blake3_hex x content" using dec by blast
  have "length cipher = length content + 16 * unat (chunk_count (of_nat (length content)))"
    using decrypted_file_lengths [OF assms(2) dec(1)] size by simp
  from encrypted_length(1) [OF assms(7) this] f show "unat (cf_size_bytes f) = length cipher" by simp
  have nonce: "cf_nonce_hex f = hex_encode x (sv_nonce env)"
    using assms(8) by (auto simp: encrypt_file_to_path_def and_then_Inr_iff split: if_splits)
  have "sv_nonce env \<noteq> []" using full(3) by auto
  with nonce full(3) assms(1) show "visible (cf_nonce_hex f)" "length (cf_nonce_hex f) = 32"
    by (simp_all add: wire_laws_def)
qed

lemma shared_hash:
  assumes "digest_laws x" and "find_shared_file x cd env folder_path profile p w = (Inr shared, w')"
    and "database_ok (sw_db w)" and "node_named (sv_tree env)"
  shows "visible (sf_content_hash shared) \<and> length (sf_content_hash shared) = 64"
proof -
  from assms(2) obtain m w1 listed hash where m: "server_export_manifest x cd env folder_path profile w = (Inr m, w1)"
    and listed: "find_shared m p = Inr listed" "rec_content_hash listed = Some hash" "sf_content_hash shared = hash"
    by (auto simp: find_shared_file_def bind_op_Inr lift_result_Inr and_then_Inr_iff)
  from exported_file_was_read [OF m listed(1) assms(3,4)] listed(2,3) obtain bytes where
    "sf_content_hash shared = blake3_hex x bytes" by auto
  with assms(1) show ?thesis by (simp add: digest_laws_def)
qed

text \<open>
  C3: A download is the file of the peer. A client fetches a path from a server over a
  lossless connection that cuts the bytes anywhere; the server trusts the client under the
  same secret. If the call succeeds, the destination holds exactly the file the server has at
  that path, whatever errors, retries and partial answers there may be on the way: the size
  the caller asked for is its size, the hash returned is its hash.
\<close>

theorem downloads_arrive:
  assumes "wire_laws x" and "aead_laws x" and "digest_laws x"
    and "cl_answer env = served_by x cd io senv config segments deliver"
    and "lossless segments" and "lossless deliver" and "no_spool_faults io" and "serves_in_full senv"
    and "no_io_faults (cl_crypto_io env)" and "hex_decode x secret_hex = Inr secret" and "length secret = 32"
    and "dk_files (sw_disk (cw_peer w)) (path_push (sg_folder_path config) (path_str p)) = Some content"
    and "length content < 2 ^ 63" and "sendable p" and "visible device"
    and "\<And>address. peer_address_parse endpoint = Inr address \<Longrightarrow> visible (pa_host address)"
    and "trusts cd senv (sg_peers_path config) (sw_disk (cw_peer w)) device secret_hex"
    and "database_ok (sw_db (cw_peer w))" and "node_named (sv_tree senv)"
    and "encrypted_download_path (cl_uuid env) destination \<noteq> destination"
    and "fetch_file_to_path x env endpoint device secret_hex p size_bytes destination w = (Inr t, w')"
  shows "dk_files (cw_disk w') destination = Some content \<and> size_bytes = of_nat (length content)
    \<and> tf_content_hash t = blake3_hex x content"
proof -
  let ?enc = "encrypted_download_path (cl_uuid env) destination"
  from fetch_steps [OF assms(21)] obtain address header s h s' nonce hash d1 f' d2 d3 where
    header: "signed_request_header x (cl_now env) (file_request endpoint device secret_hex p) = Inr header"
    and answered: "cl_answer env address (cw_peer w) header = (s, cw_peer w')"
    and head: "received_head s = Inr (h, s')" and checked: "check_download_head h size_bytes = Inr (nonce, hash)"
    and stored: "store_download (cl_store_io env) ?enc (rh_content_length h) s' (cw_disk w) = (Inr (), d1)"
    and decrypted: "decrypt_path x (cl_crypto_io env) (cl_partial env) ?enc destination secret_hex nonce
        \<lparr>cx_direction = ''download'', cx_path = p, cx_content_hash = hash, cx_plaintext_size = size_bytes\<rparr> d1
        = (Inr f', d2)"
    and removed: "remove_quietly (cl_remove_fault env) ?enc d2 = (Inr (), d3)" "cw_disk w' = d3"
    and t: "tf_content_hash t = cf_content_hash f'" by metis
  obtain q reply where handled: "handle_stream x cd io senv config (segments header) (cw_peer w) = (q, reply, cw_peer w')"
    and "s = deliver reply"
    using answered unfolding assms(4) by (auto simp: served_by_def split: prod.splits)
  with assms(6) have reply: "stream_bytes s = Some reply" by (simp add: lossless_def)
  have "stream_bytes (segments header) = Some header" using assms(5) by (simp add: lossless_def)
  from get_served [OF handled assms(1,14,15,16) header this assms(7)] refused_is_no_file [OF _ reply head, of size_bytes] checked
  obtain received response w1 d' where got: "hr_headers received ''x-syncer-device-id'' = Some device"
    "hr_path received = ''/file/'' @ encode_relative_path p"
    "get_file_route x cd senv received config (cw_peer w) = (Inr response, w1)"
    "write_response senv response (sw_disk w1) = (q, reply, d')" by blast
  have "requested_path (hr_path received) = Inr p" using got(2) sent_path(2) [OF assms(14)] by simp
  from get_route_Inr [OF got(3,1) this assms(17,12)] obtain shared wp f cipher where
    shared: "find_shared_file x cd senv (sg_folder_path config) (sg_profile config) p (cw_peer w) = (Inr shared, wp)"
    and enc: "encrypt_file_to_path x (sv_crypto_io senv) (sv_reads senv content) (sv_nonce senv) secret_hex
        (download_context p shared) = Inr (f, cipher)"
    and response: "response = FileResponse (download_head f shared) (response_file senv config p) True"
    and disk: "sw_disk w1 = set_file (response_file senv config p) (Some cipher) (sw_disk (cw_peer w))" by blast
  note sealed = encrypted_download [OF assms(1,2,8,9,10,11,13) enc]
  note hash64 = shared_hash [OF assms(3) shared assms(18,19)]
  have reads: "sv_reads senv = (\<lambda>bytes. map Inr (file_pieces bytes))" using assms(8) by (simp add: serves_in_full_def)
  have "dk_files (sw_disk w1) (response_file senv config p) = Some cipher" by (simp add: disk set_file_def)
  from file_sent_prefix [OF got(4) [unfolded response] reads this] obtain n where
    sent: "reply = download_head f shared @ take n cipher"
    using no_head [of s] reply head by auto
  from stored_answer [OF reply [unfolded sent] head sealed(2,3) _ _ checked stored sealed(4)] hash64
  have answer: "cf_size_bytes f = encrypted_len size_bytes" "nonce = cf_nonce_hex f" "hash = sf_content_hash shared"
    "d1 = set_file ?enc (Some cipher) (cw_disk w)" by simp_all
  have "unat (of_nat (length content) :: u64) < 2 ^ 63" using assms(13) by (simp add: unat_of_nat)
  with encrypted_len_inj [of size_bytes "of_nat (length content)"] answer(1) sealed(5)
  have size: "size_bytes = of_nat (length content)" by simp
  have cx: "\<lparr>cx_direction = ''download'', cx_path = p, cx_content_hash = hash, cx_plaintext_size = size_bytes\<rparr>
      = download_context p shared" by (simp add: download_context_def answer(3) size sealed(1))
  from decrypted sealed(6) have "d2 = set_file destination (Some content) d1" "cf_content_hash f' = blake3_hex x content"
    unfolding cx by (auto simp: decrypt_path_def cipher_source_def cipher_into_def answer(2,4))
  with remove_quietly_Inr [OF removed(1), of destination] assms(20) removed(2) t size show ?thesis
    by (simp add: set_file_def)
qed

section \<open>Downloads that complete\<close>

lemma send_reads_calm:
  "(\<And>k. sv_send_fault env k = None) \<Longrightarrow> [] \<notin> set bs
     \<Longrightarrow> send_reads env path k (map Inr bs) sent = (Inr (), sent @ concat bs)"
  by (induction bs arbitrary: k sent) (auto simp: bind_op_def send_def)

lemma get_head_length:
  assumes "signed_request_header x now (file_request endpoint device secret_hex p) = Inr header"
    and "peer_address_parse endpoint = Inr address" and "wire_laws x" and "time_laws x"
    and "length (encode_relative_path p) + length (pa_host address) + length device \<le> 10000"
  shows "length header + 4096 \<le> max_header_bytes"
proof -
  let ?t = "unix_timestamp x now"
  from assms(1,2) obtain signature where
    signed: "sign_request x ''GET'' (''/file/'' @ encode_relative_path p) device ?t [] secret_hex = Inr signature"
    and h: "header = ''GET'' @ '' '' @ (''/file/'' @ encode_relative_path p) @ '' HTTP/1.1'' @ crlf
         @ header_line ''host'' (pa_host address) @ header_line ''x-syncer-device-id'' device
         @ header_line ''x-syncer-timestamp'' (show_int ?t) @ header_line ''x-syncer-signature'' signature
         @ header_line ''content-type'' ''application/octet-stream''
         @ header_line ''content-length'' (show_nat 0) @ header_line ''connection'' ''close'' @ crlf"
    by (auto simp: signed_request_header_def file_request_def Let_def and_then_Inr_iff)
  from signature_made [OF signed [unfolded sign_request_def]] assms(3) have "length signature = 64"
    by (auto simp: wire_laws_def)
  moreover have "length (show_int ?t) \<le> 21" using length_show_i64 assms(4) by (simp add: time_laws_def)
  moreover have "length (show_nat 0) = 1" by code_simp
  ultimately show ?thesis using assms(5)
    by (simp add: h header_line_def crlf_def max_header_bytes_def)
qed

text \<open>The server's side when nothing fails.\<close>

lemma get_completes:
  assumes "wire_laws x" and "aead_laws x" and "time_laws x" and "no_spool_faults io" and "calm_server env"
    and "serves_in_full env" and "hex_decode x secret_hex = Inr secret" and "length secret = 32"
    and "dk_files (sw_disk w) (path_push (sg_folder_path config) (path_str p)) = Some content"
    and "length content < 2 ^ 63" and "sendable p" and "visible device"
    and "\<And>address. peer_address_parse endpoint = Inr address \<Longrightarrow> visible (pa_host address)"
    and "trusts cd env (sg_peers_path config) (sw_disk w) device secret_hex"
    and "\<bar>unix_timestamp x (sv_now env) - unix_timestamp x now\<bar> \<le> 300"
    and "find_shared_file x cd env (sg_folder_path config) (sg_profile config) p w = (Inr shared, wp)"
    and "sf_size_bytes shared = of_nat (length content)"
    and "signed_request_header x now (file_request endpoint device secret_hex p) = Inr header"
    and "length header + 4096 \<le> max_header_bytes" and "stream_bytes s = Some header"
  shows "\<exists>f cipher w'. handle_stream x cd io env config s w = (Inr (), download_head f shared @ cipher, w')
    \<and> encrypt_file_to_path x (sv_crypto_io env) (sv_reads env content) (sv_nonce env) secret_hex
        (download_context p shared) = Inr (f, cipher)"
proof -
  let ?request = "file_request endpoint device secret_hex p" and ?path = "''/file/'' @ encode_relative_path p"
  let ?t = "unix_timestamp x now"
  have proper: "proper_request ?request" by (rule proper_file_request [OF assms(11,12,13)])
  have request: "pq_method ?request = ''GET''" "pq_path ?request = ?path" "pq_body ?request = []"
    "pq_device_id ?request = device" "pq_shared_secret_hex ?request = secret_hex" by (simp_all add: file_request_def)
  from signed_header_message [OF assms(18)] obtain address signature where
    a: "peer_address_parse (pq_endpoint ?request) = Inr address"
    and signed: "sign_request x ''GET'' ?path device ?t [] secret_hex = Inr signature"
    and h: "header = head_text ''GET'' ?path (signed_fields address ?request ?t signature) @ crlf @ crlf"
    unfolding request by blast
  let ?fs = "signed_fields address ?request ?t signature"
  have "visible signature"
    using signature_made [OF signed [unfolded sign_request_def]] visible_mac [OF assms(1)] by auto
  from signed_fields_ok [OF proper a this] have fields: "fields_ok ?fs" .
  note found = signed_fields_lookup [OF proper, of address ?t signature, unfolded request]
  have announced: "announces ?fs []" using found(4) by (simp add: announces_def)
  have get: "visible ''GET''" by code_simp
  have bytes: "stream_bytes s = Some (message ''GET'' ?path ?fs [])" using assms(20) h by (simp add: message_def)
  have room: "length (head_text ''GET'' ?path ?fs) + 4100 \<le> max_header_bytes"
    using assms(19) h by (simp add: crlf_def)
  let ?received = "\<lparr>hr_method = ''GET'', hr_path = ?path, hr_headers = map_of (rev ?fs),
     hr_body_sha256_hex = hex_encode x (sha256 x []), hr_body = MemoryBody []\<rparr>"
  have "outcome (read_request x io (sg_folder_path config) (sv_body_uuid env) (s, sw_disk w)) = (Inr ?received, sw_disk w)"
    using message_read [OF get sent_path(1) [OF assms(11)] fields announced bytes room assms(4)] by simp
  then obtain s' where received: "read_request x io (sg_folder_path config) (sv_body_uuid env) (s, sw_disk w)
      = (Inr ?received, s', sw_disk w)"
    by (cases "read_request x io (sg_folder_path config) (sv_body_uuid env) (s, sw_disk w)") (auto simp: outcome_def)
  have "i64_range ?t" using assms(3) by (simp add: time_laws_def)
  from authentic_if_signed [OF assms(1) this, of ?received device secret_hex] signed found assms(14,15)
  have secret: "verify_peer_request x cd env ?received (sg_peers_path config) (sw_disk w) = Inr secret_hex"
    by (simp add: verify_peer_request_iff sign_request_def)
  note disk = find_shared_file_disk [OF assms(16)] and path = find_shared_file_path [OF assms(16)]
  have full: "sv_reads env = (\<lambda>bytes. map Inr (file_pieces bytes))" "no_io_faults (sv_crypto_io env)"
    "length (sv_nonce env) = 16" using assms(6) by (simp_all add: serves_in_full_def)
  have hex: "hex_laws x" using assms(1) by (simp add: wire_laws_def)
  have size: "cx_plaintext_size (download_context p shared) = of_nat (length content)"
    by (simp add: download_context_def assms(17))
  have "length content < 2 ^ 64" using assms(10) by simp
  from encrypted_file_decrypts [OF assms(2) hex full(3) assms(7,8) full(2,2) this size] obtain f cipher where
    enc: "encrypt_file_to_path x (sv_crypto_io env) (sv_reads env content) (sv_nonce env) secret_hex
      (download_context p shared) = Inr (f, cipher)" by (auto simp: full(1))
  let ?file = "response_file env config p"
  let ?w1 = "wp\<lparr>sw_disk := set_file ?file (Some cipher) (sw_disk w)\<rparr>"
  have "encrypt_path x (sv_crypto_io env) (sv_partial env) (sv_reads env) (sv_nonce env)
      (path_push (sg_folder_path config) (path_str p)) ?file secret_hex (download_context p shared) (sw_disk w)
      = (Inr f, set_file ?file (Some cipher) (sw_disk w))"
    using enc assms(9) by (simp add: encrypt_path_def cipher_source_def cipher_into_def)
  then have "encrypted_file_response x env 200 shared p secret_hex wp
      = (Inr (FileResponse (download_head f shared) ?file True), ?w1)"
    by (simp add: encrypted_file_response_def Let_def bind_op_def on_disk_def map_op_err_def path disk
        response_file_def download_context_def download_header)
  then have route: "route_request x cd env ?received config w
      = (Inr (FileResponse (download_head f shared) ?file True), ?w1)"
    using secret sent_path(2) [OF assms(11)] assms(16)
    by (simp add: route_request_def Let_def starts_with_def get_file_route_def bind_op_def verified_def)
  have calm: "\<And>k. sv_send_fault env k = None" "\<And>k. sv_io env k = no_faults"
    using assms(5) by (simp_all add: calm_server_def)
  have "fs_read no_faults ?file (set_file ?file (Some cipher) (sw_disk w)) = Inr cipher"
    by (simp add: fs_read_def no_faults_def)
  then obtain d' where "write_response env (FileResponse (download_head f shared) ?file True) (sw_disk ?w1)
      = (Inr (), download_head f shared @ cipher, d')"
    using send_reads_calm [OF calm(1) file_pieces_nonempty, of ?file 1 cipher "download_head f shared"]
    by (simp add: bind_op_def send_def calm full(1) concat_file_pieces)
  then show ?thesis using received route enc by (simp add: handle_stream_def del: write_response.simps)
qed

lemma download_completes:
  assumes "wire_laws x" and "aead_laws x" and "digest_laws x" and "time_laws x"
    and "\<And>key payload. hmac_sha256 x key payload \<noteq> None"
    and "cl_answer env = served_by x cd io senv config segments deliver"
    and "lossless segments" and "lossless deliver" and "no_spool_faults io" and "calm_server senv"
    and "serves_in_full senv" and "calm_client env" and "no_spool_faults (cl_store_io env)"
    and "hex_decode x secret_hex = Inr secret" and "length secret = 32"
    and "dk_files (sw_disk (cw_peer w)) (path_push (sg_folder_path config) (path_str p)) = Some content"
    and "length content < 2 ^ 63" and "size_bytes = of_nat (length content)" and "sendable p" and "visible device"
    and "peer_address_parse endpoint = Inr address" and "visible (pa_host address)"
    and "length (encode_relative_path p) + length (pa_host address) + length device \<le> 10000"
    and "trusts cd senv (sg_peers_path config) (sw_disk (cw_peer w)) device secret_hex"
    and "\<bar>unix_timestamp x (sv_now senv) - unix_timestamp x (cl_now env)\<bar> \<le> 300"
    and "database_ok (sw_db (cw_peer w))" and "node_named (sv_tree senv)"
    and "find_shared_file x cd senv (sg_folder_path config) (sg_profile config) p (cw_peer w) = (Inr shared, wp)"
    and "sf_size_bytes shared = size_bytes"
  shows "\<exists>t w'. fetch_file_to_path x env endpoint device secret_hex p size_bytes destination w = (Inr t, w')"
proof -
  let ?t = "unix_timestamp x (cl_now env)" and ?path = "''/file/'' @ encode_relative_path p"
  from assms(5) obtain mac where mac: "hmac_sha256 x secret (canonical_payload_with_body_hash_hex ''GET'' ?path device ?t
      (hex_encode x (sha256 x []))) = Some mac" by blast
  have "sign_request x ''GET'' ?path device ?t [] secret_hex = Inr (hex_encode x mac)"
    using mac assms(14) by (simp add: sign_request_def sign_request_with_body_hash_hex_def)
  then obtain header where header: "signed_request_header x (cl_now env) (file_request endpoint device secret_hex p) = Inr header"
    using assms(21) by (auto simp: signed_request_header_def file_request_def Let_def)
  have host: "visible (pa_host a)" if "peer_address_parse endpoint = Inr a" for a using that assms(21,22) by simp
  have "stream_bytes (segments header) = Some header" using assms(7) by (simp add: lossless_def)
  from get_completes [OF assms(1,2,4,9,10,11,14,15,16,17,19,20) host assms(24,25,28) _ header
      get_head_length [OF header assms(21,1,4,23)] this] assms(18,29)
  obtain f cipher w1 where handled: "handle_stream x cd io senv config (segments header) (cw_peer w)
      = (Inr (), download_head f shared @ cipher, w1)"
    and enc: "encrypt_file_to_path x (sv_crypto_io senv) (sv_reads senv content) (sv_nonce senv) secret_hex
        (download_context p shared) = Inr (f, cipher)" by auto
  have calm: "\<And>k. cl_send_fault env k = None" "cl_connect_fault env address = None" "no_io_faults (cl_crypto_io env)"
    using assms(12) by (simp_all add: calm_client_def reads_in_full_def)
  note sealed = encrypted_download [OF assms(1,2,11) calm(3) assms(14,15,17) enc]
  note hash64 = shared_hash [OF assms(3,28,26,27)]
  have answered: "cl_answer env address (cw_peer w) header = (deliver (download_head f shared @ cipher), w1)"
    by (simp add: assms(6) served_by_def handled)
  have bytes: "stream_bytes (deliver (download_head f shared @ cipher)) = Some (download_head f shared @ cipher)"
    using assms(8) by (simp add: lossless_def)
  note head = download_head_parsed [OF sealed(2) conjunct1 [OF hash64]]
    and long = download_head_length [OF sealed(3) conjunct2 [OF hash64]]
  have fits: "length (download_head f shared) = length (download_head f shared) - 4 + 4"
    "length (download_head f shared) - 4 + 4 \<le> response_header_limit_bytes" using long by simp_all
  have len: "cf_size_bytes f = encrypted_len size_bytes" using sealed(5) assms(18) by simp
  have checked: "check_download_head \<lparr>rh_status = 200, rh_content_length = cf_size_bytes f,
      rh_headers = map_of (rev (download_fields f shared))\<rparr> size_bytes = Inr (cf_nonce_hex f, sf_content_hash shared)"
    using download_head_checked [of f shared size_bytes] len by simp
  from sealed(6) obtain f' where dec: "decrypt_file_to_path x (cl_crypto_io env) cipher secret_hex (cf_nonce_hex f)
      \<lparr>cx_direction = ''download'', cx_path = p, cx_content_hash = sf_content_hash shared, cx_plaintext_size = size_bytes\<rparr>
      = Inr (f', content)" by (auto simp: download_context_def assms(29))
  have whole: "length cipher = unat (encrypted_len size_bytes)" using sealed(4) len by simp
  from fetch_completes [OF assms(21) calm(2,1) header [unfolded file_request_def] answered bytes head(2) fits head(1)
      checked whole assms(13) calm(3) dec, of destination] show ?thesis by blast
qed

text \<open>
  C5: A download between two calm sides completes. The server trusts the client under the same
  secret, the clocks are at most five minutes apart, the connection is lossless, the scan of
  the server finds the file with the size the client asks for, the name is short enough for a
  header, and nothing fails: then the call of the client succeeds.
\<close>

theorem downloads_complete:
  assumes "wire_laws x" and "aead_laws x" and "digest_laws x" and "time_laws x"
    and "\<And>key payload. hmac_sha256 x key payload \<noteq> None"
    and "cl_answer env = served_by x cd io senv config segments deliver"
    and "lossless segments" and "lossless deliver" and "no_spool_faults io" and "calm_server senv"
    and "serves_in_full senv" and "calm_client env" and "no_spool_faults (cl_store_io env)"
    and "hex_decode x secret_hex = Inr secret" and "length secret = 32"
    and "dk_files (sw_disk (cw_peer w)) (path_push (sg_folder_path config) (path_str p)) = Some content"
    and "length content < 2 ^ 63" and "size_bytes = of_nat (length content)" and "sendable p" and "visible device"
    and "peer_address_parse endpoint = Inr address" and "visible (pa_host address)"
    and "length (encode_relative_path p) + length (pa_host address) + length device \<le> 10000"
    and "trusts cd senv (sg_peers_path config) (sw_disk (cw_peer w)) device secret_hex"
    and "\<bar>unix_timestamp x (sv_now senv) - unix_timestamp x (cl_now env)\<bar> \<le> 300"
    and "database_ok (sw_db (cw_peer w))" and "node_named (sv_tree senv)"
    and "find_shared_file x cd senv (sg_folder_path config) (sg_profile config) p (cw_peer w) = (Inr shared, wp)"
    and "sf_size_bytes shared = size_bytes"
  shows "\<exists>t w'. fetch_file_to_path x env endpoint device secret_hex p size_bytes destination w = (Inr t, w')"
  by (rule download_completes [OF assms])

section \<open>A download that takes place\<close>

text \<open>64 visible characters in the place of BLAKE3.\<close>

definition sample_digest :: "string \<Rightarrow> string" where
  "sample_digest bytes = replicate 63 CHR ''a'' @ [if bytes = [] then CHR ''a'' else CHR ''b'']"

definition sample_mac :: "string \<Rightarrow> string \<Rightarrow> string option" where
  "sample_mac key payload = Some (take 32 (CHR ''m'' # rev payload @ key @ replicate 32 CHR ''0''))"

definition sample_digest_externals :: agent_externals where
  "sample_digest_externals = sample_agent_externals\<lparr>hex_encode := letters_of, hex_decode := bytes_of,
     hmac_sha256 := sample_mac, blake3_hex := sample_digest\<rparr>"

definition sample_serve_env :: server_env where
  "sample_serve_env = (sample_env ''3'')\<lparr>sv_reads := \<lambda>bytes. map Inr (file_pieces bytes)\<rparr>"

definition sample_fetch_env :: "server_world client_env" where
  "sample_fetch_env = sample_link_env\<lparr>cl_answer := served_by sample_digest_externals sample_link_codecs sample_link_io
     sample_serve_env sample_config whole whole\<rparr>"

lemma sample_digest_fields:
  "hex_encode sample_digest_externals = hex_encode sample_wire_externals"
  "hex_decode sample_digest_externals = hex_decode sample_wire_externals"
  "hmac_sha256 sample_digest_externals = hmac_sha256 sample_wire_externals"
  "unix_timestamp sample_digest_externals = unix_timestamp sample_wire_externals"
  "from_unix_timestamp sample_digest_externals = from_unix_timestamp sample_wire_externals"
  "aead_encrypt sample_digest_externals = aead_encrypt sample_wire_externals"
  "aead_decrypt sample_digest_externals = aead_decrypt sample_wire_externals"
  by (simp_all add: sample_digest_externals_def sample_wire_externals_def sample_mac_def fun_eq_iff)

lemma sample_digest_laws:
  "wire_laws sample_digest_externals" "aead_laws sample_digest_externals" "time_laws sample_digest_externals"
  "digest_laws sample_digest_externals"
proof -
  show "wire_laws sample_digest_externals" "aead_laws sample_digest_externals" "time_laws sample_digest_externals"
    using sample_wire_laws sample_wire_aead sample_wire_time
    by (simp_all add: wire_laws_def hex_laws_def aead_laws_def time_laws_def sample_digest_fields)
  have "visible (replicate 63 CHR ''a'' @ [CHR ''a''])" "visible (replicate 63 CHR ''a'' @ [CHR ''b''])" by code_simp+
  then show "digest_laws sample_digest_externals"
    by (simp add: digest_laws_def sample_digest_externals_def sample_digest_def)
qed

lemma sample_fetch_env_fields:
  "calm_client sample_fetch_env" "no_spool_faults (cl_store_io sample_fetch_env)"
  "no_io_faults (cl_crypto_io sample_fetch_env)"
  "cl_answer sample_fetch_env = served_by sample_digest_externals sample_link_codecs sample_link_io
     sample_serve_env sample_config whole whole"
  "calm_server sample_serve_env" "serves_in_full sample_serve_env" "node_named (sv_tree sample_serve_env)"
  "trusts sample_link_codecs sample_serve_env (sg_peers_path sample_config) (sw_disk (cw_peer sample_link_world))
     ''b'' sample_secret"
  "\<bar>unix_timestamp sample_digest_externals (sv_now sample_serve_env)
     - unix_timestamp sample_digest_externals (cl_now sample_fetch_env)\<bar> \<le> 300"
proof -
  show "calm_client sample_fetch_env" "no_spool_faults (cl_store_io sample_fetch_env)"
    "no_io_faults (cl_crypto_io sample_fetch_env)"
    using sample_link(2,5,6) by (simp_all add: calm_client_def reads_in_full_def sample_fetch_env_def sample_link_env_def)
  show "cl_answer sample_fetch_env = served_by sample_digest_externals sample_link_codecs sample_link_io
     sample_serve_env sample_config whole whole" by (simp add: sample_fetch_env_def)
  show "calm_server sample_serve_env" "serves_in_full sample_serve_env"
    using sample_link(3,4) by (simp_all add: calm_server_def serves_in_full_def sample_serve_env_def sample_env_def)
  have "plain_name ''a''" by code_simp
  then show "node_named (sv_tree sample_serve_env)" by (simp add: sample_serve_env_def sample_env_def)
  show "trusts sample_link_codecs sample_serve_env (sg_peers_path sample_config) (sw_disk (cw_peer sample_link_world))
     ''b'' sample_secret"
    using sample_link_trusts by (simp add: trusts_def sample_serve_env_def)
  show "\<bar>unix_timestamp sample_digest_externals (sv_now sample_serve_env)
     - unix_timestamp sample_digest_externals (cl_now sample_fetch_env)\<bar> \<le> 300"
    using sample_link_clocks by (simp add: sample_digest_fields sample_serve_env_def sample_fetch_env_def)
qed

lemma sample_sharing:
  "find_shared_file x sample_link_codecs sample_serve_env folder profile p w
    = find_shared_file x sample_server_codecs (sample_env ''3'') folder profile p w"
  by (simp add: find_shared_file_def server_export_manifest_def read_folder_def open_database_def sample_serve_env_def
      sample_link_codecs_def)

lemma sample_shared:
  "\<exists>shared wp. find_shared_file sample_digest_externals sample_link_codecs sample_serve_env (sg_folder_path sample_config)
     (sg_profile sample_config) (RelativePath ''a'') (cw_peer sample_link_world) = (Inr shared, wp)
   \<and> sf_size_bytes shared = 3"
proof -
  have "case find_shared_file sample_digest_externals sample_server_codecs (sample_env ''3'') ''/d'' sample_profile
      (RelativePath ''a'') sample_world of (Inl _, _) \<Rightarrow> False | (Inr shared, _) \<Rightarrow> sf_size_bytes shared = 3"
    by code_simp
  then show ?thesis by (auto simp: sample_config_def sample_link_world_def sample_sharing split: prod.splits sum.splits)
qed

lemma sample_old_file_there:
  "dk_files (sw_disk (cw_peer sample_link_world)) (path_push (sg_folder_path sample_config) (path_str (RelativePath ''a'')))
     = Some ''old''"
proof -
  have "dk_files (sw_disk sample_world) (path_push ''/d'' ''a'') = Some ''old''" by code_simp
  then show ?thesis by (simp add: sample_link_world_def sample_config_def)
qed

lemma sample_fetch_names:
  "sendable (RelativePath ''a'')" "(3 :: u64) = of_nat (length ''old'')" "length ''old'' < (2 :: nat) ^ 63"
  "hex_decode sample_digest_externals sample_secret = Inr (replicate 32 CHR ''k'')"
  "hmac_sha256 sample_digest_externals key payload \<noteq> None"
  "length (encode_relative_path (RelativePath ''a'')) < 20"
  "database_ok (sw_db (cw_peer sample_link_world))"
  "encrypted_download_path (cl_uuid sample_fetch_env) ''/c/new'' \<noteq> ''/c/new''"
proof -
  show "sendable (RelativePath ''a'')" "length (encode_relative_path (RelativePath ''a'')) < 20" by code_simp+
  show "hex_decode sample_digest_externals sample_secret = Inr (replicate 32 CHR ''k'')"
    using sample_link_secret by (simp add: sample_digest_fields)
  show "database_ok (sw_db (cw_peer sample_link_world))"
    using database_ok_empty by (simp add: sample_link_world_def sample_world_def)
  have "encrypted_download_path ''u'' ''/c/new'' \<noteq> ''/c/new''" by code_simp
  then show "encrypted_download_path (cl_uuid sample_fetch_env) ''/c/new'' \<noteq> ''/c/new''"
    by (simp add: sample_fetch_env_def sample_link_env_def)
qed (simp_all add: sample_digest_externals_def sample_mac_def)

definition sample_link_fetch :: "(peer_client_error + transferred_file) \<times> server_world client_world" where
  "sample_link_fetch = fetch_file_to_path sample_digest_externals sample_fetch_env ''http://10.0.0.2:80'' ''b'' sample_secret
     (RelativePath ''a'') 3 ''/c/new'' sample_link_world"

lemma sample_fetch_short:
  "length (pa_host address) < 20 \<Longrightarrow>
     length (encode_relative_path (RelativePath ''a'')) + length (pa_host address) + length ''b'' \<le> 10000"
  using sample_fetch_names(6) by simp

lemma sample_link_fetch_completes: "\<exists>t w'. sample_link_fetch = (Inr t, w')"
proof -
  obtain address where a: "peer_address_parse ''http://10.0.0.2:80'' = Inr address" "visible (pa_host address)"
    "length (pa_host address) < 20" by (rule sample_link_address)
  obtain shared wp where s: "find_shared_file sample_digest_externals sample_link_codecs sample_serve_env
     (sg_folder_path sample_config) (sg_profile sample_config) (RelativePath ''a'') (cw_peer sample_link_world)
     = (Inr shared, wp)" "sf_size_bytes shared = 3" using sample_shared by blast
  show ?thesis unfolding sample_link_fetch_def
    by (rule download_completes [OF sample_digest_laws(1,2,4,3) sample_fetch_names(5) sample_fetch_env_fields(4)
        sample_link(1,1,2) sample_fetch_env_fields(5,6,1,2) sample_fetch_names(4) sample_link_sizes(3)
        sample_old_file_there sample_fetch_names(3,2,1) sample_link_names(2) a(1,2) sample_fetch_short [OF a(3)]
        sample_fetch_env_fields(8,9) sample_fetch_names(7) sample_fetch_env_fields(7) s])
qed

theorem downloads_complete_witness: "\<exists>t w'. sample_link_fetch = (Inr t, w')"
proof -
  obtain address where a: "peer_address_parse ''http://10.0.0.2:80'' = Inr address" "visible (pa_host address)"
    "length (pa_host address) < 20" by (rule sample_link_address)
  obtain shared wp where s: "find_shared_file sample_digest_externals sample_link_codecs sample_serve_env
     (sg_folder_path sample_config) (sg_profile sample_config) (RelativePath ''a'') (cw_peer sample_link_world)
     = (Inr shared, wp)" "sf_size_bytes shared = 3" using sample_shared by blast
  show ?thesis unfolding sample_link_fetch_def
    by (rule downloads_complete [OF sample_digest_laws(1,2,4,3) sample_fetch_names(5) sample_fetch_env_fields(4)
        sample_link(1,1,2) sample_fetch_env_fields(5,6,1,2) sample_fetch_names(4) sample_link_sizes(3)
        sample_old_file_there sample_fetch_names(3,2,1) sample_link_names(2) a(1,2) sample_fetch_short [OF a(3)]
        sample_fetch_env_fields(8,9) sample_fetch_names(7) sample_fetch_env_fields(7) s])
qed

theorem downloads_arrive_witness:
  "dk_files (cw_disk (snd sample_link_fetch)) ''/c/new'' = Some ''old''"
proof -
  obtain t w' where fetched: "sample_link_fetch = (Inr t, w')" using sample_link_fetch_completes by blast
  have host: "visible (pa_host address)" if "peer_address_parse ''http://10.0.0.2:80'' = Inr address" for address
    using sample_link_names(4) by (simp add: that)
  from downloads_arrive [OF sample_digest_laws(1,2,4) sample_fetch_env_fields(4) sample_link(1,1,2)
      sample_fetch_env_fields(6,3) sample_fetch_names(4) sample_link_sizes(3) sample_old_file_there
      sample_fetch_names(3,1) sample_link_names(2) host sample_fetch_env_fields(8) sample_fetch_names(7)
      sample_fetch_env_fields(7) sample_fetch_names(8) fetched [unfolded sample_link_fetch_def]]
  show ?thesis by (simp add: fetched)
qed

end
