(* ===== verification/State_Schema.thy ===== *)
theory State_Schema
  imports Sync_Queue
begin

text \<open>
  \<open>state_db.rs\<close>, opening a database: the tables that \<open>migrate\<close> creates, the columns it adds
  to the tables of earlier versions, and the version it records. A database file is its
  tables with columns and rows; statements fail by number, and each is its own transaction,
  so a migration can stop between any two. The lemmas show that it never loses data, that an
  interrupted one is completed by the next, and that the constraints of the created tables
  are those under which the rest of the development works.
\<close>

section \<open>Tables\<close>

datatype sql_value = SqlNull | SqlInteger int | SqlText string

text \<open>
  A column with its \<open>CHECK\<close>; the default is a constant, \<open>NULL\<close> if none is given. The
  default \<open>unixepoch()\<close> is no constant.
\<close>

record column =
  cl_name :: string
  cl_not_null :: bool
  cl_default :: sql_value
  cl_check :: "sql_value \<Rightarrow> bool"

record table =
  tb_columns :: "column list"
  tb_rows :: "sql_value list list"

record database_file =
  df_tables :: "string \<Rightarrow> table option"

definition empty_file :: database_file where
  "empty_file = \<lparr>df_tables = (\<lambda>_. None)\<rparr>"

definition plain_column :: "string \<Rightarrow> column" where
  "plain_column name = \<lparr>cl_name = name, cl_not_null = False, cl_default = SqlNull, cl_check = (\<lambda>_. True)\<rparr>"

definition not_null :: "column \<Rightarrow> column" where
  "not_null c = c\<lparr>cl_not_null := True\<rparr>"

definition one_of :: "string list \<Rightarrow> sql_value \<Rightarrow> bool" where
  "one_of texts v \<longleftrightarrow> (case v of SqlText s \<Rightarrow> s \<in> set texts | _ \<Rightarrow> False)"

text \<open>A \<open>CHECK\<close> is also passed by \<open>NULL\<close>.\<close>

definition at_least_zero :: "sql_value \<Rightarrow> bool" where
  "at_least_zero v \<longleftrightarrow> (case v of SqlInteger n \<Rightarrow> 0 \<le> n | SqlNull \<Rightarrow> True | SqlText s \<Rightarrow> True)"

definition zero_or_one :: "sql_value \<Rightarrow> bool" where
  "zero_or_one v \<longleftrightarrow> (case v of SqlInteger n \<Rightarrow> n \<in> set [0, 1] | SqlNull \<Rightarrow> True | SqlText s \<Rightarrow> False)"

definition checked :: "(sql_value \<Rightarrow> bool) \<Rightarrow> column \<Rightarrow> column" where
  "checked check c = c\<lparr>cl_check := check\<rparr>"

definition with_default :: "sql_value \<Rightarrow> column \<Rightarrow> column" where
  "with_default v c = c\<lparr>cl_default := v\<rparr>"

definition metadata_columns :: "column list" where
  "metadata_columns = [not_null (plain_column ''key''), not_null (plain_column ''value'')]"

definition files_columns :: "column list" where
  "files_columns =
     [not_null (plain_column ''path''),
      checked (one_of [''file'', ''directory'']) (not_null (plain_column ''kind'')),
      checked at_least_zero (not_null (plain_column ''size_bytes'')),
      not_null (plain_column ''modified_at_unix''),
      plain_column ''content_hash'',
      not_null (plain_column ''block_hashes_json''),
      checked at_least_zero (not_null (plain_column ''generation'')),
      not_null (plain_column ''device_id''),
      checked zero_or_one (with_default (SqlInteger 0) (not_null (plain_column ''scan_missing''))),
      checked (one_of [''local_available'', ''unsynchronized_local_missing'', ''pending_upload'',
          ''pending_download'', ''skipped_folder_limit''])
        (with_default (SqlText ''local_available'') (not_null (plain_column ''sync_state''))),
      not_null (plain_column ''updated_at_unix'')]"

definition skipped_columns :: "column list" where
  "skipped_columns =
     [not_null (plain_column ''path''),
      checked (one_of [''folder_limit'']) (not_null (plain_column ''reason'')),
      checked at_least_zero (not_null (plain_column ''size_bytes'')),
      not_null (plain_column ''queued_at_unix''),
      not_null (plain_column ''updated_at_unix'')]"

definition operations_columns :: "column list" where
  "operations_columns =
     [not_null (plain_column ''id''),
      not_null (plain_column ''path''),
      checked (one_of [''upload_to_remote'', ''download_from_remote'', ''resolve_conflict'',
          ''repair_local_missing'', ''repair_remote_missing'', ''mode_blocked''])
        (not_null (plain_column ''kind'')),
      checked (one_of [''pending'', ''blocked'', ''done'', ''failed'']) (not_null (plain_column ''status'')),
      not_null (plain_column ''reason''),
      checked at_least_zero (plain_column ''local_size_bytes''),
      checked at_least_zero (plain_column ''remote_size_bytes''),
      plain_column ''local_content_hash'',
      plain_column ''remote_content_hash'',
      not_null (plain_column ''remote_device_id''),
      plain_column ''last_error'',
      checked at_least_zero (with_default (SqlInteger 0) (not_null (plain_column ''retry_count''))),
      plain_column ''started_at_unix'',
      plain_column ''finished_at_unix'',
      not_null (plain_column ''created_at_unix''),
      not_null (plain_column ''updated_at_unix'')]"

section \<open>Statements\<close>

definition put_table :: "string \<Rightarrow> table \<Rightarrow> database_file \<Rightarrow> database_file" where
  "put_table name t db = db\<lparr>df_tables := (df_tables db)(name \<mapsto> t)\<rparr>"

text \<open>\<open>CREATE TABLE IF NOT EXISTS\<close>\<close>

definition create_table :: "string \<Rightarrow> column list \<Rightarrow> database_file \<Rightarrow> string + database_file" where
  "create_table name columns db =
     (case df_tables db name of
        None \<Rightarrow> Inr (put_table name \<lparr>tb_columns = columns, tb_rows = []\<rparr> db)
      | Some _ \<Rightarrow> Inr db)"

definition table_info :: "string \<Rightarrow> database_file \<Rightarrow> string list" where
  "table_info name db =
     (case df_tables db name of None \<Rightarrow> [] | Some t \<Rightarrow> map cl_name (tb_columns t))"

text \<open>
  \<open>ALTER TABLE ADD COLUMN\<close>: the rows get the column's default. SQLite refuses a column whose
  name is there in any case, and a \<open>NOT NULL\<close> column with the default \<open>NULL\<close>.
\<close>

definition add_column :: "string \<Rightarrow> column \<Rightarrow> database_file \<Rightarrow> string + database_file" where
  "add_column name c db =
     (case df_tables db name of
        None \<Rightarrow> Inl (''no such table: '' @ name)
      | Some t \<Rightarrow>
          if to_ascii_lowercase (cl_name c) \<in> set (map (to_ascii_lowercase \<circ> cl_name) (tb_columns t))
          then Inl (''duplicate column name: '' @ cl_name c)
          else if cl_not_null c \<and> cl_default c = SqlNull
          then Inl ''Cannot add a NOT NULL column with default value NULL''
          else Inr (put_table name \<lparr>tb_columns = tb_columns t @ [c],
                 tb_rows = map (\<lambda>row. row @ [cl_default c]) (tb_rows t)\<rparr> db))"

text \<open>The upsert of the version: the key is the first column of the table, the value its second.\<close>

definition version_key :: sql_value where
  "version_key = SqlText ''schema_version''"

definition record_version :: "string \<Rightarrow> database_file \<Rightarrow> string + database_file" where
  "record_version version db =
     (case df_tables db ''metadata'' of
        None \<Rightarrow> Inl ''no such table: metadata''
      | Some t \<Rightarrow> Inr (put_table ''metadata'' (t\<lparr>tb_rows :=
          (if list_ex (\<lambda>row. hd row = version_key) (tb_rows t)
           then map (\<lambda>row. if hd row = version_key then row[1 := SqlText version] else row) (tb_rows t)
           else tb_rows t @ [[version_key, SqlText version]])\<rparr>) db))"

section \<open>Migration\<close>

definition schema_version :: int where
  "schema_version = 5"

datatype migration_step =
    Pragma string
  | CreateTable string "column list"
  | EnsureColumn string column
  | RecordVersion string

definition ensured_columns :: "(string \<times> column) list" where
  "ensured_columns =
     [(''files'', with_default (SqlText ''local_available'') (not_null (plain_column ''sync_state''))),
      (''sync_operations'', plain_column ''local_content_hash''),
      (''sync_operations'', plain_column ''remote_content_hash''),
      (''sync_operations'', plain_column ''last_error''),
      (''sync_operations'', with_default (SqlInteger 0) (not_null (plain_column ''retry_count''))),
      (''sync_operations'', plain_column ''started_at_unix''),
      (''sync_operations'', plain_column ''finished_at_unix'')]"

definition migration_steps :: "migration_step list" where
  "migration_steps =
     [Pragma ''journal_mode = WAL'', Pragma ''synchronous = NORMAL'',
      CreateTable ''metadata'' metadata_columns, CreateTable ''files'' files_columns,
      CreateTable ''skipped_files'' skipped_columns, CreateTable ''sync_operations'' operations_columns]
     @ map (\<lambda>(name, c). EnsureColumn name c) ensured_columns
     @ [RecordVersion (show_int schema_version)]"

text \<open>One statement: it fails with a fault of the database, or has its effect or its error.\<close>

definition sql :: "string option \<Rightarrow> ('s \<Rightarrow> string + 's) \<Rightarrow> ('s, core_error, unit) stateful" where
  "sql fault statement s =
     (case fault of
        Some msg \<Rightarrow> (Inl (StateDatabaseError msg), s)
      | None \<Rightarrow> (case statement s of Inl msg \<Rightarrow> (Inl (StateDatabaseError msg), s) | Inr s' \<Rightarrow> (Inr (), s')))"

definition ensure_column ::
  "string option \<Rightarrow> string option \<Rightarrow> string \<Rightarrow> column \<Rightarrow> (database_file, core_error, unit) stateful" where
  "ensure_column info_fault alter_fault name c =
     bind_op (sql info_fault Inr) (\<lambda>_.
     bind_op (read_op (\<lambda>db. Inr (table_info name db))) (\<lambda>names.
       if cl_name c \<in> set names then lift_result (Inr ())
       else sql alter_fault (add_column name c)))"

text \<open>The faults of the k-th step are numbered \<open>2 * k\<close> and \<open>2 * k + 1\<close>.\<close>

fun run_step ::
  "(nat \<Rightarrow> string option) \<Rightarrow> nat \<Rightarrow> migration_step \<Rightarrow> (database_file, core_error, unit) stateful" where
  "run_step faults k (Pragma p) = sql (faults (2 * k)) Inr"
| "run_step faults k (CreateTable name columns) = sql (faults (2 * k)) (create_table name columns)"
| "run_step faults k (EnsureColumn name c) = ensure_column (faults (2 * k)) (faults (2 * k + 1)) name c"
| "run_step faults k (RecordVersion version) = sql (faults (2 * k)) (record_version version)"

fun run_steps ::
  "(nat \<Rightarrow> string option) \<Rightarrow> nat \<Rightarrow> migration_step list \<Rightarrow> (database_file, core_error, unit) stateful" where
  "run_steps faults k [] = lift_result (Inr ())"
| "run_steps faults k (st # sts) = bind_op (run_step faults k st) (\<lambda>_. run_steps faults (k + 1) sts)"

definition migrate :: "(nat \<Rightarrow> string option) \<Rightarrow> (database_file, core_error, unit) stateful" where
  "migrate faults = run_steps faults 0 migration_steps"

text \<open>\<open>open\<close> creates a missing file; \<open>in_memory\<close> starts with the empty one.\<close>

definition open_database_file ::
  "string option \<Rightarrow> (nat \<Rightarrow> string option) \<Rightarrow> (database_file option, core_error, unit) stateful" where
  "open_database_file connect_fault faults disk_file =
     (case connect_fault of
        Some msg \<Rightarrow> (Inl (StateDatabaseError msg), disk_file)
      | None \<Rightarrow>
          (case migrate faults (case disk_file of None \<Rightarrow> empty_file | Some db \<Rightarrow> db) of
             (r, db) \<Rightarrow> (r, Some db)))"

definition in_memory_database :: "(nat \<Rightarrow> string option) \<Rightarrow> core_error + database_file" where
  "in_memory_database faults =
     (case migrate faults empty_file of (r, db) \<Rightarrow> and_then r (\<lambda>_. Inr db))"

section \<open>Interrupted sequences\<close>

text \<open>
  Steps that can be repeated: a step that was done stays done, whatever other steps do, and
  doing it again changes nothing. Then a sequence that was stopped anywhere is completed by
  running it again from its start. Steps that fail have no result.
\<close>

fun run_all :: "('op \<Rightarrow> 's \<Rightarrow> 's option) \<Rightarrow> 'op list \<Rightarrow> 's \<Rightarrow> 's option" where
  "run_all effect [] s = Some s"
| "run_all effect (q # qs) s = (case effect q s of None \<Rightarrow> None | Some t \<Rightarrow> run_all effect qs t)"

lemma run_all_append:
  "run_all effect (ps @ qs) s = (case run_all effect ps s of None \<Rightarrow> None | Some t \<Rightarrow> run_all effect qs t)"
  by (induction ps arbitrary: s) (auto split: option.split)

locale resumable =
  fixes effect :: "'op \<Rightarrow> 's \<Rightarrow> 's option" and steps :: "'op list"
  assumes done_once: "q \<in> set steps \<Longrightarrow> effect q s = Some t \<Longrightarrow> effect q t = Some t"
    and done_stays: "p \<in> set steps \<Longrightarrow> q \<in> set steps \<Longrightarrow> effect p s = Some s \<Longrightarrow> effect q s = Some t
        \<Longrightarrow> effect p t = Some t"
begin

lemma all_done_stay:
  "set qs \<subseteq> set steps \<Longrightarrow> p \<in> set steps \<Longrightarrow> effect p s = Some s \<Longrightarrow> run_all effect qs s = Some t
     \<Longrightarrow> effect p t = Some t"
  by (induction qs arbitrary: s) (auto split: option.splits dest: done_stays)

lemma all_done:
  "set qs \<subseteq> set steps \<Longrightarrow> run_all effect qs s = Some t \<Longrightarrow> p \<in> set qs \<Longrightarrow> effect p t = Some t"
proof (induction qs arbitrary: s)
  case (Cons q qs)
  then obtain u where u: "effect q s = Some u" "run_all effect qs u = Some t"
    by (auto split: option.splits)
  show ?case
  proof (cases "p = q")
    case True
    have "effect q u = Some u" using Cons.prems(1) u(1) by (simp add: done_once)
    then show ?thesis unfolding True by (rule all_done_stay [rotated 2]) (use Cons.prems(1) u(2) in auto)
  next
    case False
    with Cons u show ?thesis by auto
  qed
qed simp

lemma done_again: "(\<And>p. p \<in> set qs \<Longrightarrow> effect p t = Some t) \<Longrightarrow> run_all effect qs t = Some t"
  by (induction qs) auto

lemma run_again: "set qs \<subseteq> set steps \<Longrightarrow> run_all effect qs s = Some t \<Longrightarrow> run_all effect qs t = Some t"
  by (rule done_again) (rule all_done)

lemma resume:
  assumes "run_all effect steps s = Some t" and "run_all effect (take k steps) s = Some u"
  shows "run_all effect steps u = Some t"
proof -
  have "run_all effect (take k steps) u = Some u"
    by (rule run_again [OF set_take_subset assms(2)])
  with assms run_all_append [of effect "take k steps" "drop k steps"] show ?thesis by simp
qed

end

section \<open>A migration step by step\<close>

definition step_effect :: "migration_step \<Rightarrow> database_file \<Rightarrow> database_file option" where
  "step_effect st db = (case run_step (\<lambda>_. None) 0 st db of (Inl _, _) \<Rightarrow> None | (Inr _, db') \<Rightarrow> Some db')"

lemma sql_calm: "sql None f s = (case f s of Inl msg \<Rightarrow> (Inl (StateDatabaseError msg), s) | Inr s' \<Rightarrow> (Inr (), s'))"
  by (simp add: sql_def)

lemma step_effect_simps:
  "step_effect (Pragma p) db = Some db"
  "step_effect (CreateTable name columns) db =
     Some (if df_tables db name = None then put_table name \<lparr>tb_columns = columns, tb_rows = []\<rparr> db else db)"
  "step_effect (EnsureColumn name c) db =
     (if cl_name c \<in> set (table_info name db) then Some db
      else (case add_column name c db of Inl _ \<Rightarrow> None | Inr db' \<Rightarrow> Some db'))"
  "step_effect (RecordVersion version) db =
     (case record_version version db of Inl _ \<Rightarrow> None | Inr db' \<Rightarrow> Some db')"
  by (auto simp: step_effect_def sql_calm create_table_def ensure_column_def bind_op_def
      split: option.split sum.split)

text \<open>A step that fails, by a fault or by itself, has changed nothing.\<close>

lemma run_step_cases:
  assumes "run_step faults k st db = (r, db')"
  shows "(is_ok r \<and> step_effect st db = Some db') \<or> (\<not> is_ok r \<and> db' = db)"
  using assms
  by (cases st) (auto simp: step_effect_simps sql_def create_table_def ensure_column_def bind_op_def
      split: option.splits sum.splits if_splits)

lemma run_steps_prefix:
  "run_steps faults k sts db = (r, db') \<Longrightarrow>
     \<exists>j. run_all step_effect (take j sts) db = Some db' \<and> (is_ok r \<longrightarrow> take j sts = sts)"
proof (induction sts arbitrary: k db)
  case (Cons st sts)
  obtain q db1 where q: "run_step faults k st db = (q, db1)" by fastforce
  show ?case
  proof (cases q)
    case (Inl e)
    with Cons.prems q run_step_cases [OF q] have "db' = db" "\<not> is_ok r" by (auto simp: bind_op_def)
    then show ?thesis by (intro exI [of _ 0]) simp
  next
    case (Inr u)
    with Cons.prems q have "run_steps faults (k + 1) sts db1 = (r, db')" by (simp add: bind_op_def)
    from Cons.IH [OF this] obtain j where
      "run_all step_effect (take j sts) db1 = Some db'" "is_ok r \<longrightarrow> take j sts = sts" by blast
    with run_step_cases [OF q] Inr show ?thesis by (intro exI [of _ "Suc j"]) simp
  qed
qed (auto intro: exI [of _ 0])

lemma run_step_calm: "run_step (\<lambda>_. None) k st db = run_step (\<lambda>_. None) 0 st db"
  by (cases st) simp_all

lemma run_steps_calm:
  "(run_steps (\<lambda>_. None) k sts db = (Inr (), db')) = (run_all step_effect sts db = Some db')"
proof (induction sts arbitrary: k db)
  case (Cons st sts)
  obtain q db1 where q: "run_step (\<lambda>_. None) 0 st db = (q, db1)" by fastforce
  then have "run_step (\<lambda>_. None) k st db = (q, db1)" by (subst run_step_calm)
  with q Cons.IH show ?case by (cases q) (auto simp: bind_op_def step_effect_def)
qed simp

lemma put_table_tables [simp]: "df_tables (put_table name t db) n = (if n = name then Some t else df_tables db n)"
  by (simp add: put_table_def)

lemma put_table_same: "df_tables db name = Some t \<Longrightarrow> put_table name t db = db"
  by (simp add: put_table_def fun_upd_idem)

lemma add_column_Inr:
  "add_column name c db = Inr db' \<longleftrightarrow> (\<exists>t. df_tables db name = Some t
     \<and> to_ascii_lowercase (cl_name c) \<notin> set (map (to_ascii_lowercase \<circ> cl_name) (tb_columns t))
     \<and> \<not> (cl_not_null c \<and> cl_default c = SqlNull)
     \<and> db' = put_table name \<lparr>tb_columns = tb_columns t @ [c],
           tb_rows = map (\<lambda>row. row @ [cl_default c]) (tb_rows t)\<rparr> db)"
  by (auto simp: add_column_def split: option.splits if_splits)

lemma record_version_done:
  "(record_version version db = Inr db) =
     (\<exists>t. df_tables db ''metadata'' = Some t \<and> list_ex (\<lambda>row. hd row = version_key) (tb_rows t)
        \<and> list_all (\<lambda>row. hd row = version_key \<longrightarrow> row[1 := SqlText version] = row) (tb_rows t))"
proof (cases "df_tables db ''metadata''")
  case (Some t)
  let ?new = "if list_ex (\<lambda>row. hd row = version_key) (tb_rows t)
    then map (\<lambda>row. if hd row = version_key then row[1 := SqlText version] else row) (tb_rows t)
    else tb_rows t @ [[version_key, SqlText version]]"
  have "record_version version db = Inr db \<longleftrightarrow> put_table ''metadata'' (t\<lparr>tb_rows := ?new\<rparr>) db = db"
    using Some by (simp add: record_version_def)
  also have "\<dots> \<longleftrightarrow> ?new = tb_rows t"
  proof
    assume "put_table ''metadata'' (t\<lparr>tb_rows := ?new\<rparr>) db = db"
    then have "df_tables (put_table ''metadata'' (t\<lparr>tb_rows := ?new\<rparr>) db) ''metadata'' = Some t" using Some by simp
    then show "?new = tb_rows t" by (cases t) (simp split: if_splits)
  qed (use Some in \<open>simp add: put_table_same\<close>)
  also have "\<dots> \<longleftrightarrow> list_ex (\<lambda>row. hd row = version_key) (tb_rows t)
        \<and> list_all (\<lambda>row. hd row = version_key \<longrightarrow> row[1 := SqlText version] = row) (tb_rows t)"
  proof (cases "list_ex (\<lambda>row. hd row = version_key) (tb_rows t)")
    case True
    then have "?new = tb_rows t \<longleftrightarrow>
        map (\<lambda>row. if hd row = version_key then row[1 := SqlText version] else row) (tb_rows t) = map id (tb_rows t)"
      by simp
    then show ?thesis unfolding map_eq_conv using True by (auto simp: list_all_iff)
  qed simp
  finally show ?thesis using Some by simp
qed (simp add: record_version_def)

lemma hd_list_update: "hd (row[Suc n := v]) = hd row"
  by (cases row) simp_all

lemma version_recorded:
  assumes "record_version version db = Inr db'"
  shows "record_version version db' = Inr db'"
proof -
  from assms obtain t where t: "df_tables db ''metadata'' = Some t"
    by (auto simp: record_version_def split: option.splits)
  let ?keyed = "\<lambda>row. hd row = version_key"
  let ?updated = "map (\<lambda>row. if ?keyed row then row[1 := SqlText version] else row) (tb_rows t)"
  show ?thesis
  proof (cases "list_ex ?keyed (tb_rows t)")
    case True
    from True obtain row where row: "row \<in> set (tb_rows t)" "?keyed row" by (auto simp: list_ex_iff)
    then have mem: "row[Suc 0 := SqlText version] \<in> set ?updated" by (auto simp: image_iff intro!: bexI [of _ row])
    have "list_ex ?keyed ?updated"
      unfolding list_ex_iff by (rule bexI [OF _ mem]) (rule trans [OF hd_list_update row(2)])
    moreover have "df_tables db' ''metadata'' = Some (t\<lparr>tb_rows := ?updated\<rparr>)"
      using assms t True by (auto simp: record_version_def)
    ultimately show ?thesis by (auto simp: record_version_done list_all_iff)
  next
    case False
    with assms t have "df_tables db' ''metadata'' = Some (t\<lparr>tb_rows := tb_rows t @ [[version_key, SqlText version]]\<rparr>)"
      by (auto simp: record_version_def)
    with False show ?thesis by (auto simp: record_version_done list_all_iff list_ex_iff)
  qed
qed

lemma column_added: "add_column name c db = Inr db' \<Longrightarrow> cl_name c \<in> set (table_info name db')"
  by (auto simp: add_column_Inr table_info_def)

lemma ensured_tables: "EnsureColumn name c \<in> set migration_steps \<Longrightarrow> name \<noteq> ''metadata''"
  by (auto simp: migration_steps_def ensured_columns_def)

lemma tables_stay:
  assumes "step_effect q db = Some db'" and "df_tables db name = Some t"
  shows "\<exists>t'. df_tables db' name = Some t' \<and> set (map cl_name (tb_columns t)) \<subseteq> set (map cl_name (tb_columns t'))"
  using assms
  by (cases q) (auto simp: step_effect_simps add_column_Inr record_version_def
      split: if_splits sum.splits option.splits)

lemma columns_stay:
  "step_effect q db = Some db' \<Longrightarrow> set (table_info name db) \<subseteq> set (table_info name db')"
  using tables_stay [of q db db' name]
  by (cases "df_tables db name"; cases "df_tables db' name") (simp_all add: table_info_def)

lemma metadata_stays:
  assumes "q \<in> set migration_steps" and "\<And>version. q \<noteq> RecordVersion version"
    and "step_effect q db = Some db'" and "df_tables db ''metadata'' = Some t"
  shows "df_tables db' ''metadata'' = Some t"
proof (cases q)
  case (EnsureColumn name c)
  with assms(1) ensured_tables have "name \<noteq> ''metadata''" by simp
  with EnsureColumn assms(3,4) show ?thesis
    by (auto simp: step_effect_simps add_column_Inr split: if_splits sum.splits)
qed (use assms in \<open>auto simp: step_effect_simps split: if_splits\<close>)

lemma only_version: "RecordVersion version \<in> set migration_steps \<Longrightarrow> version = show_int schema_version"
  by (auto simp: migration_steps_def)

lemma record_version_metadata:
  "df_tables db' ''metadata'' = df_tables db ''metadata'' \<Longrightarrow> record_version version db = Inr db
     \<Longrightarrow> record_version version db' = Inr db'"
  by (simp add: record_version_done)

lemma done_record:
  "step_effect (RecordVersion version) db = Some db \<longleftrightarrow> record_version version db = Inr db"
  by (auto simp: step_effect_simps split: sum.split)

lemma done_create: "step_effect (CreateTable name columns) db = Some db \<longleftrightarrow> df_tables db name \<noteq> None"
proof -
  have "put_table name t db \<noteq> db" if "df_tables db name = None" for t
    using that put_table_tables [of name t db name] by (metis option.distinct(1))
  then show ?thesis by (simp add: step_effect_simps)
qed

lemma done_ensure: "step_effect (EnsureColumn name c) db = Some db \<longleftrightarrow> cl_name c \<in> set (table_info name db)"
  using column_added [of name c db db] by (auto simp: step_effect_simps split: sum.splits)

interpretation migration: resumable step_effect migration_steps
proof
  fix q db db'
  assume "step_effect q db = Some db'"
  then show "step_effect q db' = Some db'"
    by (cases q) (auto simp: done_create done_ensure done_record column_added step_effect_simps
        split: if_splits sum.splits dest: version_recorded)
next
  fix p q db db'
  assume pq: "p \<in> set migration_steps" "q \<in> set migration_steps" "step_effect p db = Some db"
    and step: "step_effect q db = Some db'"
  show "step_effect p db' = Some db'"
  proof (cases p)
    case (Pragma pragma)
    then show ?thesis by (simp add: step_effect_simps)
  next
    case (CreateTable name columns)
    with pq(3) obtain t where "df_tables db name = Some t" by (auto simp: done_create)
    from tables_stay [OF step this] show ?thesis by (auto simp: CreateTable done_create)
  next
    case (EnsureColumn name c)
    with pq(3) columns_stay [OF step] show ?thesis by (auto simp: done_ensure)
  next
    case (RecordVersion version)
    with pq(3) have recorded: "record_version version db = Inr db" by (simp add: done_record)
    then obtain t where t: "df_tables db ''metadata'' = Some t" by (auto simp: record_version_done)
    show ?thesis
    proof (cases "\<exists>v. q = RecordVersion v")
      case True
      with pq(1,2) RecordVersion only_version have "q = RecordVersion version" by auto
      with step recorded have "db' = db" by (simp add: step_effect_simps)
      with pq(3) show ?thesis by simp
    next
      case False
      with metadata_stays [OF pq(2) _ step t] t have "df_tables db' ''metadata'' = df_tables db ''metadata''" by simp
      from record_version_metadata [OF this recorded] show ?thesis by (simp add: RecordVersion done_record)
    qed
  qed
qed

lemma migrate_calm: "migrate (\<lambda>_. None) db = (Inr (), db') \<longleftrightarrow> run_all step_effect migration_steps db = Some db'"
  by (simp add: migrate_def run_steps_calm)

lemma migrate_prefix:
  "migrate faults db = (r, db') \<Longrightarrow> \<exists>j. run_all step_effect (take j migration_steps) db = Some db'
     \<and> (is_ok r \<longrightarrow> take j migration_steps = migration_steps)"
  unfolding migrate_def by (rule run_steps_prefix)

section \<open>No data is lost\<close>

text \<open>A table has got columns, and its rows the defaults of these.\<close>

definition extends :: "table \<Rightarrow> table \<Rightarrow> bool" where
  "extends t t' \<longleftrightarrow> (\<exists>added. t' = \<lparr>tb_columns = tb_columns t @ added,
     tb_rows = map (\<lambda>row. row @ map cl_default added) (tb_rows t)\<rparr>)"

lemma extends_refl: "extends t t"
  by (cases t) (auto simp: extends_def intro!: exI [of _ "[]"])

lemma extends_trans: "extends t u \<Longrightarrow> extends u v \<Longrightarrow> extends t v"
  by (force simp: extends_def)

definition data_kept :: "database_file \<Rightarrow> database_file \<Rightarrow> bool" where
  "data_kept db db' \<longleftrightarrow> (\<forall>name t. name \<noteq> ''metadata'' \<longrightarrow> df_tables db name = Some t
     \<longrightarrow> (\<exists>t'. df_tables db' name = Some t' \<and> extends t t'))"

interpretation kept_data: frame_condition data_kept
  by unfold_locales (auto simp: data_kept_def extends_refl, meson extends_trans)

lemma step_data_kept: "step_effect q db = Some db' \<Longrightarrow> data_kept db db'"
  by (cases q) (auto simp: data_kept_def step_effect_simps add_column_Inr record_version_def extends_refl
      split: if_splits sum.splits option.splits, auto simp: extends_def)

lemma run_all_data_kept: "run_all step_effect qs db = Some db' \<Longrightarrow> data_kept db db'"
proof (induction qs arbitrary: db)
  case (Cons q qs)
  then show ?case by (auto split: option.splits intro: kept_data.le_trans step_data_kept)
qed (simp add: kept_data.le_refl)

section \<open>The schema is complete\<close>

definition current_schema :: "(string \<times> column list) list" where
  "current_schema = [(''metadata'', metadata_columns), (''files'', files_columns),
     (''skipped_files'', skipped_columns), (''sync_operations'', operations_columns)]"

text \<open>
  A table of an earlier version has no other columns than the current one, and lacks none but
  those the migration adds.
\<close>

definition upgradable_table :: "string \<Rightarrow> column list \<Rightarrow> table \<Rightarrow> bool" where
  "upgradable_table name columns t \<longleftrightarrow>
     set (map cl_name (tb_columns t)) \<subseteq> set (map cl_name columns)
     \<and> set (map cl_name columns) \<subseteq> set (map cl_name (tb_columns t))
         \<union> {cl_name c |c. (name, c) \<in> set ensured_columns}"

definition upgradable :: "database_file \<Rightarrow> bool" where
  "upgradable db \<longleftrightarrow> list_all (\<lambda>(name, columns).
     case df_tables db name of None \<Rightarrow> True | Some t \<Rightarrow> upgradable_table name columns t) current_schema"

definition schema_complete :: "database_file \<Rightarrow> bool" where
  "schema_complete db \<longleftrightarrow> list_all (\<lambda>(name, columns).
     set (table_info name db) = set (map cl_name columns)) current_schema
     \<and> record_version (show_int schema_version) db = Inr db"

lemma upgradableD:
  "upgradable db \<Longrightarrow> (name, columns) \<in> set current_schema \<Longrightarrow> df_tables db name = Some t
     \<Longrightarrow> upgradable_table name columns t"
  by (auto simp: upgradable_def list_all_iff)

lemma schema_distinct:
  "(name, columns) \<in> set current_schema \<Longrightarrow> (name, columns') \<in> set current_schema \<Longrightarrow> columns' = columns"
proof -
  have "distinct (map fst current_schema)" by code_simp
  then show "(name, columns) \<in> set current_schema \<Longrightarrow> (name, columns') \<in> set current_schema \<Longrightarrow> columns' = columns"
    by (metis eq_key_imp_eq_value)
qed

lemma upgradable_put:
  assumes "upgradable db" and "\<And>columns. (name, columns) \<in> set current_schema \<Longrightarrow> upgradable_table name columns t"
  shows "upgradable (put_table name t db)"
  unfolding upgradable_def list_all_iff
proof (intro ballI, clarify)
  fix n columns
  assume n: "(n, columns) \<in> set current_schema"
  show "case df_tables (put_table name t db) n of None \<Rightarrow> True | Some u \<Rightarrow> upgradable_table n columns u"
  proof (cases "n = name")
    case True
    with n assms(2) show ?thesis by simp
  next
    case False
    with upgradableD [OF assms(1) n] show ?thesis by (simp split: option.split)
  qed
qed

lemma schema_names_lowercase:
  "(name, columns) \<in> set current_schema \<Longrightarrow> n \<in> set (map cl_name columns) \<Longrightarrow> to_ascii_lowercase n = n"
proof -
  have "list_all (\<lambda>(name, columns). list_all (\<lambda>n. to_ascii_lowercase n = n) (map cl_name columns)) current_schema"
    by code_simp
  then show "(name, columns) \<in> set current_schema \<Longrightarrow> n \<in> set (map cl_name columns) \<Longrightarrow> to_ascii_lowercase n = n"
    by (auto simp: list_all_iff)
qed

lemma ensured_in_schema:
  assumes "(name, c) \<in> set ensured_columns"
  obtains columns where "(name, columns) \<in> set current_schema" "cl_name c \<in> set (map cl_name columns)"
    "\<not> (cl_not_null c \<and> cl_default c = SqlNull)"
proof -
  have "list_all (\<lambda>(name, c). list_ex (\<lambda>(n, columns). n = name \<and> cl_name c \<in> set (map cl_name columns)
      \<and> \<not> (cl_not_null c \<and> cl_default c = SqlNull)) current_schema) ensured_columns" by code_simp
  with assms that show thesis by (fastforce simp: list_all_iff list_ex_iff)
qed

lemma created_upgradable: "upgradable_table name columns \<lparr>tb_columns = columns, tb_rows = rows\<rparr>"
  by (auto simp: upgradable_table_def)

lemma create_step:
  assumes "upgradable db" and "(name, columns) \<in> set current_schema"
  shows "\<exists>db'. step_effect (CreateTable name columns) db = Some db' \<and> upgradable db'
    \<and> insert name (dom (df_tables db)) \<subseteq> dom (df_tables db')"
proof (cases "df_tables db name")
  case None
  have "upgradable (put_table name \<lparr>tb_columns = columns, tb_rows = []\<rparr> db)"
    using assms(1) by (rule upgradable_put) (use schema_distinct [OF assms(2)] created_upgradable in blast)
  with None show ?thesis by (auto simp: step_effect_simps)
next
  case (Some t)
  with assms(1) show ?thesis by (auto simp: step_effect_simps)
qed

lemma ensure_step:
  assumes "upgradable db" and "(name, c) \<in> set ensured_columns" and "df_tables db name = Some t"
  shows "\<exists>db'. step_effect (EnsureColumn name c) db = Some db' \<and> upgradable db'
    \<and> dom (df_tables db) \<subseteq> dom (df_tables db')"
proof (cases "cl_name c \<in> set (table_info name db)")
  case True
  with assms show ?thesis by (simp add: step_effect_simps)
next
  case False
  obtain columns where c: "(name, columns) \<in> set current_schema" "cl_name c \<in> set (map cl_name columns)"
    "\<not> (cl_not_null c \<and> cl_default c = SqlNull)" using ensured_in_schema [OF assms(2)] .
  note old = upgradableD [OF assms(1) c(1) assms(3)]
  have "to_ascii_lowercase (cl_name c) \<notin> set (map (to_ascii_lowercase \<circ> cl_name) (tb_columns t))"
  proof
    assume "to_ascii_lowercase (cl_name c) \<in> set (map (to_ascii_lowercase \<circ> cl_name) (tb_columns t))"
    then obtain d where d: "d \<in> set (tb_columns t)" "to_ascii_lowercase (cl_name d) = to_ascii_lowercase (cl_name c)"
      unfolding set_map comp_def by (metis (no_types, lifting) imageE)
    then have "cl_name d \<in> set (map cl_name columns)" using old unfolding upgradable_table_def by auto
    with d(2) schema_names_lowercase [OF c(1)] c(2) have "cl_name d = cl_name c" by metis
    with d(1) have "cl_name c \<in> cl_name ` set (tb_columns t)" by (metis imageI)
    with False assms(3) show False by (simp add: table_info_def)
  qed
  with assms(3) c(3) have added: "add_column name c db = Inr (put_table name \<lparr>tb_columns = tb_columns t @ [c],
      tb_rows = map (\<lambda>row. row @ [cl_default c]) (tb_rows t)\<rparr> db)" by (auto simp: add_column_Inr)
  have "upgradable_table name columns \<lparr>tb_columns = tb_columns t @ [c], tb_rows = rows\<rparr>" for rows
    using old c(2) by (auto simp: upgradable_table_def)
  then have "upgradable (put_table name \<lparr>tb_columns = tb_columns t @ [c],
      tb_rows = map (\<lambda>row. row @ [cl_default c]) (tb_rows t)\<rparr> db)"
    using schema_distinct [OF c(1)] by (intro upgradable_put [OF assms(1)]) blast
  with False added show ?thesis by (auto simp: step_effect_simps)
qed

lemma create_steps:
  assumes "upgradable db" and "set sch \<subseteq> set current_schema"
  shows "\<exists>db'. run_all step_effect (map (\<lambda>(n, cs). CreateTable n cs) sch) db = Some db' \<and> upgradable db'
    \<and> dom (df_tables db) \<union> fst ` set sch \<subseteq> dom (df_tables db')"
  using assms
proof (induction sch arbitrary: db)
  case (Cons nc sch)
  obtain name columns where nc: "nc = (name, columns)" by fastforce
  with Cons.prems have "(name, columns) \<in> set current_schema" by simp
  from create_step [OF Cons.prems(1) this] obtain db1 where one:
    "step_effect (CreateTable name columns) db = Some db1" "upgradable db1"
    "insert name (dom (df_tables db)) \<subseteq> dom (df_tables db1)" by blast
  have "set sch \<subseteq> set current_schema" using Cons.prems(2) by simp
  from Cons.IH [OF one(2) this] obtain db' where
    "run_all step_effect (map (\<lambda>(n, cs). CreateTable n cs) sch) db1 = Some db'" "upgradable db'"
    "dom (df_tables db1) \<union> fst ` set sch \<subseteq> dom (df_tables db')" by blast
  with one nc show ?case by (intro exI [of _ db']) auto
qed simp

lemma ensure_steps:
  assumes "upgradable db" and "set es \<subseteq> set ensured_columns" and "fst ` set es \<subseteq> dom (df_tables db)"
  shows "\<exists>db'. run_all step_effect (map (\<lambda>(n, c). EnsureColumn n c) es) db = Some db' \<and> upgradable db'
    \<and> dom (df_tables db) \<subseteq> dom (df_tables db')"
  using assms
proof (induction es arbitrary: db)
  case (Cons nc es)
  obtain name c where nc: "nc = (name, c)" by fastforce
  with Cons.prems obtain t where c: "(name, c) \<in> set ensured_columns" "df_tables db name = Some t" by auto
  from ensure_step [OF Cons.prems(1) c] obtain db1 where one:
    "step_effect (EnsureColumn name c) db = Some db1" "upgradable db1"
    "dom (df_tables db) \<subseteq> dom (df_tables db1)" by blast
  have es: "set es \<subseteq> set ensured_columns" using Cons.prems(2) by simp
  have "fst ` set es \<subseteq> dom (df_tables db)" using Cons.prems(3) by simp
  from Cons.IH [OF one(2) es subset_trans [OF this one(3)]] obtain db' where
    "run_all step_effect (map (\<lambda>(n, c). EnsureColumn n c) es) db1 = Some db'" "upgradable db'"
    "dom (df_tables db1) \<subseteq> dom (df_tables db')" by blast
  with one nc show ?case by (intro exI [of _ db']) auto
qed simp

lemma ensured_tables_in_schema: "fst ` set ensured_columns \<subseteq> fst ` set current_schema"
  by (auto simp: ensured_columns_def current_schema_def)

lemma steps_split:
  "migration_steps = [Pragma ''journal_mode = WAL'', Pragma ''synchronous = NORMAL'']
     @ map (\<lambda>(n, cs). CreateTable n cs) current_schema @ map (\<lambda>(n, c). EnsureColumn n c) ensured_columns
     @ [RecordVersion (show_int schema_version)]"
  by (simp add: migration_steps_def current_schema_def)

lemma record_step:
  assumes "upgradable db" and "df_tables db ''metadata'' = Some t"
  shows "\<exists>db'. step_effect (RecordVersion version) db = Some db' \<and> upgradable db'
    \<and> dom (df_tables db) \<subseteq> dom (df_tables db')"
proof -
  have "upgradable (put_table ''metadata'' (t\<lparr>tb_rows := rows\<rparr>) db)" for rows
    using assms(1) by (rule upgradable_put)
      (use upgradableD [OF assms(1) _ assms(2)] in \<open>simp add: upgradable_table_def\<close>)
  with assms(2) show ?thesis by (auto simp: step_effect_simps record_version_def)
qed

lemma migration_succeeds:
  assumes "upgradable db"
  shows "\<exists>db'. run_all step_effect migration_steps db = Some db' \<and> upgradable db'
    \<and> fst ` set current_schema \<subseteq> dom (df_tables db')"
proof -
  from create_steps [OF assms subset_refl] obtain db1 where c:
    "run_all step_effect (map (\<lambda>(n, cs). CreateTable n cs) current_schema) db = Some db1" "upgradable db1"
    "fst ` set current_schema \<subseteq> dom (df_tables db1)" by auto
  from ensure_steps [OF c(2) subset_refl] c(3) ensured_tables_in_schema obtain db2 where e:
    "run_all step_effect (map (\<lambda>(n, c). EnsureColumn n c) ensured_columns) db1 = Some db2" "upgradable db2"
    "dom (df_tables db1) \<subseteq> dom (df_tables db2)" by blast
  have "''metadata'' \<in> fst ` set current_schema" by (simp add: current_schema_def)
  with c(3) e(3) obtain t where "df_tables db2 ''metadata'' = Some t" by blast
  from record_step [OF e(2) this] obtain db3 where
    r: "step_effect (RecordVersion (show_int schema_version)) db2 = Some db3" "upgradable db3"
    "dom (df_tables db2) \<subseteq> dom (df_tables db3)" by blast
  have "run_all step_effect migration_steps db = Some db3"
    using c(1) e(1) r(1) by (simp add: steps_split run_all_append step_effect_simps)
  moreover have "fst ` set current_schema \<subseteq> dom (df_tables db3)" using c(3) e(3) r(3) by blast
  ultimately show ?thesis using r(2) by blast
qed

lemma migrated_schema:
  assumes "run_all step_effect migration_steps db = Some db'" and "upgradable db'"
    and "fst ` set current_schema \<subseteq> dom (df_tables db')"
  shows "schema_complete db'"
proof -
  have finished: "step_effect p db' = Some db'" if "p \<in> set migration_steps" for p
    using migration.all_done [OF subset_refl assms(1) that] .
  have "record_version (show_int schema_version) db' = Inr db'"
    using finished [of "RecordVersion (show_int schema_version)"] by (simp add: done_record steps_split)
  moreover have "set (table_info name db') = set (map cl_name columns)"
    if nc: "(name, columns) \<in> set current_schema" for name columns
  proof -
    have "name \<in> dom (df_tables db')" using assms(3) nc by (metis fst_conv image_eqI subsetD)
    then obtain t where t: "df_tables db' name = Some t" by blast
    have "cl_name c \<in> set (table_info name db')" if "(name, c) \<in> set ensured_columns" for c
    proof -
      have "EnsureColumn name c \<in> set migration_steps" using that by (force simp: steps_split)
      from finished [OF this] show ?thesis by (simp add: done_ensure)
    qed
    with upgradableD [OF assms(2) nc t] t show ?thesis by (auto simp: upgradable_table_def table_info_def)
  qed
  ultimately show ?thesis unfolding schema_complete_def list_all_iff by blast
qed

section \<open>Rows and constraints\<close>

text \<open>The rows of the model as values of the created tables.\<close>

definition optional :: "('a \<Rightarrow> sql_value) \<Rightarrow> 'a option \<Rightarrow> sql_value" where
  "optional f v = (case v of None \<Rightarrow> SqlNull | Some a \<Rightarrow> f a)"

definition file_values :: "file_row \<Rightarrow> sql_value list" where
  "file_values r = [SqlText (fr_path r), SqlText (fr_kind r), SqlInteger (fr_size_bytes r),
     SqlInteger (fr_modified_at_unix r), optional SqlText (fr_content_hash r), SqlText (fr_block_hashes_json r),
     SqlInteger (fr_generation r), SqlText (fr_device_id r), SqlInteger (fr_scan_missing r),
     SqlText (fr_sync_state r), SqlInteger (fr_updated_at_unix r)]"

definition skipped_values :: "skipped_row \<Rightarrow> sql_value list" where
  "skipped_values r = [SqlText (sk_path r), SqlText (sk_reason r), SqlInteger (sk_size_bytes r),
     SqlInteger (sk_queued_at_unix r), SqlInteger (sk_updated_at_unix r)]"

definition operation_values :: "operation_row \<Rightarrow> sql_value list" where
  "operation_values r = [SqlText (or_id r), SqlText (or_path r), SqlText (or_kind r), SqlText (or_status r),
     SqlText (or_reason r), optional SqlInteger (or_local_size_bytes r), optional SqlInteger (or_remote_size_bytes r),
     optional SqlText (or_local_content_hash r), optional SqlText (or_remote_content_hash r),
     SqlText (or_remote_device_id r), optional SqlText (or_last_error r), SqlInteger (or_retry_count r),
     optional SqlInteger (or_started_at_unix r), optional SqlInteger (or_finished_at_unix r),
     SqlInteger (or_created_at_unix r), SqlInteger (or_updated_at_unix r)]"

definition accepts :: "column list \<Rightarrow> sql_value list \<Rightarrow> bool" where
  "accepts columns row \<longleftrightarrow> list_all2 (\<lambda>c v. cl_check c v \<and> \<not> (cl_not_null c \<and> v = SqlNull)) columns row"

lemmas column_simps = plain_column_def not_null_def checked_def with_default_def one_of_def at_least_zero_def
  zero_or_one_def optional_def

text \<open>
  The constraints of the created tables are those of the model: a row is accepted by the
  \<open>CHECK\<close> and \<open>NOT NULL\<close> clauses exactly if the model's predicate for its table holds.
\<close>

theorem schema_checks_agree:
  "accepts files_columns (file_values r) = files_check r
     \<and> accepts skipped_columns (skipped_values s) = skipped_check s
     \<and> accepts operations_columns (operation_values p) = operations_check p"
proof (intro conjI)
  show "accepts files_columns (file_values r) = files_check r"
    by (auto simp: accepts_def files_columns_def file_values_def files_check_def column_simps split: option.split)
  show "accepts skipped_columns (skipped_values s) = skipped_check s"
    by (auto simp: accepts_def skipped_columns_def skipped_values_def skipped_check_def column_simps)
  show "accepts operations_columns (operation_values p) = operations_check p"
    by (auto simp: accepts_def operations_columns_def operation_values_def operations_check_def column_simps
        split: option.splits)
qed

section \<open>Properties\<close>

text \<open>
  C30: Opening never loses data: however a migration ends, every table but the one of the
  version is still there, with its columns and possibly further ones, and its rows in order,
  each with its values and the defaults of the further columns.
\<close>

theorem migration_keeps_data:
  assumes "migrate faults db = (r, db')" and "name \<noteq> ''metadata''" and "df_tables db name = Some t"
  shows "\<exists>added. df_tables db' name = Some \<lparr>tb_columns = tb_columns t @ added,
     tb_rows = map (\<lambda>row. row @ map cl_default added) (tb_rows t)\<rparr>"
proof -
  obtain j where "run_all step_effect (take j migration_steps) db = Some db'"
    using migrate_prefix [OF assms(1)] by blast
  from run_all_data_kept [OF this] assms(2,3) show ?thesis by (auto simp: data_kept_def extends_def)
qed

text \<open>
  C29: An interrupted migration is completed by the next one: if the database can be migrated
  when nothing fails, then after a migration that stopped anywhere it still can, and ends in
  the very same state.
\<close>

theorem migration_resumes:
  assumes "migrate (\<lambda>_. None) db = (Inr (), complete)" and "migrate faults db = (r, stopped)"
  shows "migrate (\<lambda>_. None) stopped = (Inr (), complete)"
  using migration.resume [of db complete] migrate_prefix [OF assms(2)] assms(1) by (auto simp: migrate_calm)


section \<open>Examples\<close>

text \<open>A database of an earlier version with one file in it.\<close>

definition sample_old_columns :: "column list" where
  "sample_old_columns = filter (\<lambda>c. cl_name c \<noteq> ''sync_state'') files_columns"

definition sample_old_row :: "sql_value list" where
  "sample_old_row = [SqlText ''a'', SqlText ''file'', SqlInteger 3, SqlInteger 1, SqlNull, SqlText ''[]'',
     SqlInteger 0, SqlText ''d'', SqlInteger 0, SqlInteger 1]"

definition sample_old_file :: database_file where
  "sample_old_file = \<lparr>df_tables = [''files'' \<mapsto> \<lparr>tb_columns = sample_old_columns, tb_rows = [sample_old_row]\<rparr>]\<rparr>"

text \<open>The first statements succeed, the creation of the queue's table fails.\<close>

definition sample_faults :: "nat \<Rightarrow> string option" where
  "sample_faults k = (if k = 10 then Some ''disk I/O error'' else None)"

lemma sample_old_upgradable: "upgradable sample_old_file"
proof -
  let ?c = "with_default (SqlText ''local_available'') (not_null (plain_column ''sync_state''))"
  have new: "map cl_name files_columns = [''path'', ''kind'', ''size_bytes'', ''modified_at_unix'', ''content_hash'',
      ''block_hashes_json'', ''generation'', ''device_id'', ''scan_missing'', ''sync_state'', ''updated_at_unix'']"
    by (simp add: files_columns_def column_simps)
  have old: "map cl_name sample_old_columns = [''path'', ''kind'', ''size_bytes'', ''modified_at_unix'', ''content_hash'',
      ''block_hashes_json'', ''generation'', ''device_id'', ''scan_missing'', ''updated_at_unix'']"
    by (simp add: sample_old_columns_def files_columns_def column_simps)
  have "(''files'', ?c) \<in> set ensured_columns" by (simp add: ensured_columns_def)
  moreover have "cl_name ?c = ''sync_state''" by (simp add: column_simps)
  ultimately have "''sync_state'' \<in> {cl_name c |c. (''files'', c) \<in> set ensured_columns}"
    by (intro CollectI exI [of _ ?c] conjI) simp_all
  then have "upgradable_table ''files'' files_columns \<lparr>tb_columns = sample_old_columns, tb_rows = [sample_old_row]\<rparr>"
    unfolding upgradable_table_def table.simps new old by simp
  then show ?thesis
    by (simp add: upgradable_def current_schema_def sample_old_file_def)
qed


lemma sample_stops:
  "migrate sample_faults sample_old_file = (Inl (StateDatabaseError ''disk I/O error''),
     put_table ''skipped_files'' \<lparr>tb_columns = skipped_columns, tb_rows = []\<rparr>
       (put_table ''metadata'' \<lparr>tb_columns = metadata_columns, tb_rows = []\<rparr> sample_old_file))"
  by (simp add: migrate_def migration_steps_def sample_faults_def sql_def bind_op_def sample_old_file_def
      create_table_def put_table_def)

theorem migration_resumes_witness:
  "\<exists>complete stopped. migrate sample_faults sample_old_file = (Inl (StateDatabaseError ''disk I/O error''), stopped)
     \<and> migrate (\<lambda>_. None) stopped = (Inr (), complete)"
proof -
  from migration_succeeds [OF sample_old_upgradable] obtain complete where
    complete: "migrate (\<lambda>_. None) sample_old_file = (Inr (), complete)" by (auto simp: migrate_calm)
  from migration_resumes [OF complete sample_stops] sample_stops show ?thesis by blast
qed

theorem migration_keeps_data_witness:
  "\<exists>added. df_tables (snd (migrate sample_faults sample_old_file)) ''files'' = Some
     \<lparr>tb_columns = sample_old_columns @ added, tb_rows = [sample_old_row @ map cl_default added]\<rparr>"
proof -
  have "df_tables sample_old_file ''files'' = Some \<lparr>tb_columns = sample_old_columns, tb_rows = [sample_old_row]\<rparr>"
    by (simp add: sample_old_file_def)
  from migration_keeps_data [OF sample_stops _ this] show ?thesis unfolding sample_stops snd_conv by auto
qed
end
