(* ===== verification/Linux_App.thy ===== *)
theory Linux_App
  imports Disk_Documents
begin

text \<open>
  The desktop shell, \<open>src-tauri\<close>: \<open>agent_command.rs\<close> builds the command lines of the agent
  and runs it as a process that answers in JSON, \<open>main.rs\<close> keeps the list of configured
  folders in one document and serves six commands to the window. The process is an argument:
  what starting a command line returns, and what it does to the world.
\<close>

section \<open>Lossy text\<close>

text \<open>
  \<open>String::from_utf8_lossy\<close>: a valid character is kept; otherwise the longest prefix of a
  character that is there (at least one byte) becomes U+FFFD. For a byte and what follows:
  whether a character starts, and how many bytes are taken.
\<close>

definition second_byte_ok :: "nat \<Rightarrow> nat \<Rightarrow> bool" where
  "second_byte_ok b c \<longleftrightarrow>
     (if b < 240 then (if b = 224 then 160 else 128) \<le> c \<and> c < (if b = 237 then 160 else 192)
      else (if b = 240 then 144 else 128) \<le> c \<and> c < (if b = 244 then 144 else 192))"

definition continues :: "nat \<Rightarrow> bool" where
  "continues c \<longleftrightarrow> 128 \<le> c \<and> c < 192"

definition utf8_step :: "nat \<Rightarrow> nat list \<Rightarrow> bool \<times> nat" where
  "utf8_step b bs =
     (if b < 128 then (True, 1)
      else if b < 194 \<or> 245 \<le> b then (False, 1)
      else (case bs of
        [] \<Rightarrow> (False, 1)
      | c # cs \<Rightarrow>
          if b < 224 then (if continues c then (True, 2) else (False, 1))
          else if \<not> second_byte_ok b c then (False, 1)
          else (case cs of
            [] \<Rightarrow> (False, 2)
          | d # ds \<Rightarrow>
              if \<not> continues d then (False, 2)
              else if b < 240 then (True, 3)
              else (case ds of
                [] \<Rightarrow> (False, 3)
              | e # es \<Rightarrow> if continues e then (True, 4) else (False, 3)))))"

lemma utf8_step_takes: "0 < snd (utf8_step b bs)"
  by (simp add: utf8_step_def split: list.split)

definition replacement_character :: string where
  "replacement_character = map char_of [239, 191, 189 :: nat]"

definition first_utf8_step :: "string \<Rightarrow> bool \<times> nat" where
  "first_utf8_step s = utf8_step (byte_of (hd s)) (map byte_of (tl s))"

function from_utf8_lossy :: "string \<Rightarrow> string" where
  "from_utf8_lossy s =
     (if s = [] then []
      else (if fst (first_utf8_step s) then take (snd (first_utf8_step s)) s else replacement_character)
             @ from_utf8_lossy (drop (snd (first_utf8_step s)) s))"
  by pat_completeness auto
termination
  by (relation "measure length") (simp_all add: first_utf8_step_def utf8_step_takes)

declare from_utf8_lossy.simps [simp del]

lemma utf8_step_valid:
  assumes "utf8_wf (b # bs)"
  shows "fst (utf8_step b bs) \<and> utf8_wf (drop (snd (utf8_step b bs)) (b # bs))"
proof (cases "b < 128")
  case True
  with assms show ?thesis by (simp add: utf8_step_def)
next
  case two: False
  with assms obtain c cs where bs: "bs = c # cs" by (cases bs) simp_all
  show ?thesis
  proof (cases "b < 224")
    case True
    with assms two bs show ?thesis by (simp add: utf8_step_def continues_def split: if_splits list.splits)
  next
    case three: False
    with assms two bs obtain d ds where cs: "cs = d # ds" by (cases cs) simp_all
    show ?thesis
    proof (cases "b < 240")
      case True
      with assms two three bs cs show ?thesis by (simp add: utf8_step_def continues_def second_byte_ok_def)
    next
      case False
      with assms two three bs cs obtain e es where "ds = e # es" by (cases ds) simp_all
      with assms two three False bs cs show ?thesis
        by (simp add: utf8_step_def continues_def second_byte_ok_def)
    qed
  qed
qed

text \<open>Text that is UTF-8 is kept.\<close>

lemma from_utf8_lossy_valid: "utf8_wf (map byte_of s) \<Longrightarrow> from_utf8_lossy s = s"
proof (induction s rule: from_utf8_lossy.induct)
  case (1 s)
  show ?case
  proof (cases s)
    case Nil
    then show ?thesis by (simp add: from_utf8_lossy.simps)
  next
    case (Cons c cs)
    with 1(2) have "fst (first_utf8_step s)" "utf8_wf (map byte_of (drop (snd (first_utf8_step s)) s))"
      using utf8_step_valid [of "byte_of c" "map byte_of cs"]
      by (simp_all add: first_utf8_step_def drop_map [symmetric] del: utf8_wf.simps)
    with 1(1) Cons have "from_utf8_lossy (drop (snd (first_utf8_step s)) s) = drop (snd (first_utf8_step s)) s"
      by blast
    with \<open>fst (first_utf8_step s)\<close> show ?thesis by (subst from_utf8_lossy.simps) simp
  qed
qed

section \<open>Command lines of the agent\<close>

record agent_runtime =
  rt_binary :: string
  rt_device_config :: string

record peer_connection =
  pn_endpoint :: string
  pn_shared_secret :: string

record folder_connection =
  fn_path :: string
  fn_peer :: "peer_connection option"

record agent_command =
  ac_binary :: string
  ac_args :: "string list"

datatype agent_command_error =
    MissingAgentBinary
  | MissingPeer
  | AgentProcessFailed int string
  | AgentInvalidJson string
  | AgentProcessIo string

definition from_env_or_default :: "(string \<Rightarrow> string option) \<Rightarrow> string \<Rightarrow> agent_runtime" where
  "from_env_or_default env app_data_dir =
     \<lparr>rt_binary = (case env ''SYNCER_AGENT_BIN'' of Some b \<Rightarrow> b | None \<Rightarrow> ''syncer-agent''),
      rt_device_config = (case env ''SYNCER_DEVICE_CONFIG'' of
         Some c \<Rightarrow> c | None \<Rightarrow> path_push app_data_dir ''device.json'')\<rparr>"

definition build_queue_status :: "agent_runtime \<Rightarrow> folder_connection \<Rightarrow> agent_command" where
  "build_queue_status rt folder = \<lparr>ac_binary = rt_binary rt,
     ac_args = [''queue-status'', ''--path'', fn_path folder]\<rparr>"

definition build_init_folder ::
  "agent_runtime \<Rightarrow> folder_connection \<Rightarrow> string \<Rightarrow> u64 \<Rightarrow> u8 \<Rightarrow> agent_command" where
  "build_init_folder rt folder display_name limit_bytes warning_percent = \<lparr>ac_binary = rt_binary rt,
     ac_args = [''init-folder'', ''--path'', fn_path folder, ''--display-name'', display_name,
       ''--max-bytes'', show_nat (unat limit_bytes),
       ''--warning-threshold-percent'', show_nat (unat warning_percent)]\<rparr>"

definition build_folder_status :: "agent_runtime \<Rightarrow> folder_connection \<Rightarrow> agent_command" where
  "build_folder_status rt folder = \<lparr>ac_binary = rt_binary rt,
     ac_args = [''folder-status'', ''--path'', fn_path folder]\<rparr>"

definition build_retry_failed :: "agent_runtime \<Rightarrow> folder_connection \<Rightarrow> agent_command" where
  "build_retry_failed rt folder = \<lparr>ac_binary = rt_binary rt,
     ac_args = [''retry-failed'', ''--path'', fn_path folder]\<rparr>"

definition build_resolve_blocked ::
  "agent_runtime \<Rightarrow> folder_connection \<Rightarrow> string \<Rightarrow> string \<Rightarrow> agent_command" where
  "build_resolve_blocked rt folder operation_id action = \<lparr>ac_binary = rt_binary rt,
     ac_args = [''resolve-blocked'', ''--path'', fn_path folder, ''--operation-id'', operation_id,
       ''--action'', action]\<rparr>"

definition build_sync_once ::
  "agent_runtime \<Rightarrow> folder_connection \<Rightarrow> u64 \<Rightarrow> agent_command_error + agent_command" where
  "build_sync_once rt folder limit =
     and_then (ok_or MissingPeer (fn_peer folder)) (\<lambda>peer. Inr \<lparr>ac_binary = rt_binary rt,
       ac_args = [''sync-once'', ''--path'', fn_path folder, ''--endpoint'', pn_endpoint peer,
         ''--shared-secret'', pn_shared_secret peer, ''--limit'', show_nat (unat limit),
         ''--device-config'', rt_device_config rt]\<rparr>)"

definition build_delete_file ::
  "agent_runtime \<Rightarrow> folder_connection \<Rightarrow> string \<Rightarrow> string \<Rightarrow> agent_command_error + agent_command" where
  "build_delete_file rt folder file_argument scope =
     (let args = [''delete-file'', ''--path'', fn_path folder, ''--file'', file_argument,
        ''--scope'', scope, ''--device-config'', rt_device_config rt] in
      if scope = ''both_sides''
      then and_then (ok_or MissingPeer (fn_peer folder)) (\<lambda>peer. Inr \<lparr>ac_binary = rt_binary rt,
        ac_args = args @ [''--endpoint'', pn_endpoint peer, ''--shared-secret'', pn_shared_secret peer]\<rparr>)
      else Inr \<lparr>ac_binary = rt_binary rt, ac_args = args\<rparr>)"

text \<open>
  What a process left: its status and output. The rest of the world, the agent's files and
  peers among it, is of any type.
\<close>

record process_output =
  po_success :: bool
  po_code :: "int option"
  po_stdout :: string
  po_stderr :: string

record 'w app_world =
  ap_disk :: disk
  ap_rest :: 'w

type_synonym 'w agent_process = "agent_command \<Rightarrow> ('w app_world, string, process_output) stateful"

definition run_json ::
  "'w agent_process \<Rightarrow> (string \<Rightarrow> string + 'a) \<Rightarrow> agent_command \<Rightarrow> ('w app_world, agent_command_error, 'a) stateful" where
  "run_json spawn decode cmd =
     (if ac_binary cmd = [] then lift_result (Inl MissingAgentBinary)
      else
      bind_op (map_op_err AgentProcessIo (spawn cmd)) (\<lambda>output.
      lift_result
        (if \<not> po_success output
         then Inl (AgentProcessFailed (case po_code output of None \<Rightarrow> - 1 | Some code \<Rightarrow> code)
                (trim (from_utf8_lossy (po_stderr output))))
         else map_err AgentInvalidJson (decode (po_stdout output)))))"

section \<open>The state of the shell\<close>

record app_peer_config =
  pc_device_id :: string
  pc_endpoint :: string
  pc_shared_secret :: string

record app_folder_config =
  af_id :: string
  af_name :: string
  af_path :: string
  af_mode :: string
  af_max_bytes :: u64
  af_warning_threshold_percent :: u8
  af_sync_interval_seconds :: u64
  af_peer :: "app_peer_config option"

record linux_state =
  ls_selected_folder_id :: "string option"
  ls_folders :: "app_folder_config list"

record add_folder_input =
  ai_display_name :: string
  ai_path :: string
  ai_mode :: string
  ai_max_bytes :: "u64 option"
  ai_interval_seconds :: "u64 option"

datatype app_error =
    MissingStatePath
  | InvalidFolderPath
  | MissingFolderName
  | InvalidFolderMode string
  | DuplicateFolder
  | MissingFolder string
  | AppIo string
  | AppJson string
  | AppAgent agent_command_error

type_synonym ('w, 'a) app_op = "('w app_world, app_error, 'a) stateful"

definition app_default_size_limit_bytes :: u64 where
  "app_default_size_limit_bytes = 10737418240"

definition app_default_interval_seconds :: u64 where
  "app_default_interval_seconds = 300"

definition app_default_warning_percent :: u8 where
  "app_default_warning_percent = 80"

text \<open>
  What the shell asks: the application's directory, the environment, the disk (by number of
  the loading or storing), what exists there besides files, the clock in milliseconds since
  the epoch (absent before it), and the agent.
\<close>

record 'w app_env =
  ae_app_data_dir :: "string option"
  ae_var :: "string \<Rightarrow> string option"
  ae_io :: "nat \<Rightarrow> io_faults"
  ae_exists :: "string \<Rightarrow> bool"
  ae_is_dir :: "string \<Rightarrow> bool"
  ae_millis :: "nat option"
  ae_spawn :: "'w agent_process"

text \<open>The documents it decodes; \<open>'j\<close> stands for uninterpreted JSON values.\<close>

record folder_status_snapshot =
  ss_indexed_files :: u64
  ss_indexed_bytes :: u64
  ss_skipped_folder_limit :: u64
  ss_unsynchronized_local_missing :: u64

record app_queue_counts =
  qc_total :: u64
  qc_pending :: u64
  qc_blocked :: u64
  qc_done :: u64
  qc_failed :: u64

record 'j app_codecs =
  aj_state :: "linux_state json_codec"
  aj_queue :: "string \<Rightarrow> string + app_queue_counts \<times> 'j list"
  aj_status :: "string \<Rightarrow> string + folder_status_snapshot"
  aj_value :: "string \<Rightarrow> string + 'j"

record app_context =
  ax_state :: linux_state
  ax_runtime :: agent_runtime

definition find_folder :: "linux_state \<Rightarrow> string \<Rightarrow> app_error + app_folder_config" where
  "find_folder state folder_id =
     ok_or (MissingFolder folder_id) (find (\<lambda>folder. af_id folder = folder_id) (ls_folders state))"

definition selected_folder :: "linux_state \<Rightarrow> app_error + app_folder_config" where
  "selected_folder state =
     and_then (ok_or (MissingFolder ''selected'')
       (case ls_selected_folder_id state of
          Some i \<Rightarrow> Some i
        | None \<Rightarrow> (case ls_folders state of [] \<Rightarrow> None | folder # _ \<Rightarrow> Some (af_id folder))))
       (find_folder state)"

definition connection_of :: "app_folder_config \<Rightarrow> folder_connection" where
  "connection_of folder = \<lparr>fn_path = af_path folder,
     fn_peer = map_option (\<lambda>peer. \<lparr>pn_endpoint = pc_endpoint peer, pn_shared_secret = pc_shared_secret peer\<rparr>)
       (af_peer folder)\<rparr>"

definition load_state ::
  "linux_state json_codec \<Rightarrow> (string \<Rightarrow> bool) \<Rightarrow> io_faults \<Rightarrow> string \<Rightarrow> disk \<Rightarrow> app_error + linux_state" where
  "load_state j other_exists f path d =
     (if \<not> other_exists path \<and> dk_files d path = None
      then Inr \<lparr>ls_selected_folder_id = None, ls_folders = []\<rparr>
      else and_then (map_err AppIo (fs_read f path d)) (\<lambda>bytes. map_err AppJson (from_slice j bytes)))"

definition write_state ::
  "linux_state json_codec \<Rightarrow> io_faults \<Rightarrow> string \<Rightarrow> linux_state \<Rightarrow> (disk, app_error, unit) stateful" where
  "write_state j f path state =
     bind_op (lift_result (map_err AppJson (to_vec_pretty j state))) (\<lambda>bytes.
       map_op_err AppIo (fs_write f path bytes))"

definition on_app_disk :: "(disk, app_error, 'a) stateful \<Rightarrow> ('w, 'a) app_op" where
  "on_app_disk m = (\<lambda>w. case m (ap_disk w) of (r, d) \<Rightarrow> (r, w\<lparr>ap_disk := d\<rparr>))"

definition state_json_path :: "string \<Rightarrow> string" where
  "state_json_path app_data_dir = path_push app_data_dir ''state.json''"

text \<open>The directory of the application, created if it is missing.\<close>

definition app_directory :: "'w app_env \<Rightarrow> nat \<Rightarrow> ('w, string) app_op" where
  "app_directory env k =
     bind_op (lift_result (ok_or MissingStatePath (ae_app_data_dir env))) (\<lambda>app_data_dir.
     bind_op (on_app_disk (map_op_err AppIo (fs_create_dir_all (ae_io env k) app_data_dir))) (\<lambda>_.
       lift_result (Inr app_data_dir)))"

definition load_context :: "'j app_codecs \<Rightarrow> 'w app_env \<Rightarrow> nat \<Rightarrow> ('w, app_context) app_op" where
  "load_context aj env k =
     bind_op (app_directory env k) (\<lambda>app_data_dir.
     bind_op (read_op (\<lambda>w. load_state (aj_state aj) (ae_exists env) (ae_io env k)
         (state_json_path app_data_dir) (ap_disk w))) (\<lambda>state.
       lift_result (Inr \<lparr>ax_state = state, ax_runtime = from_env_or_default (ae_var env) app_data_dir\<rparr>)))"

section \<open>New folders\<close>

definition is_ascii_alphanumeric :: "string \<Rightarrow> bool" where
  "is_ascii_alphanumeric ch \<longleftrightarrow> (case ch of [c] \<Rightarrow>
     48 \<le> byte_of c \<and> byte_of c \<le> 57 \<or> 65 \<le> byte_of c \<and> byte_of c \<le> 90 \<or> 97 \<le> byte_of c \<and> byte_of c \<le> 122
   | _ \<Rightarrow> False)"

definition slug_character :: "string \<Rightarrow> string" where
  "slug_character ch =
     (if is_ascii_alphanumeric ch then to_ascii_lowercase ch
      else if is_whitespace ch \<or> ch = ''-'' \<or> ch = ''_'' then ''-''
      else [])"

definition folder_slug :: "string \<Rightarrow> string" where
  "folder_slug name = join_with CHR ''-'' (filter (\<lambda>part. part \<noteq> [])
     (split_on CHR ''-'' (concat (map slug_character (utf8_chars name)))))"

definition new_folder_id :: "nat option \<Rightarrow> string \<Rightarrow> string" where
  "new_folder_id millis name =
     (if folder_slug name = [] then ''folder'' else folder_slug name) @ ''-''
       @ show_nat (case millis of None \<Rightarrow> 0 | Some ms \<Rightarrow> ms)"

definition supported_mode :: "string \<Rightarrow> bool" where
  "supported_mode mode \<longleftrightarrow> mode \<in> {''bidirectional'', ''upload_only'', ''download_only''}"

definition create_folder_config ::
  "'w app_env \<Rightarrow> add_folder_input \<Rightarrow> linux_state \<Rightarrow> app_error + app_folder_config" where
  "create_folder_config env input state =
     (let name = trim (ai_display_name input) in
      if name = [] then Inl MissingFolderName
      else if \<not> is_absolute (ai_path input) \<or> \<not> ae_is_dir env (ai_path input) then Inl InvalidFolderPath
      else if \<not> supported_mode (ai_mode input) then Inl (InvalidFolderMode (ai_mode input))
      else if list_ex (\<lambda>folder. path_eq (af_path folder) (ai_path input) \<or> af_name folder = name) (ls_folders state)
      then Inl DuplicateFolder
      else Inr
        \<lparr>af_id = new_folder_id (ae_millis env) name, af_name = name, af_path = ai_path input,
         af_mode = ai_mode input,
         af_max_bytes = (case ai_max_bytes input of Some n \<Rightarrow> n | None \<Rightarrow> app_default_size_limit_bytes),
         af_warning_threshold_percent = app_default_warning_percent,
         af_sync_interval_seconds = max (case ai_interval_seconds input of
            Some n \<Rightarrow> n | None \<Rightarrow> app_default_interval_seconds) 30,
         af_peer = None\<rparr>)"

section \<open>Snapshots\<close>

record folder_config_snapshot =
  cs_id :: string
  cs_display_name :: string
  cs_path :: string
  cs_mode :: string
  cs_interval_seconds :: u64
  cs_max_bytes :: u64

record peer_snapshot =
  sn_online :: bool
  sn_endpoint :: "string option"

record 'j dashboard_snapshot =
  ds_selected_folder_id :: "string option"
  ds_folders :: "(folder_config_snapshot \<times> folder_status_snapshot) list"
  ds_peer :: peer_snapshot
  ds_queue :: app_queue_counts
  ds_operations :: "'j list"

definition config_snapshot :: "app_folder_config \<Rightarrow> folder_config_snapshot" where
  "config_snapshot folder = \<lparr>cs_id = af_id folder, cs_display_name = af_name folder,
     cs_path = from_utf8_lossy (af_path folder), cs_mode = af_mode folder,
     cs_interval_seconds = af_sync_interval_seconds folder, cs_max_bytes = af_max_bytes folder\<rparr>"

definition no_status :: folder_status_snapshot where
  "no_status = \<lparr>ss_indexed_files = 0, ss_indexed_bytes = 0, ss_skipped_folder_limit = 0,
     ss_unsynchronized_local_missing = 0\<rparr>"

text \<open>A failing run of the agent is replaced by a default: \<open>unwrap_or_else\<close> and \<open>ok\<close>.\<close>

definition settle :: "('e \<Rightarrow> 'a) \<Rightarrow> ('s, 'e, 'a) stateful \<Rightarrow> ('s, 'f, 'a) stateful" where
  "settle fallback m = (\<lambda>s. case m s of (r, s') \<Rightarrow> (Inr (case r of Inl e \<Rightarrow> fallback e | Inr a \<Rightarrow> a), s'))"

definition folder_snapshot ::
  "'j app_codecs \<Rightarrow> 'w app_env \<Rightarrow> agent_runtime \<Rightarrow> app_folder_config
     \<Rightarrow> ('w, folder_config_snapshot \<times> folder_status_snapshot) app_op" where
  "folder_snapshot aj env rt folder =
     bind_op (settle (\<lambda>_. no_status) (run_json (ae_spawn env) (aj_status aj)
        (build_folder_status rt (connection_of folder)))) (\<lambda>status.
       lift_result (Inr (config_snapshot folder, status)))"

fun folder_snapshots ::
  "'j app_codecs \<Rightarrow> 'w app_env \<Rightarrow> agent_runtime \<Rightarrow> app_folder_config list
     \<Rightarrow> ('w, (folder_config_snapshot \<times> folder_status_snapshot) list) app_op" where
  "folder_snapshots aj env rt [] = lift_result (Inr [])"
| "folder_snapshots aj env rt (folder # folders) =
     bind_op (folder_snapshot aj env rt folder) (\<lambda>snapshot.
     bind_op (folder_snapshots aj env rt folders) (\<lambda>snapshots.
       lift_result (Inr (snapshot # snapshots))))"

definition selected_peer :: "linux_state \<Rightarrow> peer_snapshot" where
  "selected_peer state =
     \<lparr>sn_online = False,
      sn_endpoint = (case selected_folder state of
          Inl _ \<Rightarrow> None | Inr folder \<Rightarrow> map_option pc_endpoint (af_peer folder))\<rparr>"

definition selected_queue ::
  "'j app_codecs \<Rightarrow> 'w app_env \<Rightarrow> app_context \<Rightarrow> ('w, (app_queue_counts \<times> 'j list) option) app_op" where
  "selected_queue aj env context =
     (case selected_folder (ax_state context) of
        Inl _ \<Rightarrow> lift_result (Inr None)
      | Inr folder \<Rightarrow> settle (\<lambda>_. None) (\<lambda>w.
          case run_json (ae_spawn env) (aj_queue aj) (build_queue_status (ax_runtime context) (connection_of folder)) w of
            (r, w') \<Rightarrow> (map_sum id Some r, w')))"

definition no_counts :: app_queue_counts where
  "no_counts = \<lparr>qc_total = 0, qc_pending = 0, qc_blocked = 0, qc_done = 0, qc_failed = 0\<rparr>"

definition load_snapshot ::
  "'j app_codecs \<Rightarrow> 'w app_env \<Rightarrow> app_context \<Rightarrow> ('w, 'j dashboard_snapshot) app_op" where
  "load_snapshot aj env context =
     bind_op (selected_queue aj env context) (\<lambda>queue_output.
     bind_op (folder_snapshots aj env (ax_runtime context) (ls_folders (ax_state context))) (\<lambda>folders.
       lift_result (Inr
         \<lparr>ds_selected_folder_id = ls_selected_folder_id (ax_state context), ds_folders = folders,
          ds_peer = selected_peer (ax_state context),
          ds_queue = (case queue_output of Some (counts, _) \<Rightarrow> counts | None \<Rightarrow> no_counts),
          ds_operations = (case queue_output of Some (_, operations) \<Rightarrow> operations | None \<Rightarrow> [])\<rparr>)))"

section \<open>The commands of the window\<close>

definition run_agent :: "'j app_codecs \<Rightarrow> 'w app_env \<Rightarrow> agent_command \<Rightarrow> ('w, unit) app_op" where
  "run_agent aj env cmd =
     bind_op (map_op_err AppAgent (run_json (ae_spawn env) (aj_value aj) cmd)) (\<lambda>_. lift_result (Inr ()))"

definition syncer_load_snapshot :: "'j app_codecs \<Rightarrow> 'w app_env \<Rightarrow> ('w, 'j dashboard_snapshot) app_op" where
  "syncer_load_snapshot aj env = bind_op (load_context aj env 0) (load_snapshot aj env)"

definition syncer_add_folder ::
  "'j app_codecs \<Rightarrow> 'w app_env \<Rightarrow> add_folder_input \<Rightarrow> ('w, 'j dashboard_snapshot) app_op" where
  "syncer_add_folder aj env input =
     bind_op (app_directory env 0) (\<lambda>app_data_dir.
     (let rt = from_env_or_default (ae_var env) app_data_dir; path = state_json_path app_data_dir in
     bind_op (read_op (\<lambda>w. load_state (aj_state aj) (ae_exists env) (ae_io env 0) path (ap_disk w))) (\<lambda>state.
     bind_op (lift_result (create_folder_config env input state)) (\<lambda>config.
     bind_op (run_agent aj env (build_init_folder rt (connection_of config) (af_name config)
        (af_max_bytes config) (af_warning_threshold_percent config))) (\<lambda>_.
     (let state' = state\<lparr>ls_selected_folder_id := Some (af_id config),
        ls_folders := ls_folders state @ [config]\<rparr> in
     bind_op (on_app_disk (write_state (aj_state aj) (ae_io env 1) path state')) (\<lambda>_.
       load_snapshot aj env \<lparr>ax_state = state', ax_runtime = rt\<rparr>)))))))"

definition syncer_sync_once ::
  "'j app_codecs \<Rightarrow> 'w app_env \<Rightarrow> string \<Rightarrow> ('w, 'j dashboard_snapshot) app_op" where
  "syncer_sync_once aj env folder_id =
     bind_op (load_context aj env 0) (\<lambda>context.
     bind_op (lift_result (find_folder (ax_state context) folder_id)) (\<lambda>folder.
     bind_op (lift_result (map_err AppAgent (build_sync_once (ax_runtime context) (connection_of folder) 100))) (\<lambda>cmd.
     bind_op (run_agent aj env cmd) (\<lambda>_.
     bind_op (load_context aj env 1) (load_snapshot aj env)))))"

definition syncer_retry_failed ::
  "'j app_codecs \<Rightarrow> 'w app_env \<Rightarrow> string \<Rightarrow> ('w, 'j dashboard_snapshot) app_op" where
  "syncer_retry_failed aj env folder_id =
     bind_op (load_context aj env 0) (\<lambda>context.
     bind_op (lift_result (find_folder (ax_state context) folder_id)) (\<lambda>folder.
     bind_op (run_agent aj env (build_retry_failed (ax_runtime context) (connection_of folder))) (\<lambda>_.
     bind_op (load_context aj env 1) (load_snapshot aj env))))"

definition syncer_resolve_blocked ::
  "'j app_codecs \<Rightarrow> 'w app_env \<Rightarrow> string \<Rightarrow> string \<Rightarrow> ('w, 'j dashboard_snapshot) app_op" where
  "syncer_resolve_blocked aj env operation_id action =
     bind_op (load_context aj env 0) (\<lambda>context.
     bind_op (lift_result (selected_folder (ax_state context))) (\<lambda>folder.
     bind_op (run_agent aj env (build_resolve_blocked (ax_runtime context) (connection_of folder)
        operation_id action)) (\<lambda>_.
     bind_op (load_context aj env 1) (load_snapshot aj env))))"

definition syncer_delete_file ::
  "'j app_codecs \<Rightarrow> 'w app_env \<Rightarrow> string \<Rightarrow> string \<Rightarrow> string \<Rightarrow> ('w, 'j dashboard_snapshot) app_op" where
  "syncer_delete_file aj env folder_id path scope =
     bind_op (load_context aj env 0) (\<lambda>context.
     bind_op (lift_result (find_folder (ax_state context) folder_id)) (\<lambda>folder.
     bind_op (lift_result (map_err AppAgent (build_delete_file (ax_runtime context) (connection_of folder) path scope))) (\<lambda>cmd.
     bind_op (run_agent aj env cmd) (\<lambda>_.
     bind_op (load_context aj env 1) (load_snapshot aj env)))))"

datatype app_command =
    LoadSnapshot
  | AddFolder add_folder_input
  | ShellSyncOnce string
  | ShellRetryFailed string
  | ShellResolveBlocked string string
  | ShellDeleteFile string string string

text \<open>The handlers \<open>main\<close> registers.\<close>

fun handle_command ::
  "'j app_codecs \<Rightarrow> 'w app_env \<Rightarrow> app_command \<Rightarrow> ('w, 'j dashboard_snapshot) app_op" where
  "handle_command aj env LoadSnapshot = syncer_load_snapshot aj env"
| "handle_command aj env (AddFolder input) = syncer_add_folder aj env input"
| "handle_command aj env (ShellSyncOnce folder_id) = syncer_sync_once aj env folder_id"
| "handle_command aj env (ShellRetryFailed folder_id) = syncer_retry_failed aj env folder_id"
| "handle_command aj env (ShellResolveBlocked operation_id action) =
     syncer_resolve_blocked aj env operation_id action"
| "handle_command aj env (ShellDeleteFile folder_id path scope) =
     syncer_delete_file aj env folder_id path scope"

section \<open>Which commands change the state document\<close>

text \<open>The agent does not write the document of the shell.\<close>

definition leaves_document :: "string \<Rightarrow> 'w agent_process \<Rightarrow> bool" where
  "leaves_document path spawn \<longleftrightarrow>
     (\<forall>cmd w. dk_files (ap_disk (snd (spawn cmd w))) path = dk_files (ap_disk w) path)"

definition same_document :: "string \<Rightarrow> 'w app_world \<Rightarrow> 'w app_world \<Rightarrow> bool" where
  "same_document path w w' \<longleftrightarrow> dk_files (ap_disk w') path = dk_files (ap_disk w) path"

interpretation document_frame: frame_condition "same_document path"
  by unfold_locales (auto simp: same_document_def)

named_theorems document_intros \<open>steps that leave the state document as it is\<close>

lemma run_json_document [document_intros]:
  assumes "leaves_document path spawn"
  shows "within (same_document path) (run_json spawn decode cmd)"
proof -
  have "within (same_document path) (spawn cmd)"
    using assms by (simp add: within_def same_document_def leaves_document_def)
  from map_op_err_within [OF this] show ?thesis
    unfolding run_json_def by (auto intro!: document_frame.within_intros)
qed

lemma settle_within: "within le m \<Longrightarrow> within le (settle fallback m)"
  by (auto simp: within_def settle_def split: prod.split) (metis snd_conv)

lemma mapped_within: "within le m \<Longrightarrow> within le (\<lambda>w. case m w of (r, w') \<Rightarrow> (f r, w'))"
  by (auto simp: within_def split: prod.split) (metis snd_conv)

lemma app_directory_document [document_intros]: "within (same_document path) (app_directory env k)"
proof -
  have "within (same_document path) (on_app_disk (map_op_err AppIo (fs_create_dir_all f p)))" for f p
    by (simp add: within_def same_document_def on_app_disk_def map_op_err_def fs_create_dir_all_def split_beta)
  then show ?thesis
    unfolding app_directory_def by (intro document_frame.within_intros)
qed

lemma load_context_document [document_intros]: "within (same_document path) (load_context aj env k)"
  unfolding load_context_def by (intro document_frame.within_intros document_intros)

lemma folder_snapshots_document [document_intros]:
  "leaves_document path (ae_spawn env) \<Longrightarrow> within (same_document path) (folder_snapshots aj env rt folders)"
  by (induction folders)
    (auto intro!: document_frame.within_intros document_intros settle_within simp: folder_snapshot_def)

lemma load_snapshot_document [document_intros]:
  assumes "leaves_document path (ae_spawn env)"
  shows "within (same_document path) (load_snapshot aj env context)"
  unfolding load_snapshot_def selected_queue_def
  by (auto intro!: document_frame.within_intros folder_snapshots_document settle_within mapped_within
      run_json_document assms split: sum.split)

lemma run_agent_document [document_intros]:
  "leaves_document path (ae_spawn env) \<Longrightarrow> within (same_document path) (run_agent aj env cmd)"
  unfolding run_agent_def by (intro document_frame.within_intros map_op_err_within document_intros)

lemma other_commands_document:
  assumes "leaves_document path (ae_spawn env)" and "\<And>input. c \<noteq> AddFolder input"
  shows "within (same_document path) (handle_command aj env c)"
  using assms
  by (cases c) (auto simp: syncer_load_snapshot_def syncer_sync_once_def syncer_retry_failed_def
      syncer_resolve_blocked_def syncer_delete_file_def intro!: document_frame.within_intros document_intros)

section \<open>The document over time\<close>

text \<open>What the document holds: the empty state if there is none.\<close>

definition stored_state :: "linux_state json_codec \<Rightarrow> string \<Rightarrow> 'w app_world \<Rightarrow> linux_state option" where
  "stored_state j path w =
     (case dk_files (ap_disk w) path of
        None \<Rightarrow> Some \<lparr>ls_selected_folder_id = None, ls_folders = []\<rparr>
      | Some bytes \<Rightarrow> (case from_slice j bytes of Inl _ \<Rightarrow> None | Inr state \<Rightarrow> Some state))"

definition folder_ok :: "app_folder_config \<Rightarrow> bool" where
  "folder_ok folder \<longleftrightarrow> af_name folder \<noteq> [] \<and> is_absolute (af_path folder) \<and> supported_mode (af_mode folder)
     \<and> 30 \<le> af_sync_interval_seconds folder"

text \<open>Every folder is well-formed, and no two have the same name or the same path.\<close>

definition state_ok :: "linux_state \<Rightarrow> bool" where
  "state_ok state \<longleftrightarrow> list_all folder_ok (ls_folders state) \<and> distinct (map af_name (ls_folders state))
     \<and> sorted_wrt (\<lambda>a b. \<not> path_eq (af_path a) (af_path b)) (ls_folders state)"

lemma load_state_stored:
  "load_state j other_exists f path (ap_disk w) = Inr state \<Longrightarrow> stored_state j path w = Some state"
  by (auto simp: load_state_def stored_state_def fs_read_def and_then_Inr_iff
      split: if_splits option.splits sum.splits)

lemma stored_same_document: "same_document path w w' \<Longrightarrow> stored_state j path w' = stored_state j path w"
  by (simp add: stored_state_def same_document_def)

lemma created_folder:
  assumes "create_folder_config env input state = Inr config"
  shows "state_ok state \<Longrightarrow> state_ok (state\<lparr>ls_selected_folder_id := selected, ls_folders := ls_folders state @ [config]\<rparr>)"
    and "af_name config = trim (ai_display_name input)" and "af_peer config = None"
  using assms
  by (auto simp: create_folder_config_def Let_def state_ok_def folder_ok_def sorted_wrt_append list_ex_iff
      max_def split: if_splits)

lemma written_state_stored:
  assumes "on_app_disk (write_state j f path state) w = (Inr u, w')" and "json_laws j"
  shows "stored_state j path w' = Some state"
proof -
  obtain d where d: "write_state j f path state (ap_disk w) = (Inr u, d)" "w' = w\<lparr>ap_disk := d\<rparr>"
    using assms(1) by (auto simp: on_app_disk_def split: prod.splits)
  then obtain bytes where "to_vec_pretty j state = Inr bytes" "fs_write f path bytes (ap_disk w) = (Inr u, d)"
    by (auto simp: write_state_def bind_op_Inr lift_result_Inr map_op_err_Inr)
  with assms(2) d(2) show ?thesis
    by (auto simp: fs_write_def json_laws_def stored_state_def split: option.splits)
qed

lemma failed_write_keeps:
  assumes "on_app_disk (write_state j f path state) w = (Inl e, w')" and "write_fault f path = None"
  shows "same_document path w w'"
  using assms
  by (auto simp: on_app_disk_def write_state_def bind_op_def fs_write_def map_op_err_def same_document_def
      split: option.splits prod.splits sum.splits)

text \<open>
  The document is written in place: a write that stops half way leaves bytes that every later
  load rejects.
\<close>

lemma torn_write_blocks:
  assumes "to_vec_pretty j state = Inr bytes" and "write_fault f path = Some (msg, Some torn)"
    and "from_slice j torn = Inl e"
  shows "load_state j other_exists no_faults path (snd (write_state j f path state d)) = Inl (AppJson e)"
  using assms
  by (simp add: write_state_def load_state_def bind_op_def map_op_err_def fs_write_def fs_read_def no_faults_def)

section \<open>Sequences of commands\<close>

text \<open>Each command with what it asks of its surroundings; the results in order.\<close>

fun run_app ::
  "'j app_codecs \<Rightarrow> ('w app_env \<times> app_command) list \<Rightarrow> 'w app_world
     \<Rightarrow> (app_command \<times> (app_error + 'j dashboard_snapshot)) list \<times> 'w app_world" where
  "run_app aj [] w = ([], w)"
| "run_app aj ((env, c) # cs) w =
     (case handle_command aj env c w of (r, w') \<Rightarrow>
       (case run_app aj cs w' of (log, w'') \<Rightarrow> ((c, r) # log, w'')))"

text \<open>The names of the folders whose command reported success.\<close>

fun added_name :: "app_command \<times> (app_error + 'a) \<Rightarrow> string list" where
  "added_name (AddFolder input, r) = (if is_ok r then [trim (ai_display_name input)] else [])"
| "added_name _ = []"

definition added_names :: "(app_command \<times> (app_error + 'a)) list \<Rightarrow> string list" where
  "added_names log = concat (map added_name log)"

text \<open>
  What a run relies on: the directory of the application stays the same, the agent leaves the
  document alone, and a write of the document is not torn.
\<close>

definition sound_env :: "string \<Rightarrow> 'w app_env \<Rightarrow> bool" where
  "sound_env dir env \<longleftrightarrow> ae_app_data_dir env = Some dir \<and> leaves_document (state_json_path dir) (ae_spawn env)
     \<and> (\<forall>k. write_fault (ae_io env k) (state_json_path dir) = None)"

text \<open>The document has got folders without a peer, of the given names.\<close>

definition grown :: "linux_state json_codec \<Rightarrow> string \<Rightarrow> linux_state \<Rightarrow> string list \<Rightarrow> 'w app_world \<Rightarrow> bool" where
  "grown j path state names w \<longleftrightarrow> (\<exists>state' added. stored_state j path w = Some state' \<and> state_ok state'
     \<and> ls_folders state' = ls_folders state @ added \<and> map af_name added = names
     \<and> list_all (\<lambda>folder. af_peer folder = None) added)"

lemma grown_refl: "stored_state j path w = Some state \<Longrightarrow> state_ok state \<Longrightarrow> grown j path state [] w"
  by (auto simp: grown_def)

lemma folder_snapshot_ok: "\<exists>status w'. folder_snapshot aj env rt folder w = (Inr (config_snapshot folder, status), w')"
  by (cases "run_json (ae_spawn env) (aj_status aj) (build_folder_status rt (connection_of folder)) w")
    (simp add: folder_snapshot_def settle_def bind_op_def)

lemma folder_snapshots_ok:
  "\<exists>snapshots w'. folder_snapshots aj env rt folders w = (Inr snapshots, w')
     \<and> map fst snapshots = map config_snapshot folders"
proof (induction folders arbitrary: w)
  case (Cons folder folders)
  obtain status w1 where one: "folder_snapshot aj env rt folder w = (Inr (config_snapshot folder, status), w1)"
    using folder_snapshot_ok by blast
  from Cons.IH obtain snapshots w' where "folder_snapshots aj env rt folders w1 = (Inr snapshots, w')"
    "map fst snapshots = map config_snapshot folders" by blast
  with one show ?case by (simp add: bind_op_def)
qed simp

lemma selected_queue_ok: "\<exists>queue_output w'. selected_queue aj env context w = (Inr queue_output, w')"
  by (auto simp: selected_queue_def settle_def split: sum.split prod.split)

lemma load_snapshot_ok:
  "\<exists>snapshot w'. load_snapshot aj env context w = (Inr snapshot, w')
     \<and> map fst (ds_folders snapshot) = map config_snapshot (ls_folders (ax_state context))
     \<and> ds_selected_folder_id snapshot = ls_selected_folder_id (ax_state context)"
proof -
  obtain queue_output w1 where "selected_queue aj env context w = (Inr queue_output, w1)"
    using selected_queue_ok by blast
  moreover obtain snapshots w2 where
    "folder_snapshots aj env (ax_runtime context) (ls_folders (ax_state context)) w1 = (Inr snapshots, w2)"
    "map fst snapshots = map config_snapshot (ls_folders (ax_state context))"
    using folder_snapshots_ok by blast
  ultimately show ?thesis by (simp add: load_snapshot_def bind_op_def)
qed

lemma document_step: "within (same_document path) m \<Longrightarrow> m w = (r, w') \<Longrightarrow> same_document path w w'"
  by (rule within_step)

text \<open>Adding a folder: it fails before anything is stored, or the folder is there.\<close>

lemma add_folder_step:
  assumes "syncer_add_folder aj env input w = (r, w')"
    and "sound_env dir env" and "json_laws (aj_state aj)"
    and "stored_state (aj_state aj) (state_json_path dir) w = Some state" and "state_ok state"
  shows "grown (aj_state aj) (state_json_path dir) state (added_name (AddFolder input, r)) w'"
proof -
  let ?path = "state_json_path dir"
  let ?rt = "from_env_or_default (ae_var env) dir"
  note kept = grown_refl [OF _ assms(5)]
  from assms(2) have dir: "ae_app_data_dir env = Some dir" "leaves_document ?path (ae_spawn env)"
    "\<And>k. write_fault (ae_io env k) ?path = None" by (simp_all add: sound_env_def)
  have failed: ?thesis if "same_document ?path w w'" "\<not> is_ok r"
  proof -
    have "stored_state (aj_state aj) ?path w' = Some state"
      by (simp add: stored_same_document [OF that(1)] assms(4))
    from kept [OF this] that(2) show ?thesis by simp
  qed
  obtain q1 w1 where a: "app_directory env 0 w = (q1, w1)" by fastforce
  from document_step [OF app_directory_document a] have w1: "same_document ?path w w1" .
  show ?thesis
  proof (cases q1)
    case (Inl e)
    with assms(1) a w1 show ?thesis by (intro failed) (auto simp: syncer_add_folder_def bind_op_def)
  next
    case (Inr app_data_dir)
    with a dir(1) have ad: "q1 = Inr dir"
      by (auto simp: app_directory_def bind_op_Inr lift_result_Inr)
    let ?loaded = "load_state (aj_state aj) (ae_exists env) (ae_io env 0) ?path (ap_disk w1)"
    show ?thesis
    proof (cases "and_then ?loaded (create_folder_config env input)")
      case (Inl e)
      with assms(1) a ad w1 show ?thesis
        by (intro failed) (auto simp: syncer_add_folder_def bind_op_def Let_def and_then_Inl_iff split: sum.splits)
    next
      case (Inr config)
      then obtain loaded where l: "?loaded = Inr loaded" "create_folder_config env input loaded = Inr config"
        by (auto simp: and_then_Inr_iff)
      with load_state_stored [OF l(1)] stored_same_document [OF w1] assms(4) have "loaded = state" by simp
      note created = created_folder [OF l(2) [unfolded this]]
      let ?init = "build_init_folder ?rt (connection_of config) (af_name config) (af_max_bytes config)
        (af_warning_threshold_percent config)"
      obtain q2 w2 where i: "run_agent aj env ?init w1 = (q2, w2)" by fastforce
      from document_step [OF run_agent_document [OF dir(2)] i] have w2: "same_document ?path w w2"
        using w1 document_frame.le_trans by blast
      let ?new = "state\<lparr>ls_selected_folder_id := Some (af_id config), ls_folders := ls_folders state @ [config]\<rparr>"
      obtain q3 w3 where wr: "on_app_disk (write_state (aj_state aj) (ae_io env 1) ?path ?new) w2 = (q3, w3)"
        by fastforce
      obtain snapshot w4 where sn: "load_snapshot aj env \<lparr>ax_state = ?new, ax_runtime = ?rt\<rparr> w3 = (Inr snapshot, w4)"
        using load_snapshot_ok by blast
      have run: "(r, w') = (case q2 of Inl e \<Rightarrow> (Inl e, w2) | Inr _ \<Rightarrow>
          (case q3 of Inl e \<Rightarrow> (Inl e, w3) | Inr _ \<Rightarrow> (Inr snapshot, w4)))"
        using assms(1) a ad l \<open>loaded = state\<close> i wr sn
        by (cases q2; cases q3; simp add: syncer_add_folder_def bind_op_def Let_def)
      show ?thesis
      proof (cases q2)
        case (Inl e)
        with run w2 show ?thesis by (intro failed) simp_all
      next
        case q2: (Inr u)
        show ?thesis
        proof (cases q3)
          case (Inl e)
          from failed_write_keeps [OF wr [unfolded Inl] dir(3)] w2 have "same_document ?path w w3"
            using document_frame.le_trans by blast
          with run q2 Inl show ?thesis by (intro failed) simp_all
        next
          case (Inr u)
          from written_state_stored [OF wr [unfolded Inr] assms(3)]
            stored_same_document [OF document_step [OF load_snapshot_document [OF dir(2)] sn]]
          have "stored_state (aj_state aj) ?path w4 = Some ?new" by simp
          moreover have "state_ok ?new" using created(1) assms(5) .
          ultimately show ?thesis using run q2 Inr created(2,3)
            by (auto simp: grown_def intro!: exI [of _ ?new])
        qed
      qed
    qed
  qed
qed

lemma command_step:
  assumes "handle_command aj env c w = (r, w')"
    and "sound_env dir env" and "json_laws (aj_state aj)"
    and "stored_state (aj_state aj) (state_json_path dir) w = Some state" and "state_ok state"
  shows "grown (aj_state aj) (state_json_path dir) state (added_name (c, r)) w'"
proof (cases "\<exists>input. c = AddFolder input")
  case True
  then obtain input where c: "c = AddFolder input" by blast
  with assms(1) have "syncer_add_folder aj env input w = (r, w')" by simp
  from add_folder_step [OF this assms(2-5)] show ?thesis unfolding c .
next
  case False
  then have "within (same_document (state_json_path dir)) (handle_command aj env c)"
    using assms(2) by (intro other_commands_document) (auto simp: sound_env_def)
  from stored_same_document [OF document_step [OF this assms(1)]] assms(4)
  have "stored_state (aj_state aj) (state_json_path dir) w' = Some state" by simp
  moreover have "added_name (c, r) = []" using False by (cases c) simp_all
  ultimately show ?thesis using grown_refl assms(5) by simp
qed

lemma grown_trans:
  assumes "grown j path state names w" and "\<And>state'. stored_state j path w = Some state' \<Longrightarrow> state_ok state'
      \<Longrightarrow> grown j path state' names' w'"
  shows "grown j path state (names @ names') w'"
proof -
  from assms(1) obtain state' added where s: "stored_state j path w = Some state'" "state_ok state'"
    "ls_folders state' = ls_folders state @ added" "map af_name added = names"
    "list_all (\<lambda>folder. af_peer folder = None) added" by (auto simp: grown_def)
  from assms(2) [OF s(1,2)] obtain state'' added' where t: "stored_state j path w' = Some state''" "state_ok state''"
    "ls_folders state'' = ls_folders state' @ added'" "map af_name added' = names'"
    "list_all (\<lambda>folder. af_peer folder = None) added'" by (auto simp: grown_def)
  show ?thesis unfolding grown_def
    by (intro exI [of _ state''] exI [of _ "added @ added'"]) (use s t in simp)
qed

lemma run_app_grown:
  assumes "list_all (\<lambda>(env, c). sound_env dir env) cs" and "json_laws (aj_state aj)"
    and "run_app aj cs w = (log, w')"
    and "stored_state (aj_state aj) (state_json_path dir) w = Some state" and "state_ok state"
  shows "grown (aj_state aj) (state_json_path dir) state (added_names log) w'"
  using assms
proof (induction cs arbitrary: w log state)
  case Nil
  then show ?case by (simp add: added_names_def grown_refl)
next
  case (Cons ec cs)
  obtain env c where ec: "ec = (env, c)" by fastforce
  obtain r w1 where step: "handle_command aj env c w = (r, w1)" by fastforce
  obtain rest where rest: "run_app aj cs w1 = (rest, w')" "log = (c, r) # rest"
    using Cons.prems(3) ec step by (auto split: prod.splits)
  have "sound_env dir env" "list_all (\<lambda>(env, c). sound_env dir env) cs" using Cons.prems(1) ec by simp_all
  with command_step [OF step] Cons.prems(2,4,5) Cons.IH [OF _ _ rest(1)] show ?case
    unfolding rest(2) added_names_def list.map concat.simps by (intro grown_trans) auto
qed

section \<open>Properties\<close>

text \<open>
  C32: The list of configured folders over any sequence of commands and whatever the agent
  answers: the folders that were there stay, in order, the new ones are those whose command
  reported success, and every folder stays well-formed with its name and path its own.
\<close>

theorem configured_folders_stay_valid:
  assumes "list_all (\<lambda>(env, c). sound_env dir env) cs" and "json_laws (aj_state aj)"
    and "run_app aj cs w = (log, w')"
    and "stored_state (aj_state aj) (state_json_path dir) w = Some state" and "state_ok state"
  shows "\<exists>state' added. stored_state (aj_state aj) (state_json_path dir) w' = Some state' \<and> state_ok state'
    \<and> ls_folders state' = ls_folders state @ added \<and> map af_name added = added_names log"
  using run_app_grown [OF assms] unfolding grown_def by blast

text \<open>
  The dashboard shows every configured folder, in order, whatever the agent does: a folder
  whose status cannot be had is shown with zeros, never left out, and no failing run of the
  agent fails the dashboard.
\<close>

theorem dashboard_shows_every_folder:
  "\<exists>snapshot w'. load_snapshot aj env context w = (Inr snapshot, w')
     \<and> map fst (ds_folders snapshot) = map config_snapshot (ls_folders (ax_state context))
     \<and> ds_selected_folder_id snapshot = ls_selected_folder_id (ax_state context)"
  by (rule load_snapshot_ok)

lemma load_context_run:
  "load_context aj env k w = (r, w') \<Longrightarrow> w' = w"
  by (auto simp: load_context_def app_directory_def bind_op_def on_app_disk_def map_op_err_def
      fs_create_dir_all_def split: sum.splits prod.splits)

text \<open>
  C33: A folder added in the application has no peer, and no command gives it one: after any
  sequence of commands that began without a document, synchronising any folder fails before
  the agent is started, and nothing has changed.
\<close>

theorem added_folders_cannot_sync:
  assumes "list_all (\<lambda>(env, c). sound_env dir env) cs" and "json_laws (aj_state aj)"
    and "dk_files (ap_disk w) (state_json_path dir) = None" and "run_app aj cs w = (log, w')"
    and "sound_env dir env"
  shows "\<exists>e. syncer_sync_once aj env folder_id w' = (Inl e, w')"
proof -
  let ?empty = "\<lparr>ls_selected_folder_id = None, ls_folders = []\<rparr>"
  have "stored_state (aj_state aj) (state_json_path dir) w = Some ?empty" using assms(3) by (simp add: stored_state_def)
  moreover have "state_ok ?empty" by (simp add: state_ok_def)
  ultimately obtain state where state: "stored_state (aj_state aj) (state_json_path dir) w' = Some state"
    "list_all (\<lambda>folder. af_peer folder = None) (ls_folders state)"
    using run_app_grown [OF assms(1,2,4)] by (fastforce simp: grown_def)
  obtain r w1 where "load_context aj env 0 w' = (r, w1)" by fastforce
  with load_context_run have ctx: "load_context aj env 0 w' = (r, w')" by blast
  show ?thesis
  proof (cases r)
    case (Inl e)
    with ctx show ?thesis by (simp add: syncer_sync_once_def bind_op_def)
  next
    case (Inr loaded)
    with ctx assms(5) have "load_state (aj_state aj) (ae_exists env) (ae_io env 0) (state_json_path dir) (ap_disk w')
        = Inr (ax_state loaded)"
      by (auto simp: load_context_def app_directory_def bind_op_Inr lift_result_Inr read_op_Inr sound_env_def
          on_app_disk_def map_op_err_def fs_create_dir_all_def split: prod.splits option.splits)
    from load_state_stored [OF this] state(1) have "ax_state loaded = state" by simp
    note here = Inr ctx this
    show ?thesis
    proof (cases "find (\<lambda>folder. af_id folder = folder_id) (ls_folders state)")
      case None
      with here show ?thesis by (simp add: syncer_sync_once_def bind_op_def find_folder_def)
    next
      case (Some folder)
      then have "folder \<in> set (ls_folders state)" by (auto simp: find_Some_iff)
      with state(2) have "af_peer folder = None" by (simp add: list_all_iff)
      with here Some show ?thesis
        by (simp add: syncer_sync_once_def bind_op_def find_folder_def build_sync_once_def connection_of_def)
    qed
  qed
qed

section \<open>Examples\<close>

text \<open>An agent that answers every command line with an empty object, and one folder to add.\<close>

definition sample_input :: add_folder_input where
  "sample_input = \<lparr>ai_display_name = ''My Docs '', ai_path = ''/d'', ai_mode = ''upload_only'',
     ai_max_bytes = None, ai_interval_seconds = Some 5\<rparr>"

definition sample_folder :: app_folder_config where
  "sample_folder = \<lparr>af_id = ''my-docs-7'', af_name = ''My Docs'', af_path = ''/d'', af_mode = ''upload_only'',
     af_max_bytes = app_default_size_limit_bytes, af_warning_threshold_percent = app_default_warning_percent,
     af_sync_interval_seconds = 30, af_peer = None\<rparr>"

definition sample_state :: linux_state where
  "sample_state = \<lparr>ls_selected_folder_id = Some ''my-docs-7'', ls_folders = [sample_folder]\<rparr>"

definition sample_state_codec :: "linux_state json_codec" where
  "sample_state_codec = \<lparr>to_vec_pretty = (\<lambda>state. if state = sample_state then Inr ''{}'' else Inl ''not supported''),
     from_slice = (\<lambda>bytes. if bytes = ''{}'' then Inr sample_state else Inl ''expected value'')\<rparr>"

definition sample_app_codecs :: "unit app_codecs" where
  "sample_app_codecs = \<lparr>aj_state = sample_state_codec, aj_queue = (\<lambda>_. Inl ''missing field''),
     aj_status = (\<lambda>_. Inl ''missing field''), aj_value = (\<lambda>_. Inr ())\<rparr>"

definition sample_app_env :: "unit app_env" where
  "sample_app_env = \<lparr>ae_app_data_dir = Some ''/app'', ae_var = (\<lambda>_. None), ae_io = (\<lambda>_. no_faults),
     ae_exists = (\<lambda>_. False), ae_is_dir = (\<lambda>path. path = ''/d''), ae_millis = Some 7,
     ae_spawn = (\<lambda>cmd w. (Inr \<lparr>po_success = True, po_code = Some 0, po_stdout = ''{}'', po_stderr = []\<rparr>, w))\<rparr>"

definition sample_app_world :: "unit app_world" where
  "sample_app_world = \<lparr>ap_disk = \<lparr>dk_files = (\<lambda>_. None)\<rparr>, ap_rest = ()\<rparr>"

lemma sample_state_laws: "json_laws (aj_state sample_app_codecs)"
  by (simp add: json_laws_def sample_app_codecs_def sample_state_codec_def split: if_splits)

lemma sample_sound: "sound_env ''/app'' sample_app_env"
  by (simp add: sound_env_def sample_app_env_def leaves_document_def no_faults_def)

lemma sample_no_document:
  "stored_state j path sample_app_world = Some \<lparr>ls_selected_folder_id = None, ls_folders = []\<rparr>"
  by (simp add: stored_state_def sample_app_world_def)

lemma sample_folder_created:
  "create_folder_config sample_app_env sample_input \<lparr>ls_selected_folder_id = None, ls_folders = []\<rparr> = Inr sample_folder"
proof -
  have "trim ''My Docs '' = ''My Docs''" by code_simp
  moreover have "new_folder_id (Some 7) ''My Docs'' = ''my-docs-7''" by code_simp
  moreover have "is_absolute ''/d''" by code_simp
  moreover have "max (5 :: u64) 30 = 30" by code_simp
  ultimately show ?thesis
    by (simp add: create_folder_config_def sample_app_env_def sample_input_def sample_folder_def supported_mode_def)
qed

lemma sample_added:
  "\<exists>snapshot w'. handle_command sample_app_codecs sample_app_env (AddFolder sample_input) sample_app_world
     = (Inr snapshot, w')"
proof -
  let ?rt = "from_env_or_default (ae_var sample_app_env) ''/app''"
  let ?path = "state_json_path ''/app''"
  have dir: "app_directory sample_app_env 0 sample_app_world = (Inr ''/app'', sample_app_world)"
    by (simp add: app_directory_def sample_app_env_def bind_op_def on_app_disk_def map_op_err_def
        fs_create_dir_all_def no_faults_def)
  have loaded: "load_state (aj_state sample_app_codecs) (ae_exists sample_app_env) (ae_io sample_app_env 0) ?path
      (ap_disk sample_app_world) = Inr \<lparr>ls_selected_folder_id = None, ls_folders = []\<rparr>"
    by (simp add: load_state_def sample_app_env_def sample_app_world_def)
  have started: "run_agent sample_app_codecs sample_app_env (build_init_folder ?rt c n b p) w = (Inr (), w)" for c n b p w
    by (simp add: run_agent_def run_json_def build_init_folder_def from_env_or_default_def sample_app_env_def
        sample_app_codecs_def bind_op_def map_op_err_def)
  obtain w1 where written: "on_app_disk (write_state (aj_state sample_app_codecs) (ae_io sample_app_env 1) ?path
      sample_state) sample_app_world = (Inr (), w1)"
    by (simp add: on_app_disk_def write_state_def sample_app_codecs_def sample_state_codec_def bind_op_def
        map_op_err_def fs_write_def sample_app_env_def no_faults_def)
  have "\<lparr>ls_selected_folder_id = Some (af_id sample_folder), ls_folders = [sample_folder]\<rparr> = sample_state"
    by (simp add: sample_state_def sample_folder_def)
  with dir loaded started written sample_folder_created
    load_snapshot_ok [of sample_app_codecs sample_app_env "\<lparr>ax_state = sample_state, ax_runtime = ?rt\<rparr>" w1]
  show ?thesis by (auto simp: syncer_add_folder_def bind_op_def Let_def)
qed

lemma sample_run:
  "\<exists>snapshot w'. run_app sample_app_codecs [(sample_app_env, AddFolder sample_input)] sample_app_world
     = ([(AddFolder sample_input, Inr snapshot)], w')"
proof -
  from sample_added obtain snapshot w' where "handle_command sample_app_codecs sample_app_env (AddFolder sample_input)
    sample_app_world = (Inr snapshot, w')" by blast
  then show ?thesis by (simp del: handle_command.simps)
qed

theorem configured_folders_stay_valid_witness:
  "\<exists>log w' state'. run_app sample_app_codecs [(sample_app_env, AddFolder sample_input)] sample_app_world = (log, w')
     \<and> stored_state sample_state_codec (state_json_path ''/app'') w' = Some state'
     \<and> map af_name (ls_folders state') = [''My Docs'']"
proof -
  from sample_run obtain snapshot w' where run: "run_app sample_app_codecs [(sample_app_env, AddFolder sample_input)]
    sample_app_world = ([(AddFolder sample_input, Inr snapshot)], w')" by blast
  have "list_all (\<lambda>(env, c). sound_env ''/app'' env) [(sample_app_env, AddFolder sample_input)]"
    by (simp add: sample_sound)
  from configured_folders_stay_valid [OF this sample_state_laws run sample_no_document]
  obtain state' added where "stored_state sample_state_codec (state_json_path ''/app'') w' = Some state'"
    "ls_folders state' = added"
    "map af_name added = added_names [(AddFolder sample_input, Inr snapshot :: app_error + unit dashboard_snapshot)]"
    by (auto simp: state_ok_def sample_app_codecs_def)
  moreover have "trim (ai_display_name sample_input) = ''My Docs''" by code_simp
  ultimately show ?thesis using run by (auto simp: added_names_def)
qed

theorem added_folders_cannot_sync_witness:
  "\<exists>log w' e. run_app sample_app_codecs [(sample_app_env, AddFolder sample_input)] sample_app_world = (log, w')
     \<and> syncer_sync_once sample_app_codecs sample_app_env ''my-docs-7'' w' = (Inl e, w')"
proof -
  from sample_run obtain log w' where run: "run_app sample_app_codecs [(sample_app_env, AddFolder sample_input)]
    sample_app_world = (log, w')" by blast
  have "list_all (\<lambda>(env, c). sound_env ''/app'' env) [(sample_app_env, AddFolder sample_input)]"
    by (simp add: sample_sound)
  from added_folders_cannot_sync [OF this sample_state_laws _ run sample_sound, of "''my-docs-7''"] run
  show ?thesis by (auto simp: sample_app_world_def)
qed

text \<open>Two names with the same letters get the same id when the clock does not move.\<close>

lemma folder_ids_collide: "new_folder_id millis ''my docs'' = new_folder_id millis ''My-Docs''"
proof -
  have "folder_slug ''my docs'' = folder_slug ''My-Docs''" by code_simp
  then show ?thesis by (simp add: new_folder_id_def)
qed
end
